(* ===== verification/Prelude.thy ===== *)
theory Prelude
  imports Main
begin

text \<open>
  Shared vocabulary of the development. An \<^emph>\<open>async\<close> TypeScript function that awaits
  external calls (Redis, HTTP, the repositories, \<open>uuidv4\<close>, \<open>console.error\<close>) is modelled
  as an interaction tree \<open>('q, 'r, 'e, 'a) prog\<close>: it either returns (\<open>Return\<close>), throws
  (\<open>Throw\<close>, a rejected promise) or issues a request \<open>'q\<close> and continues with whatever
  response \<open>'r\<close> the environment gives (\<open>Call\<close>). \<open>pbind\<close> is \<open>await\<close>-sequencing,
  \<open>pcatch\<close> is \<open>try/catch\<close>. Two semantics interpret a tree:
  \<^item> \<open>replay\<close> feeds a list of responses in order, as the Jest mocks of the test suite do
    (\<open>mockResolvedValueOnce\<close>), and returns the requests made and the outcome, \<open>None\<close>
    when the responses run out; a theorem over all response lists holds for every behaviour
    of the collaborators;
  \<^item> \<open>run\<close> interprets each request with a state-passing handler (a concrete world) and
    returns the outcome, the final state and the trace of request/response pairs.
  \<open>run_replay\<close> links them, so every \<open>replay\<close> theorem applies to every concrete world.
\<close>

named_theorems prog_simps "equations that compute interaction trees"

datatype ('q, 'r, 'e, 'a) prog =
    Return 'a
  | Throw 'e
  | Call 'q "'r \<Rightarrow> ('q, 'r, 'e, 'a) prog"

primrec pbind :: "('q, 'r, 'e, 'a) prog \<Rightarrow> ('a \<Rightarrow> ('q, 'r, 'e, 'b) prog) \<Rightarrow> ('q, 'r, 'e, 'b) prog" where
  "pbind (Return a) f = f a"
| "pbind (Throw e) f = Throw e"
| "pbind (Call q k) f = Call q (\<lambda>r. pbind (k r) f)"

primrec pcatch :: "('q, 'r, 'e, 'a) prog \<Rightarrow> ('e \<Rightarrow> ('q, 'r, 'e, 'a) prog) \<Rightarrow> ('q, 'r, 'e, 'a) prog" where
  "pcatch (Return a) h = Return a"
| "pcatch (Throw e) h = h e"
| "pcatch (Call q k) h = Call q (\<lambda>r. pcatch (k r) h)"

text \<open>\<open>await q\<close>: issue request \<open>q\<close>; a rejected promise (\<open>Inl\<close>) is rethrown.\<close>

definition await :: "'q \<Rightarrow> ('q, 'e + 'v, 'e, 'v) prog" where
  "await q = Call q (\<lambda>r. case r of Inl e \<Rightarrow> Throw e | Inr v \<Rightarrow> Return v)"

primrec replay :: "('q, 'r, 'e, 'a) prog \<Rightarrow> 'r list \<Rightarrow> 'q list \<times> ('e + 'a) option" where
  "replay (Return a) rs = ([], Some (Inr a))"
| "replay (Throw e) rs = ([], Some (Inl e))"
| "replay (Call q k) rs =
     (case rs of
        [] \<Rightarrow> ([q], None)
      | r # rs' \<Rightarrow> (case replay (k r) rs' of (qs, out) \<Rightarrow> (q # qs, out)))"

primrec run :: "('s \<Rightarrow> 'q \<Rightarrow> 'r \<times> 's) \<Rightarrow> ('q, 'r, 'e, 'a) prog \<Rightarrow> 's \<Rightarrow>
    ('e + 'a) \<times> 's \<times> ('q \<times> 'r) list" where
  "run h (Return a) s = (Inr a, s, [])"
| "run h (Throw e) s = (Inl e, s, [])"
| "run h (Call q k) s =
     (case h s q of (r, s') \<Rightarrow>
        (case run h (k r) s' of (out, s'', tr) \<Rightarrow> (out, s'', (q, r) # tr)))"

text \<open>A handler that may never answer a request (\<open>None\<close>: the promise never settles).
  \<open>prun h p s\<close> is \<open>None\<close> when some awaited request of the run never settles, and
  otherwise the outcome, the final state and the trace, as \<open>run\<close>.\<close>

primrec prun :: "('s \<Rightarrow> 'q \<Rightarrow> ('r \<times> 's) option) \<Rightarrow> ('q, 'r, 'e, 'a) prog \<Rightarrow> 's \<Rightarrow>
    (('e + 'a) \<times> 's \<times> ('q \<times> 'r) list) option" where
  "prun h (Return a) s = Some (Inr a, s, [])"
| "prun h (Throw e) s = Some (Inl e, s, [])"
| "prun h (Call q k) s =
     (case h s q of
        None \<Rightarrow> None
      | Some (r, s') \<Rightarrow>
          (case prun h (k r) s' of
             None \<Rightarrow> None
           | Some (out, s'', tr) \<Rightarrow> Some (out, s'', (q, r) # tr)))"

text \<open>The outcome of a finished replay, and the requests it made.\<close>

definition outcome :: "('q, 'r, 'e, 'a) prog \<Rightarrow> 'r list \<Rightarrow> ('e + 'a) option" where
  "outcome p rs = snd (replay p rs)"

definition requests :: "('q, 'r, 'e, 'a) prog \<Rightarrow> 'r list \<Rightarrow> 'q list" where
  "requests p rs = fst (replay p rs)"

subsection \<open>Two async functions on one event loop\<close>

text \<open>
  JavaScript runs one callback at a time: an \<open>async\<close> function runs without interruption
  from one \<open>await\<close> to the next. Two functions started together interleave at their
  awaits, in the order in which their pending requests complete. \<open>interleave h sched p1 p2 s\<close>
  lets the schedule decide: \<open>True\<close> completes the pending request of the first function,
  \<open>False\<close> that of the second; a slot for a function that has finished is skipped. It
  returns what is left of both functions and the final state.
\<close>

fun interleave :: "('s \<Rightarrow> 'q \<Rightarrow> 'r \<times> 's) \<Rightarrow> bool list \<Rightarrow> ('q, 'r, 'e, 'a) prog \<Rightarrow>
    ('q, 'r, 'e, 'b) prog \<Rightarrow> 's \<Rightarrow> ('q, 'r, 'e, 'a) prog \<times> ('q, 'r, 'e, 'b) prog \<times> 's" where
  "interleave h [] p1 p2 s = (p1, p2, s)"
| "interleave h (True # sched) (Call q k) p2 s =
     (case h s q of (r, s') \<Rightarrow> interleave h sched (k r) p2 s')"
| "interleave h (False # sched) p1 (Call q k) s =
     (case h s q of (r, s') \<Rightarrow> interleave h sched p1 (k r) s')"
| "interleave h (b # sched) p1 p2 s = interleave h sched p1 p2 s"

subsection \<open>Paths through an interaction tree\<close>

text \<open>
  \<open>may_call p q\<close>: some run of \<open>p\<close> issues request \<open>q\<close>; \<open>may_return p a\<close> and
  \<open>may_throw p e\<close>: some run ends with \<open>a\<close> or throws \<open>e\<close>. They quantify over every
  response of the environment, so an invariant proved with them holds for every behaviour of
  every collaborator; \<open>requests_may_call\<close> brings it down to a concrete replay.
\<close>

inductive may_call :: "('q, 'r, 'e, 'a) prog \<Rightarrow> 'q \<Rightarrow> bool" where
  here: "may_call (Call q k) q"
| later: "may_call (k r) q' \<Longrightarrow> may_call (Call q k) q'"

inductive may_return :: "('q, 'r, 'e, 'a) prog \<Rightarrow> 'a \<Rightarrow> bool" where
  ret: "may_return (Return a) a"
| step: "may_return (k r) a \<Longrightarrow> may_return (Call q k) a"

inductive may_throw :: "('q, 'r, 'e, 'a) prog \<Rightarrow> 'e \<Rightarrow> bool" where
  thr: "may_throw (Throw e) e"
| step: "may_throw (k r) e \<Longrightarrow> may_throw (Call q k) e"

text \<open>\<open>bounded p n\<close>: on every path, whatever the responses, \<open>p\<close> makes at most
  \<open>n\<close> calls before it returns or throws.\<close>

inductive bounded :: "('q, 'r, 'e, 'a) prog \<Rightarrow> nat \<Rightarrow> bool" where
  ret: "bounded (Return a) n"
| thr: "bounded (Throw e) n"
| call: "(\<And>r. bounded (k r) n) \<Longrightarrow> bounded (Call q k) (Suc n)"

subsection \<open>Lists\<close>

text \<open>\<open>Array.prototype.join\<close>: the pieces separated by one separator.\<close>

fun join_list :: "'a \<Rightarrow> 'a list list \<Rightarrow> 'a list" where
  "join_list sep [] = []"
| "join_list sep [x] = x"
| "join_list sep (x # y # xs) = x @ sep # join_list sep (y # xs)"

declare pbind.simps [prog_simps] pcatch.simps [prog_simps] await_def [prog_simps]

subsection \<open>Monad laws and the algebra of \<open>pbind\<close> and \<open>pcatch\<close>\<close>

lemma pbind_Return_right [simp]: "pbind m Return = m"
  by (induction m) auto

lemma pbind_assoc [simp]: "pbind (pbind m f) g = pbind m (\<lambda>x. pbind (f x) g)"
  by (induction m) auto

lemma pcatch_Throw_right [simp]: "pcatch m Throw = m"
  by (induction m) auto

lemma pbind_await [prog_simps]:
  "pbind (await q) f = Call q (\<lambda>r. case r of Inl e \<Rightarrow> Throw e | Inr v \<Rightarrow> f v)"
  by (auto simp: await_def split: sum.splits intro!: ext)

subsection \<open>Replaying a sequential composition\<close>

text \<open>
  A replay that finishes consumes exactly one response per request; the responses for
  \<open>pbind m f\<close> are those of \<open>m\<close> followed by those of the continuation.
\<close>

lemma replay_length:
  "replay p rs = (qs, Some out) \<Longrightarrow> length qs \<le> length rs"
proof (induction p arbitrary: rs qs)
  case (Call q k)
  then show ?case by (fastforce split: list.splits prod.splits)
qed auto

lemma replay_pbind_Inr:
  assumes "replay m rs1 = (qs1, Some (Inr a))" and "length rs1 = length qs1"
  shows "replay (pbind m f) (rs1 @ rs2) =
           (case replay (f a) rs2 of (qs2, out) \<Rightarrow> (qs1 @ qs2, out))"
  using assms
proof (induction m arbitrary: rs1 qs1)
  case (Call q k)
  then show ?case by (auto split: list.splits prod.splits)
qed auto

lemma replay_pbind_Inl:
  assumes "replay m rs1 = (qs1, Some (Inl e))" and "length rs1 = length qs1"
  shows "replay (pbind m f) (rs1 @ rs2) = (qs1, Some (Inl e))"
  using assms
proof (induction m arbitrary: rs1 qs1)
  case (Call q k)
  then show ?case by (auto split: list.splits prod.splits)
qed auto

lemma replay_pcatch_Inr:
  assumes "replay m rs1 = (qs1, Some (Inr a))" and "length rs1 = length qs1"
  shows "replay (pcatch m h) (rs1 @ rs2) = (qs1, Some (Inr a))"
  using assms
proof (induction m arbitrary: rs1 qs1)
  case (Call q k)
  then show ?case by (auto split: list.splits prod.splits)
qed auto

lemma replay_pcatch_Inl:
  assumes "replay m rs1 = (qs1, Some (Inl e))" and "length rs1 = length qs1"
  shows "replay (pcatch m h) (rs1 @ rs2) =
           (case replay (h e) rs2 of (qs2, out) \<Rightarrow> (qs1 @ qs2, out))"
  using assms
proof (induction m arbitrary: rs1 qs1)
  case (Call q k)
  then show ?case by (auto split: list.splits prod.splits)
qed auto

subsection \<open>Paths: facts\<close>

inductive_simps may_call_Return [simp]: "may_call (Return a) q"
inductive_simps may_call_Throw [simp]: "may_call (Throw e) q"
inductive_simps may_call_Call [simp]: "may_call (Call q k) q'"
inductive_simps may_return_Return [simp]: "may_return (Return a) b"
inductive_simps may_return_Throw [simp]: "may_return (Throw e) b"
inductive_simps may_return_Call [simp]: "may_return (Call q k) b"
inductive_simps may_throw_Return [simp]: "may_throw (Return a) e"
inductive_simps may_throw_Throw [simp]: "may_throw (Throw e) e'"
inductive_simps may_throw_Call [simp]: "may_throw (Call q k) e"

lemma may_call_pbind [simp]:
  "may_call (pbind m f) q \<longleftrightarrow> may_call m q \<or> (\<exists>a. may_return m a \<and> may_call (f a) q)"
  by (induction m) auto

lemma may_return_pbind [simp]:
  "may_return (pbind m f) b \<longleftrightarrow> (\<exists>a. may_return m a \<and> may_return (f a) b)"
  by (induction m) auto

lemma may_throw_pbind [simp]:
  "may_throw (pbind m f) e \<longleftrightarrow> may_throw m e \<or> (\<exists>a. may_return m a \<and> may_throw (f a) e)"
  by (induction m) auto

lemma may_call_pcatch [simp]:
  "may_call (pcatch m h) q \<longleftrightarrow> may_call m q \<or> (\<exists>e. may_throw m e \<and> may_call (h e) q)"
  by (induction m) auto

lemma may_return_pcatch [simp]:
  "may_return (pcatch m h) a \<longleftrightarrow> may_return m a \<or> (\<exists>e. may_throw m e \<and> may_return (h e) a)"
  by (induction m) auto

lemma may_throw_pcatch [simp]:
  "may_throw (pcatch m h) e' \<longleftrightarrow> (\<exists>e. may_throw m e \<and> may_throw (h e) e')"
  by (induction m) auto

lemma may_await [simp]:
  "may_call (await q) q' \<longleftrightarrow> q' = q" "may_return (await q) v"
  "may_throw (await q) e"
proof -
  have "\<not> may_call (case r of Inl e \<Rightarrow> Throw e | Inr v \<Rightarrow> Return v) q'" for r
    by (cases r) auto
  then show "may_call (await q) q' \<longleftrightarrow> q' = q"
    by (auto simp: await_def)
  show "may_return (await q) v"
    unfolding await_def by (rule may_return.step [where r = "Inr v"]) simp
  show "may_throw (await q) e"
    unfolding await_def by (rule may_throw.step [where r = "Inl e"]) simp
qed

lemma requests_may_call:
  "q \<in> set (fst (replay p rs)) \<Longrightarrow> may_call p q"
proof (induction p arbitrary: rs)
  case (Call q' k)
  show ?case
  proof (cases rs)
    case Nil
    with Call.prems show ?thesis by simp
  next
    case (Cons r rs')
    with Call.prems have "q = q' \<or> q \<in> set (fst (replay (k r) rs'))"
      by (auto split: prod.splits)
    then show ?thesis
      using Call.IH [of "k r" rs'] by auto
  qed
qed auto

subsection \<open>A concrete run is a replay of the responses it received\<close>

lemma run_replay:
  "run h p s = (out, s', tr) \<Longrightarrow> replay p (map snd tr) = (map fst tr, Some out)"
  by (induction p arbitrary: s s' tr out) (auto split: prod.splits)

lemma run_Call_step [prog_simps]:
  "run h (Call q k) s =
     (let (r, s') = h s q; (out, s'', tr) = run h (k r) s' in (out, s'', (q, r) # tr))"
  by (simp add: Let_def split: prod.splits)

lemma run_case_sum [simp]:
  "run h (case r of Inl e \<Rightarrow> Throw e | Inr v \<Rightarrow> Return v) s = (r, s, [])"
  by (cases r) simp_all

text \<open>Running \<open>pbind p f\<close> runs \<open>p\<close>, then \<open>f\<close> on its result from the state
  \<open>p\<close> left; the traces are concatenated. An exception of \<open>p\<close> skips \<open>f\<close>.\<close>

lemma run_pbind:
  "run h (pbind p f) s =
     (case run h p s of
        (Inl e, s', tr) \<Rightarrow> (Inl e, s', tr)
      | (Inr a, s', tr) \<Rightarrow> (case run h (f a) s' of (out, s'', tr') \<Rightarrow> (out, s'', tr @ tr')))"
  by (induction p arbitrary: s) (auto split: prod.splits sum.splits)

lemma prun_pbind:
  "prun h (pbind p f) s =
     (case prun h p s of
        None \<Rightarrow> None
      | Some (Inl e, s', tr) \<Rightarrow> Some (Inl e, s', tr)
      | Some (Inr a, s', tr) \<Rightarrow>
          (case prun h (f a) s' of
             None \<Rightarrow> None
           | Some (out, s'', tr') \<Rightarrow> Some (out, s'', tr @ tr')))"
  by (induction p arbitrary: s) (auto split: prod.splits sum.splits option.splits)

lemma prun_case_sum [simp]:
  "prun h (case r of Inl e \<Rightarrow> Throw e | Inr v \<Rightarrow> Return v) s = Some (r, s, [])"
  by (cases r) simp_all

text \<open>Where a total handler agrees with a partial one on the states of an invariant, the
  partial run settles and is the total run.\<close>

lemma prun_run:
  assumes "\<And>s q. I s \<Longrightarrow> h' s q = Some (h s q)" "\<And>s q. I s \<Longrightarrow> I (snd (h s q))" "I s"
  shows "prun h' p s = Some (run h p s)"
  using assms(3)
proof (induction p arbitrary: s)
  case (Call q k)
  obtain r s' where hs: "h s q = (r, s')" by fastforce
  with assms(2) [OF Call.prems, of q] have "I s'" by simp
  then have "prun h' (k r) s' = Some (run h (k r) s')" by (rule Call.IH [OF rangeI])
  with hs assms(1) [OF Call.prems, of q] show ?case by (simp split: prod.splits)
qed simp_all

lemma prun_Inl_may_throw: "prun h p s = Some (Inl e, s', tr) \<Longrightarrow> may_throw p e"
proof (induction p arbitrary: s tr)
  case (Call q k)
  then obtain r s1 tr' where "h s q = Some (r, s1)" "prun h (k r) s1 = Some (Inl e, s', tr')"
    by (auto split: option.splits)
  then have "may_throw (k r) e" using Call.IH [OF rangeI] by blast
  then show ?case by (rule may_throw.step)
qed (auto intro: may_throw.intros)

subsection \<open>Lists searched from the front\<close>

lemma find_append:
  "find P (xs @ ys) = (case find P xs of None \<Rightarrow> find P ys | Some x \<Rightarrow> Some x)"
  by (induction xs) auto

subsection \<open>Invariants of the handler hold along runs and interleavings\<close>

lemma run_inv:
  assumes "\<And>s q. I s \<Longrightarrow> I (snd (h s q))" "I s"
  shows "I (fst (snd (run h p s)))"
  using assms(2)
proof (induction p arbitrary: s)
  case (Call q k)
  obtain r s' where hs: "h s q = (r, s')" by fastforce
  with assms(1) [OF Call.prems, of q] have "I s'" by simp
  then have "I (fst (snd (run h (k r) s')))" by (rule Call.IH [OF rangeI])
  with hs show ?case by (cases "run h (k r) s'") simp
qed simp_all

lemma interleave_inv:
  assumes "\<And>s q. I s \<Longrightarrow> I (snd (h s q))" "I s"
  shows "I (snd (snd (interleave h sched p1 p2 s)))"
  using assms
proof (induction h sched p1 p2 s rule: interleave.induct)
  case (2 h sched q k p2 s)
  then show ?case by (metis (no_types, lifting) case_prod_conv interleave.simps(2) old.prod.exhaust snd_conv)
next
  case (3 h sched p1 q k s)
  then show ?case by (metis (no_types, lifting) case_prod_conv interleave.simps(3) old.prod.exhaust snd_conv)
qed simp_all

subsection \<open>Handlers that answer every outcome\<close>

lemma run_Inl_may_throw: "fst (run h p s) = Inl e \<Longrightarrow> may_throw p e"
proof (induction p arbitrary: s)
  case (Call q k)
  obtain r s' where hs: "h s q = (r, s')" by fastforce
  with Call.prems have "fst (run h (k r) s') = Inl e" by (simp split: prod.splits)
  then have "may_throw (k r) e" by (rule Call.IH [OF rangeI])
  then show ?case by (rule may_throw.step)
qed (auto intro: may_throw.intros)

lemma run_Inr_may_return: "fst (run h p s) = Inr a \<Longrightarrow> may_return p a"
proof (induction p arbitrary: s)
  case (Call q k)
  obtain r s' where hs: "h s q = (r, s')" by fastforce
  with Call.prems have "fst (run h (k r) s') = Inr a" by (simp split: prod.splits)
  then have "may_return (k r) a" by (rule Call.IH [OF rangeI])
  then show ?case by (rule may_return.step)
qed (auto intro: may_return.intros)

text \<open>Every request of a run's trace is one the program may make.\<close>

lemma run_trace_may_call: "(q, r) \<in> set (snd (snd (run h p s))) \<Longrightarrow> may_call p q"
proof (induction p arbitrary: s)
  case (Call q' k)
  obtain r' s' where hs: "h s q' = (r', s')" by fastforce
  with Call.prems have "q = q' \<or> (q, r) \<in> set (snd (snd (run h (k r') s')))"
    by (auto split: prod.splits)
  then show ?case
  proof
    assume "(q, r) \<in> set (snd (snd (run h (k r') s')))"
    then have "may_call (k r') q" by (rule Call.IH [OF rangeI])
    then show ?case by (rule may_call.later)
  qed (simp add: may_call.here)
qed simp_all

lemma pbind_if: "pbind (if b then p else q) f = (if b then pbind p f else pbind q f)"
  by simp

subsection \<open>Bounded interaction: the number of calls and termination of a replay\<close>

lemma bounded_mono: "bounded p n \<Longrightarrow> n \<le> m \<Longrightarrow> bounded p m"
proof (induction arbitrary: m rule: bounded.induct)
  case (call k n q)
  then obtain m' where "m = Suc m'" "n \<le> m'" by (cases m) auto
  with call show ?case by (auto intro: bounded.call)
qed (auto intro: bounded.intros)

lemma bounded_pbind:
  "bounded m a \<Longrightarrow> (\<And>x. bounded (f x) b) \<Longrightarrow> bounded (pbind m f) (a + b)"
proof (induction rule: bounded.induct)
  case (ret x n)
  then show ?case using bounded_mono [of "f x" b "n + b"] by simp
qed (auto intro: bounded.intros)

lemma bounded_pcatch:
  "bounded m a \<Longrightarrow> (\<And>e. bounded (h e) b) \<Longrightarrow> bounded (pcatch m h) (a + b)"
proof (induction rule: bounded.induct)
  case (thr e n)
  then show ?case using bounded_mono [of "h e" b "n + b"] by simp
qed (auto intro: bounded.intros)

lemma bounded_await [intro]: "bounded (await q) (Suc 0)"
  by (auto simp: await_def intro!: bounded.intros split: sum.splits)

lemma bounded_replay:
  "bounded p n \<Longrightarrow> length (fst (replay p rs)) \<le> n \<and> (n \<le> length rs \<longrightarrow> snd (replay p rs) \<noteq> None)"
proof (induction arbitrary: rs rule: bounded.induct)
  case (call k n q)
  show ?case
  proof (cases rs)
    case (Cons r rs')
    with call.IH [of r rs'] show ?thesis by (auto split: prod.splits)
  qed simp
qed simp_all

end
