(* ===== verification/Json.thy ===== *)
theory Json
  imports Prelude
begin

text \<open>
  JavaScript values as the service sees them: request bodies, HTTP payloads, objects read
  back from Redis. \<open>json\<close> is a JSON value; \<open>json option\<close> adds \<open>undefined\<close>
  (\<open>None\<close>), the result of reading a missing property. Objects keep their members in
  insertion order, as JavaScript does for keys that are not array indices. Numbers are
  integers. On top of the type: truthiness (\<open>!x\<close>, \<open>x || d\<close>), property read and write,
  \<open>String(x)\<close> as used by template literals, \<open>JSON.stringify\<close> and \<open>JSON.parse\<close>.
\<close>

named_theorems json_simps "evaluation rules of the JavaScript value model"

datatype json =
    JNull
  | JBool bool
  | JNum int
  | JStr string
  | JArr "json list"
  | JObj "(string \<times> json) list"

subsection \<open>Truthiness, property access\<close>

fun js_truthy :: "json \<Rightarrow> bool" where
  "js_truthy JNull = False"
| "js_truthy (JBool b) = b"
| "js_truthy (JNum n) = (n \<noteq> 0)"
| "js_truthy (JStr s) = (s \<noteq> [])"
| "js_truthy (JArr xs) = True"
| "js_truthy (JObj kvs) = True"

definition js_truthy_opt :: "json option \<Rightarrow> bool" where
  "js_truthy_opt v = (case v of None \<Rightarrow> False | Some x \<Rightarrow> js_truthy x)"

definition js_nullish :: "json option \<Rightarrow> bool" where
  "js_nullish v \<longleftrightarrow> v = None \<or> v = Some JNull"

fun js_get :: "json \<Rightarrow> string \<Rightarrow> json option" where
  "js_get (JObj kvs) k = map_of kvs k"
| "js_get _ k = None"

definition js_get_opt :: "json option \<Rightarrow> string \<Rightarrow> json option" where
  "js_get_opt v k = (case v of None \<Rightarrow> None | Some x \<Rightarrow> js_get x k)"

text \<open>\<open>a || d\<close>: the left operand when it is truthy, the right one otherwise.\<close>

definition js_or :: "json option \<Rightarrow> json \<Rightarrow> json" where
  "js_or a d = (case a of Some x \<Rightarrow> if js_truthy x then x else d | None \<Rightarrow> d)"

text \<open>\<open>o.k = v\<close>: an existing member is overwritten in place, a new one is appended.\<close>

fun upd_member :: "string \<Rightarrow> json \<Rightarrow> (string \<times> json) list \<Rightarrow> (string \<times> json) list" where
  "upd_member k v [] = [(k, v)]"
| "upd_member k v ((k', v') # kvs) =
     (if k = k' then (k, v) # kvs else (k', v') # upd_member k v kvs)"

fun js_set :: "json \<Rightarrow> string \<Rightarrow> json \<Rightarrow> json" where
  "js_set (JObj kvs) k v = JObj (upd_member k v kvs)"
| "js_set x k v = x"

text \<open>\<open>===\<close> on values: primitives by value; two object or array operands are distinct
  references in every use the service makes of it.\<close>

fun js_strict_eq :: "json option \<Rightarrow> json option \<Rightarrow> bool" where
  "js_strict_eq None None = True"
| "js_strict_eq (Some JNull) (Some JNull) = True"
| "js_strict_eq (Some (JBool a)) (Some (JBool b)) = (a = b)"
| "js_strict_eq (Some (JNum a)) (Some (JNum b)) = (a = b)"
| "js_strict_eq (Some (JStr a)) (Some (JStr b)) = (a = b)"
| "js_strict_eq _ _ = False"

subsection \<open>Characters and numbers\<close>

definition dquote :: char where "dquote = CHR 0x22"
definition bslash :: char where "bslash = CHR 0x5C"

definition is_digit :: "char \<Rightarrow> bool" where
  "is_digit c \<longleftrightarrow> 48 \<le> (of_char c :: nat) \<and> (of_char c :: nat) \<le> 57"

definition digit_char :: "nat \<Rightarrow> char" where
  "digit_char n = char_of (48 + n)"

fun nat_digits :: "nat \<Rightarrow> string" where
  "nat_digits n = (if n < 10 then [digit_char n] else nat_digits (n div 10) @ [digit_char (n mod 10)])"

declare nat_digits.simps [simp del]

definition int_to_string :: "int \<Rightarrow> string" where
  "int_to_string i = (if i < 0 then CHR ''-'' # nat_digits (nat (- i)) else nat_digits (nat i))"

text \<open>\<open>String(x)\<close>, as a template literal \<open>`...${x}...`\<close> converts its operand.\<close>

fun js_to_string :: "json \<Rightarrow> string" where
  "js_to_string JNull = ''null''"
| "js_to_string (JBool b) = (if b then ''true'' else ''false'')"
| "js_to_string (JNum n) = int_to_string n"
| "js_to_string (JStr s) = s"
| "js_to_string (JArr xs) =
     join_list (CHR '','') (map (\<lambda>x. if x = JNull then [] else js_to_string x) xs)"
| "js_to_string (JObj kvs) = ''[object Object]''"

subsection \<open>\<open>JSON.stringify\<close>\<close>

definition hex_digit :: "nat \<Rightarrow> char" where
  "hex_digit n = (if n < 10 then char_of (48 + n) else char_of (87 + n))"

text \<open>String escaping: quote, backslash and the control characters; every other byte
  (UTF-8 text included) is copied.\<close>

definition escape_char :: "char \<Rightarrow> string" where
  "escape_char c =
     (if c = dquote then [bslash, dquote]
      else if c = bslash then [bslash, bslash]
      else if c = CHR 0x08 then [bslash, CHR ''b'']
      else if c = CHR 0x0C then [bslash, CHR ''f'']
      else if c = CHR 0x0A then [bslash, CHR ''n'']
      else if c = CHR 0x0D then [bslash, CHR ''r'']
      else if c = CHR 0x09 then [bslash, CHR ''t'']
      else if (of_char c :: nat) < 32
        then [bslash, CHR ''u'', CHR ''0'', CHR ''0'',
              hex_digit (of_char c div 16), hex_digit (of_char c mod 16)]
      else [c])"

definition json_quote :: "string \<Rightarrow> string" where
  "json_quote s = dquote # concat (map escape_char s) @ [dquote]"

fun json_stringify :: "json \<Rightarrow> string"
  and stringify_elems :: "json list \<Rightarrow> string"
  and stringify_members :: "(string \<times> json) list \<Rightarrow> string" where
  "json_stringify JNull = ''null''"
| "json_stringify (JBool b) = (if b then ''true'' else ''false'')"
| "json_stringify (JNum n) = int_to_string n"
| "json_stringify (JStr s) = json_quote s"
| "json_stringify (JArr xs) = CHR ''['' # stringify_elems xs @ '']''"
| "json_stringify (JObj kvs) = CHR ''{'' # stringify_members kvs @ ''}''"
| "stringify_elems [] = []"
| "stringify_elems [x] = json_stringify x"
| "stringify_elems (x # y # xs) = json_stringify x @ CHR '','' # stringify_elems (y # xs)"
| "stringify_members [] = []"
| "stringify_members [(k, v)] = json_quote k @ CHR '':'' # json_stringify v"
| "stringify_members ((k, v) # m # kvs) =
     json_quote k @ CHR '':'' # json_stringify v @ CHR '','' # stringify_members (m # kvs)"

subsection \<open>\<open>JSON.parse\<close>\<close>

text \<open>
  A recursive-descent reader. Strings are byte strings: an escape \<open>\uXXXX\<close> yields the
  UTF-8 bytes of the code unit. Numbers with a fraction or an exponent are outside the
  model (integers only) and are rejected. The value readers carry fuel; \<open>json_parse\<close>
  gives one unit more than the length of the text, and \<open>json_parse_stringify\<close> shows
  that this is enough for every text that \<open>json_stringify\<close> produces.
\<close>

definition is_ws :: "char \<Rightarrow> bool" where
  "is_ws c \<longleftrightarrow> c = CHR '' '' \<or> c = CHR 0x09 \<or> c = CHR 0x0A \<or> c = CHR 0x0D"

fun skip_ws :: "string \<Rightarrow> string" where
  "skip_ws [] = []"
| "skip_ws (c # cs) = (if is_ws c then skip_ws cs else c # cs)"

fun parse_digits :: "nat \<Rightarrow> string \<Rightarrow> nat \<times> string" where
  "parse_digits acc [] = (acc, [])"
| "parse_digits acc (c # cs) =
     (if is_digit c then parse_digits (10 * acc + (of_char c - 48)) cs else (acc, c # cs))"

text \<open>An unsigned integer token: \<open>0\<close> alone, or a non-zero digit and more digits.\<close>

fun parse_nat_token :: "string \<Rightarrow> (nat \<times> string) option" where
  "parse_nat_token [] = None"
| "parse_nat_token (c # cs) =
     (if c = CHR ''0'' then (case cs of d # _ \<Rightarrow> if is_digit d then None else Some (0, cs)
                                    | [] \<Rightarrow> Some (0, cs))
      else if is_digit c then Some (parse_digits (of_char c - 48) cs)
      else None)"

definition number_end :: "string \<Rightarrow> bool" where
  "number_end s \<longleftrightarrow> (case s of [] \<Rightarrow> True
                     | c # _ \<Rightarrow> c \<noteq> CHR ''.'' \<and> c \<noteq> CHR ''e'' \<and> c \<noteq> CHR ''E'')"

definition parse_number :: "string \<Rightarrow> (json \<times> string) option" where
  "parse_number s =
     (let (neg, s') = (case s of c # cs \<Rightarrow> if c = CHR ''-'' then (True, cs) else (False, s)
                               | [] \<Rightarrow> (False, s))
      in case parse_nat_token s' of
           None \<Rightarrow> None
         | Some (n, rest) \<Rightarrow>
             if number_end rest then Some (JNum (if neg then - int n else int n), rest) else None)"

definition hex_val :: "char \<Rightarrow> nat option" where
  "hex_val c =
     (let n = (of_char c :: nat) in
      if 48 \<le> n \<and> n \<le> 57 then Some (n - 48)
      else if 97 \<le> n \<and> n \<le> 102 then Some (n - 87)
      else if 65 \<le> n \<and> n \<le> 70 then Some (n - 55)
      else None)"

definition hex4 :: "char \<Rightarrow> char \<Rightarrow> char \<Rightarrow> char \<Rightarrow> nat option" where
  "hex4 a b c d =
     (case (hex_val a, hex_val b, hex_val c, hex_val d) of
        (Some w, Some x, Some y, Some z) \<Rightarrow> Some (((w * 16 + x) * 16 + y) * 16 + z)
      | _ \<Rightarrow> None)"

definition utf8_encode :: "nat \<Rightarrow> string" where
  "utf8_encode n =
     (if n < 128 then [char_of n]
      else if n < 2048 then [char_of (192 + n div 64), char_of (128 + n mod 64)]
      else [char_of (224 + n div 4096), char_of (128 + (n div 64) mod 64), char_of (128 + n mod 64)])"

definition unescape :: "char \<Rightarrow> char option" where
  "unescape e =
     (if e = dquote then Some dquote else if e = bslash then Some bslash
      else if e = CHR ''/'' then Some (CHR ''/'')
      else if e = CHR ''b'' then Some (CHR 0x08) else if e = CHR ''f'' then Some (CHR 0x0C)
      else if e = CHR ''n'' then Some (CHR 0x0A) else if e = CHR ''r'' then Some (CHR 0x0D)
      else if e = CHR ''t'' then Some (CHR 0x09) else None)"

definition prepend :: "'a list \<Rightarrow> ('a list \<times> 'b) option \<Rightarrow> ('a list \<times> 'b) option" where
  "prepend xs r = map_option (\<lambda>(ys, rest). (xs @ ys, rest)) r"

text \<open>The body of a string literal, after its opening quote.\<close>

fun parse_string_body :: "string \<Rightarrow> (string \<times> string) option"
  and parse_escape :: "string \<Rightarrow> (string \<times> string) option" where
  "parse_string_body [] = None"
| "parse_string_body (c # cs) =
     (if c = dquote then Some ([], cs)
      else if c = bslash then parse_escape cs
      else if (of_char c :: nat) < 32 then None
      else prepend [c] (parse_string_body cs))"
| "parse_escape (u # a # b # c # d # cs) =
     (if u = CHR ''u'' then
        (case hex4 a b c d of None \<Rightarrow> None | Some n \<Rightarrow> prepend (utf8_encode n) (parse_string_body cs))
      else (case unescape u of None \<Rightarrow> None
            | Some x \<Rightarrow> prepend [x] (parse_string_body (a # b # c # d # cs))))"
| "parse_escape (u # cs) =
     (if u = CHR ''u'' then None
      else (case unescape u of None \<Rightarrow> None | Some x \<Rightarrow> prepend [x] (parse_string_body cs)))"
| "parse_escape [] = None"

text \<open>Object members are assigned in order, so a repeated key keeps its first position and
  its last value, as in \<open>JSON.parse\<close>.\<close>

definition build_object :: "(string \<times> json) list \<Rightarrow> (string \<times> json) list" where
  "build_object kvs = foldl (\<lambda>acc (k, v). upd_member k v acc) [] kvs"

fun parse_value :: "nat \<Rightarrow> string \<Rightarrow> (json \<times> string) option"
  and parse_elems :: "nat \<Rightarrow> string \<Rightarrow> (json list \<times> string) option"
  and parse_members :: "nat \<Rightarrow> string \<Rightarrow> ((string \<times> json) list \<times> string) option" where
  "parse_value 0 s = None"
| "parse_value (Suc f) s =
     (case skip_ws s of
        [] \<Rightarrow> None
      | c # cs \<Rightarrow>
          if c = CHR ''n'' then (if take 3 cs = ''ull'' then Some (JNull, drop 3 cs) else None)
          else if c = CHR ''t'' then (if take 3 cs = ''rue'' then Some (JBool True, drop 3 cs) else None)
          else if c = CHR ''f'' then (if take 4 cs = ''alse'' then Some (JBool False, drop 4 cs) else None)
          else if c = dquote then map_option (\<lambda>(str, r). (JStr str, r)) (parse_string_body cs)
          else if c = CHR ''['' then
            (case skip_ws cs of
               d # r \<Rightarrow> if d = CHR '']'' then Some (JArr [], r)
                        else map_option (\<lambda>(xs, r). (JArr xs, r)) (parse_elems f cs)
             | [] \<Rightarrow> None)
          else if c = CHR ''{'' then
            (case skip_ws cs of
               d # r \<Rightarrow> if d = CHR ''}'' then Some (JObj [], r)
                        else map_option (\<lambda>(kvs, r). (JObj (build_object kvs), r)) (parse_members f cs)
             | [] \<Rightarrow> None)
          else parse_number (c # cs))"
| "parse_elems 0 s = None"
| "parse_elems (Suc f) s =
     (case parse_value f s of
        None \<Rightarrow> None
      | Some (v, r) \<Rightarrow>
          (case skip_ws r of
             d # r' \<Rightarrow> if d = CHR '','' then prepend [v] (parse_elems f r')
                       else if d = CHR '']'' then Some ([v], r') else None
           | [] \<Rightarrow> None))"
| "parse_members 0 s = None"
| "parse_members (Suc f) s =
     (case skip_ws s of
        q # cs \<Rightarrow>
          if q \<noteq> dquote then None
          else (case parse_string_body cs of
                  None \<Rightarrow> None
                | Some (k, r) \<Rightarrow>
                    (case skip_ws r of
                       d # r2 \<Rightarrow>
                         if d \<noteq> CHR '':'' then None
                         else (case parse_value f r2 of
                                 None \<Rightarrow> None
                               | Some (v, r3) \<Rightarrow>
                                   (case skip_ws r3 of
                                      e # r4 \<Rightarrow>
                                        if e = CHR '','' then prepend [(k, v)] (parse_members f r4)
                                        else if e = CHR ''}'' then Some ([(k, v)], r4) else None
                                    | [] \<Rightarrow> None))
                     | [] \<Rightarrow> None))
      | [] \<Rightarrow> None)"

definition json_parse :: "string \<Rightarrow> json option" where
  "json_parse s =
     (case parse_value (Suc (length s)) s of
        Some (v, r) \<Rightarrow> if skip_ws r = [] then Some v else None
      | None \<Rightarrow> None)"


subsection \<open>Well-formed values and the reader's fuel\<close>

text \<open>A value built by JavaScript has distinct keys in every object.\<close>

fun json_wf :: "json \<Rightarrow> bool"
  and elems_wf :: "json list \<Rightarrow> bool"
  and members_wf :: "(string \<times> json) list \<Rightarrow> bool" where
  "json_wf JNull = True"
| "json_wf (JBool b) = True"
| "json_wf (JNum n) = True"
| "json_wf (JStr s) = True"
| "json_wf (JArr xs) = elems_wf xs"
| "json_wf (JObj kvs) = (distinct (map fst kvs) \<and> members_wf kvs)"
| "elems_wf [] = True"
| "elems_wf (x # xs) = (json_wf x \<and> elems_wf xs)"
| "members_wf [] = True"
| "members_wf ((k, v) # kvs) = (json_wf v \<and> members_wf kvs)"

text \<open>The fuel \<open>parse_value\<close> needs to read the text of a value.\<close>

fun json_fuel :: "json \<Rightarrow> nat"
  and elems_fuel :: "json list \<Rightarrow> nat"
  and members_fuel :: "(string \<times> json) list \<Rightarrow> nat" where
  "json_fuel (JArr xs) = Suc (elems_fuel xs)"
| "json_fuel (JObj kvs) = Suc (members_fuel kvs)"
| "json_fuel _ = 1"
| "elems_fuel [] = 0"
| "elems_fuel (x # xs) = Suc (max (json_fuel x) (elems_fuel xs))"
| "members_fuel [] = 0"
| "members_fuel ((k, v) # kvs) = Suc (max (json_fuel v) (members_fuel kvs))"

text \<open>Auxiliary predicates of the round-trip proof: what may follow a value or a number
  token, the value of a digit string, the characters that open a value.\<close>

definition value_end :: "string \<Rightarrow> bool" where
  "value_end rest \<longleftrightarrow>
     (case rest of [] \<Rightarrow> True | c # _ \<Rightarrow> c = CHR '','' \<or> c = CHR '']'' \<or> c = CHR ''}'')"

definition no_digit_next :: "string \<Rightarrow> bool" where
  "no_digit_next rest \<longleftrightarrow> (case rest of [] \<Rightarrow> True | c # _ \<Rightarrow> \<not> is_digit c)"

definition digits_value :: "nat \<Rightarrow> string \<Rightarrow> nat" where
  "digits_value acc ds = foldl (\<lambda>a c. 10 * a + (of_char c - 48)) acc ds"

definition opens_value :: "char \<Rightarrow> bool" where
  "opens_value c \<longleftrightarrow> c = CHR ''n'' \<or> c = CHR ''t'' \<or> c = CHR ''f'' \<or> c = dquote \<or> c = CHR ''-'' \<or>
     is_digit c \<or> c = CHR ''['' \<or> c = CHR ''{''"

subsection \<open>Basic facts\<close>

lemma js_nullish_simps [simp]:
  "js_nullish None" "js_nullish (Some v) \<longleftrightarrow> v = JNull"
  by (auto simp: js_nullish_def)

lemma js_truthy_opt_simps [simp]:
  "\<not> js_truthy_opt None" "js_truthy_opt (Some v) = js_truthy v"
  by (simp_all add: js_truthy_opt_def)

lemma js_get_opt_Some [simp]: "js_get_opt (Some v) k = js_get v k"
  by (simp add: js_get_opt_def)

lemma js_get_Some_not_null [simp]: "js_get v k = Some x \<Longrightarrow> v \<noteq> JNull"
  by auto

lemma js_get_truthy_not_null [simp]: "js_truthy_opt (js_get v k) \<Longrightarrow> v \<noteq> JNull"
  by auto

lemmas json_chars = dquote_def bslash_def

subsection \<open>Round trip: numbers and strings\<close>


lemma of_char_digit_char: "n < 10 \<Longrightarrow> (of_char (digit_char n) :: nat) = 48 + n"
  by (simp add: digit_char_def)

lemma is_digit_digit_char [simp]: "n < 10 \<Longrightarrow> is_digit (digit_char n)"
  by (simp add: is_digit_def of_char_digit_char)

lemma nat_digits_all_digits: "\<forall>c \<in> set (nat_digits n). is_digit c"
proof (induction n rule: nat_digits.induct)
  case (1 n)
  then show ?case by (subst nat_digits.simps) auto
qed

lemma nat_digits_ne [simp]: "nat_digits n \<noteq> []"
  by (subst nat_digits.simps) simp

lemma parse_digits_append:
  assumes "\<forall>c \<in> set ds. is_digit c" and "case rest of [] \<Rightarrow> True | c # _ \<Rightarrow> \<not> is_digit c"
  shows "parse_digits acc (ds @ rest) = (digits_value acc ds, rest)"
  using assms
proof (induction ds arbitrary: acc)
  case Nil
  then show ?case by (cases rest) (auto simp: digits_value_def)
next
  case (Cons c ds)
  then show ?case by (simp add: digits_value_def)
qed

lemma digits_value_nat_digits: "digits_value acc (nat_digits n) = acc * 10 ^ length (nat_digits n) + n"
proof (induction n arbitrary: acc rule: nat_digits.induct)
  case (1 n)
  show ?case
  proof (cases "n < 10")
    case True
    then have "nat_digits n = [digit_char n]"
      by (subst nat_digits.simps) simp
    with True show ?thesis by (simp add: digits_value_def of_char_digit_char)
  next
    case False
    then have eq: "nat_digits n = nat_digits (n div 10) @ [digit_char (n mod 10)]"
      by (subst nat_digits.simps) simp
    from False "1.IH" show ?thesis unfolding eq
      by (simp add: digits_value_def of_char_digit_char algebra_simps)
  qed
qed


lemma nat_digits_head:
  "\<exists>m ds. nat_digits n = digit_char m # ds \<and> m < 10 \<and> (0 < n \<longrightarrow> 0 < m)"
proof (induction n rule: nat_digits.induct)
  case (1 n)
  show ?case
  proof (cases "n < 10")
    case True
    then show ?thesis by (subst nat_digits.simps) auto
  next
    case False
    from "1.IH" [OF False] obtain m ds
      where "nat_digits (n div 10) = digit_char m # ds" "m < 10" "0 < n div 10 \<longrightarrow> 0 < m"
      by auto
    with False show ?thesis by (subst nat_digits.simps) auto
  qed
qed

lemma digit_char_eq_0: "m < 10 \<Longrightarrow> digit_char m = CHR ''0'' \<longleftrightarrow> m = 0"
  by (simp add: digit_char_def char_of_eq_iff take_bit_eq_mod)

lemma parse_nat_token_nat_digits:
  assumes "no_digit_next rest"
  shows "parse_nat_token (nat_digits n @ rest) = Some (n, rest)"
proof -
  obtain m ds where eq: "nat_digits n = digit_char m # ds" and m: "m < 10" "0 < n \<longrightarrow> 0 < m"
    using nat_digits_head by blast
  have ds: "\<forall>c \<in> set ds. is_digit c"
    using nat_digits_all_digits [of n] eq by simp
  show ?thesis
  proof (cases "n = 0")
    case True
    then have "nat_digits n = [digit_char 0]" by (subst nat_digits.simps) simp
    with True assms show ?thesis
      by (auto simp: no_digit_next_def digit_char_def char_of_eq_iff is_digit_def split: list.splits)
  next
    case False
    with m have "digit_char m \<noteq> CHR ''0''" by (simp add: digit_char_eq_0)
    moreover have "digits_value (of_char (digit_char m) - 48) ds = n"
      using digits_value_nat_digits [of 0 n] eq m by (simp add: digits_value_def)
    ultimately show ?thesis
      using assms ds eq m parse_digits_append [of ds rest]
      by (simp add: no_digit_next_def)
  qed
qed

lemma parse_number_int_to_string:
  assumes "no_digit_next rest" and "number_end rest"
  shows "parse_number (int_to_string i @ rest) = Some (JNum i, rest)"
proof (cases "i < 0")
  case True
  then show ?thesis
    using assms parse_nat_token_nat_digits [of rest "nat (- i)"]
    by (simp add: parse_number_def int_to_string_def)
next
  case False
  obtain m ds where eq: "nat_digits (nat i) = digit_char m # ds" "m < 10"
    using nat_digits_head by blast
  then have "digit_char m \<noteq> CHR ''-''"
    by (simp add: digit_char_def char_of_eq_iff take_bit_eq_mod)
  with False eq show ?thesis
    using assms parse_nat_token_nat_digits [of rest "nat i"]
    by (simp add: parse_number_def int_to_string_def)
qed


lemma prepend_simps [simp]:
  "prepend xs None = None" "prepend xs (Some (ys, r)) = Some (xs @ ys, r)"
  by (simp_all add: prepend_def)

lemma parse_escape_other:
  assumes "u \<noteq> CHR ''u''"
  shows "parse_escape (u # cs) =
           (case unescape u of None \<Rightarrow> None | Some x \<Rightarrow> prepend [x] (parse_string_body cs))"
proof -
  consider "cs = []" | a where "cs = [a]" | a b where "cs = [a, b]" | a b c where "cs = [a, b, c]"
    | a b c d cs' where "cs = a # b # c # d # cs'"
    by (metis list.exhaust)
  then show ?thesis using assms by cases auto
qed

lemma hex_val_hex_digit [simp]: "n < 16 \<Longrightarrow> hex_val (hex_digit n) = Some n"
  by (simp add: hex_val_def hex_digit_def Let_def)

lemma parse_string_body_escape_char:
  "parse_string_body (escape_char c @ s) = prepend [c] (parse_string_body s)"
proof -
  have u: "hex4 (CHR ''0'') (CHR ''0'') (hex_digit (of_char c div 16)) (hex_digit (of_char c mod 16)) =
      Some (of_char c)" if "of_char c < (32::nat)"
  proof -
    from that have "of_char c div 16 < (16::nat)" by linarith
    moreover have "hex_val (CHR ''0'') = Some 0" by (simp add: hex_val_def)
    ultimately show ?thesis by (simp add: hex4_def)
  qed
  have enc: "of_char c < (32::nat) \<Longrightarrow> utf8_encode (of_char c) = [c]"
    by (simp add: utf8_encode_def)
  show ?thesis
    unfolding escape_char_def
    by (simp add: dquote_def bslash_def parse_escape_other unescape_def u enc)
qed

lemma parse_string_body_quote:
  "parse_string_body (concat (map escape_char s) @ dquote # rest) = Some (s, rest)"
  by (induction s) (simp_all add: parse_string_body_escape_char)


subsection \<open>Round trip: values\<close>


lemma value_end_simps [simp]:
  "value_end []" "value_end (CHR '','' # r)" "value_end (CHR '']'' # r)" "value_end (CHR ''}'' # r)"
  by (simp_all add: value_end_def)

lemma value_end_no_digit: "value_end rest \<Longrightarrow> no_digit_next rest \<and> number_end rest"
  by (auto simp: value_end_def no_digit_next_def number_end_def is_digit_def split: list.splits)

lemma build_object_distinct:
  "distinct (map fst (acc @ kvs)) \<Longrightarrow> foldl (\<lambda>acc (k, v). upd_member k v acc) acc kvs = acc @ kvs"
proof (induction kvs arbitrary: acc)
  case (Cons kv kvs)
  obtain k v where kv: "kv = (k, v)" by fastforce
  have "k \<notin> set (map fst acc)" using Cons.prems kv by auto
  then have "upd_member k v acc = acc @ [(k, v)]"
    by (induction acc) auto
  with Cons kv show ?case by simp
qed simp

lemma build_object_id: "distinct (map fst kvs) \<Longrightarrow> build_object kvs = kvs"
  using build_object_distinct [of "[]" kvs] by (simp add: build_object_def)

lemma json_stringify_opens: "\<exists>c cs. json_stringify v = c # cs \<and> opens_value c"
proof (cases v)
  case (JNum n)
  obtain m ds where "nat_digits (nat \<bar>n\<bar>) = digit_char m # ds" "m < 10"
    using nat_digits_head by blast
  with JNum show ?thesis
    by (auto simp: opens_value_def int_to_string_def)
qed (auto simp: opens_value_def json_quote_def)

lemma opens_value_not [simp]:
  "opens_value c \<Longrightarrow> \<not> is_ws c \<and> c \<noteq> CHR '']'' \<and> c \<noteq> CHR ''}''"
  by (auto simp: opens_value_def is_ws_def is_digit_def dquote_def)

lemma skip_ws_stringify [simp]: "skip_ws (json_stringify v @ rest) = json_stringify v @ rest"
  using json_stringify_opens [of v] by auto

lemma json_stringify_nonempty [simp]: "json_stringify v \<noteq> []"
  using json_stringify_opens [of v] by auto

lemma stringify_elems_Cons:
  "xs \<noteq> [] \<Longrightarrow> stringify_elems (x # xs) = json_stringify x @ CHR '','' # stringify_elems xs"
  by (cases xs) auto

lemma stringify_members_Cons:
  "kvs \<noteq> [] \<Longrightarrow> stringify_members ((k, v) # kvs) =
     json_quote k @ CHR '':'' # json_stringify v @ CHR '','' # stringify_members kvs"
  by (cases kvs) auto

lemma stringify_elems_opens:
  assumes "xs \<noteq> []" shows "\<exists>c cs. stringify_elems xs = c # cs \<and> opens_value c"
proof -
  obtain x xs' where xs: "xs = x # xs'" using assms by (cases xs) auto
  obtain c cs where "json_stringify x = c # cs" "opens_value c"
    using json_stringify_opens by blast
  with xs show ?thesis by (cases xs') auto
qed

lemma int_to_string_first: "\<exists>c cs. int_to_string n = c # cs \<and> (c = CHR ''-'' \<or> is_digit c)"
proof -
  obtain m ds where "nat_digits (nat \<bar>n\<bar>) = digit_char m # ds" "m < 10"
    using nat_digits_head by blast
  then show ?thesis by (auto simp: int_to_string_def)
qed

lemma is_ws_literals [simp]:
  "\<not> is_ws CHR ''['' " "\<not> is_ws CHR '']''" "\<not> is_ws CHR ''{''" "\<not> is_ws CHR ''}''"
  "\<not> is_ws CHR '',''" "\<not> is_ws CHR '':''" "\<not> is_ws dquote"
  "\<not> is_ws (CHR 0x22)"
  "\<not> is_ws CHR ''n''" "\<not> is_ws CHR ''t''" "\<not> is_ws CHR ''f''"
  by (simp_all add: is_ws_def dquote_def)

lemma parse_quote: "parse_string_body (concat (map escape_char k) @ CHR 0x22 # rest) = Some (k, rest)"
  using parse_string_body_quote by (simp add: dquote_def)

lemma parse_stringify:
  "json_wf v \<Longrightarrow> value_end rest \<Longrightarrow> json_fuel v \<le> f \<Longrightarrow>
     parse_value f (json_stringify v @ rest) = Some (v, rest)"
  "elems_wf xs \<Longrightarrow> xs \<noteq> [] \<Longrightarrow> elems_fuel xs \<le> f \<Longrightarrow>
     parse_elems f (stringify_elems xs @ CHR '']'' # rest) = Some (xs, rest)"
  "members_wf kvs \<Longrightarrow> kvs \<noteq> [] \<Longrightarrow> members_fuel kvs \<le> f \<Longrightarrow>
     parse_members f (stringify_members kvs @ CHR ''}'' # rest) = Some (kvs, rest)"
proof (induction v and xs and kvs arbitrary: f rest and f rest and f rest
       rule: json_wf_elems_wf_members_wf.induct)
  case (5 xs)
  then obtain f' where f: "f = Suc f'" by (cases f) auto
  show ?case
  proof (cases "xs = []")
    case True
    with f show ?thesis by (simp add: json_chars)
  next
    case False
    then obtain c cs where "stringify_elems xs = c # cs" "opens_value c"
      using stringify_elems_opens by blast
    with "5" f False show ?thesis by (simp add: json_chars)
  qed
next
  case (6 kvs)
  then obtain f' where f: "f = Suc f'" by (cases f) auto
  show ?case
  proof (cases "kvs = []")
    case True
    with f show ?thesis by (simp add: json_chars)
  next
    case False
    then obtain k v kvs' where "kvs = (k, v) # kvs'" by (metis list.exhaust prod.exhaust)
    with "6" f False show ?thesis
      by (cases kvs') (simp_all add: json_quote_def json_chars build_object_id)
  qed
next
  case 1
  then obtain f' where "f = Suc f'" by (cases f) auto
  then show ?case by (simp add: json_chars)
next
  case (2 b)
  then obtain f' where "f = Suc f'" by (cases f) auto
  then show ?case by (simp add: json_chars)
next
  case (3 n)
  note num = this
  then obtain f' where f: "f = Suc f'" by (cases f) auto
  obtain c cs where cs: "int_to_string n = c # cs" "c = CHR ''-'' \<or> is_digit c"
    using int_to_string_first by blast
  then have c: "c \<noteq> CHR ''n'' \<and> c \<noteq> CHR ''t'' \<and> c \<noteq> CHR ''f'' \<and> c \<noteq> dquote \<and>
      c \<noteq> CHR ''['' \<and> c \<noteq> CHR ''{'' \<and> \<not> is_ws c"
    by (auto simp: is_digit_def is_ws_def dquote_def)
  have "parse_value f (json_stringify (JNum n) @ rest) = parse_number (int_to_string n @ rest)"
    using f cs c by simp
  also have "\<dots> = Some (JNum n, rest)"
    using num value_end_no_digit by (simp add: parse_number_int_to_string)
  finally show ?case .
next
  case (4 s)
  then obtain f' where "f = Suc f'" by (cases f) auto
  then show ?case by (simp add: json_quote_def json_chars parse_quote)
next
  case 7
  then show ?case by simp
next
  case (8 x xs)
  then obtain f' where f: "f = Suc f'" by (cases f) auto
  show ?case
  proof (cases "xs = []")
    case True
    with "8" f show ?thesis by (simp add: json_chars)
  next
    case False
    with "8" f show ?thesis by (simp add: stringify_elems_Cons json_chars)
  qed
next
  case 9
  then show ?case by simp
next
  case (10 k v kvs)
  then obtain f' where f: "f = Suc f'" by (cases f) auto
  show ?case
  proof (cases "kvs = []")
    case True
    with "10" f show ?thesis by (simp add: json_quote_def json_chars parse_quote)
  next
    case False
    with "10" f show ?thesis
      by (simp add: stringify_members_Cons json_quote_def json_chars parse_quote)
  qed
qed


lemma json_fuel_bound:
  "json_fuel v \<le> length (json_stringify v)"
  "elems_fuel xs \<le> Suc (length (stringify_elems xs))"
  "members_fuel kvs \<le> Suc (length (stringify_members kvs))"
proof (induction v and xs and kvs rule: json_wf_elems_wf_members_wf.induct)
  case (3 n)
  note num = this
  then show ?case using int_to_string_first [of n] by auto
next
  case (8 x xs)
  then show ?case by (cases "xs = []") (auto simp: stringify_elems_Cons)
next
  case (10 k v kvs)
  then show ?case by (cases "kvs = []") (auto simp: stringify_members_Cons json_quote_def)
qed (auto simp: json_quote_def)

text \<open>
  \<open>JSON.parse\<close> reads back what \<open>JSON.stringify\<close> wrote, for every value whose
  objects have distinct keys; the fuel \<open>json_parse\<close> gives is enough. This is what makes
  the Redis cache of addresses lossless.
\<close>

theorem json_parse_stringify: "json_wf v \<Longrightarrow> json_parse (json_stringify v) = Some v"
  using parse_stringify(1) [of v "[]" "Suc (length (json_stringify v))"] json_fuel_bound(1) [of v]
  by (simp add: json_parse_def)

theorem json_parse_stringify_witness:
  "json_wf (JObj [(''cep'', JStr ''01001000''), (''uf'', JStr ''SP''), (''n'', JNum (-12))]) \<and>
   json_parse (json_stringify (JObj [(''cep'', JStr ''01001000''), (''uf'', JStr ''SP''), (''n'', JNum (-12))])) =
     Some (JObj [(''cep'', JStr ''01001000''), (''uf'', JStr ''SP''), (''n'', JNum (-12))])"
  using json_parse_stringify [of "JObj [(''cep'', JStr ''01001000''), (''uf'', JStr ''SP''), (''n'', JNum (-12))]"]
  by simp

end
