(* ===== verification/Effects.thy ===== *)
theory Effects
  imports Json
begin

text \<open>
  The interface between \<open>ClientService\<close> and everything it calls. Each external call
  the service awaits is a constructor of \<open>request\<close>; the response is the value the
  promise resolves to (\<open>Inr\<close>) or the error it rejects with (\<open>Inl\<close>). The service
  theories are stated over arbitrary responses (any repository, any cache, any network);
  \<open>World\<close> gives one concrete implementation of every request. The requests also cover
  the start-up calls (\<open>mongoose.connect\<close>, \<open>redisClient.connect\<close>, \<open>console.log\<close>,
  \<open>process.exit\<close>) and the \<open>findByCep\<close> methods no caller uses.
\<close>

text \<open>A thrown JavaScript error: its class name and its message.\<close>

datatype exn = Error (exn_name: string) (exn_message: string)

datatype request =
    RedisGet json                        \<comment> \<open>\<open>redisClient.get(key)\<close>\<close>
  | RedisSet json string nat             \<comment> \<open>\<open>redisClient.set(key, value, {EX: seconds})\<close>\<close>
  | AxiosGet string                      \<comment> \<open>\<open>axios.get(url)\<close>\<close>
  | ConsoleError string exn              \<comment> \<open>\<open>console.error(text, error)\<close>\<close>
  | UuidV4                               \<comment> \<open>\<open>uuidv4()\<close>\<close>
  | FindByEmailOrPhone json json         \<comment> \<open>\<open>clientRepository.findByEmailOrPhone\<close>\<close>
  | ClientSave json                      \<comment> \<open>\<open>clientRepository.save\<close>\<close>
  | ClientFindAll int int                \<comment> \<open>\<open>clientRepository.findAll(page, limit)\<close>\<close>
  | ClientFindById json                  \<comment> \<open>\<open>clientRepository.findById\<close>\<close>
  | ClientDeleteById json                \<comment> \<open>\<open>clientRepository.deleteById\<close>\<close>
  | ClientFindByName "json option" int int \<comment> \<open>\<open>clientRepository.findByName\<close>\<close>
  | AddressSave json                     \<comment> \<open>\<open>addressRepository.save\<close>\<close>
  | ClientFindByCep string               \<comment> \<open>\<open>clientRepository.findByCep\<close>\<close>
  | AddressFindByCep json                \<comment> \<open>\<open>addressRepository.findByCep\<close>\<close>
  | MongoConnect string                  \<comment> \<open>\<open>mongoose.connect(url)\<close>\<close>
  | RedisConnect                         \<comment> \<open>\<open>redisClient.connect()\<close>\<close>
  | ConsoleLog string                    \<comment> \<open>\<open>console.log(text)\<close>\<close>
  | ProcessExit nat                      \<comment> \<open>\<open>process.exit(code)\<close>\<close>

type_synonym response = "exn + json"

type_synonym 'a js = "(request, response, exn, 'a) prog"

text \<open>
  The three messages \<open>registerClient\<close> throws, byte for byte (UTF-8), since the controller
  dispatches on \<open>error.message\<close>.
\<close>

definition msg_invalid_data :: string where
  "msg_invalid_data = ''Dados do cliente inv'' @ [CHR 0xC3, CHR 0xA1] @ ''lidos''"

definition msg_duplicate :: string where
  "msg_duplicate = ''Cliente com o mesmo email ou telefone j'' @ [CHR 0xC3, CHR 0xA1] @ '' existe''"

definition msg_cep_not_found :: string where
  "msg_cep_not_found = ''CEP n'' @ [CHR 0xC3, CHR 0xA3] @ ''o encontrado''"

definition err_invalid_data :: exn where
  "err_invalid_data = Error ''Error'' msg_invalid_data"

definition err_duplicate :: exn where
  "err_duplicate = Error ''Error'' msg_duplicate"

definition err_cep_not_found :: exn where
  "err_cep_not_found = Error ''Error'' msg_cep_not_found"

text \<open>Reading a property of \<open>undefined\<close> or \<open>null\<close> throws a \<open>TypeError\<close>.\<close>

definition read_error :: "json option \<Rightarrow> string \<Rightarrow> exn" where
  "read_error v k =
     Error ''TypeError''
       (''Cannot read properties of '' @ (if v = None then ''undefined'' else ''null'')
        @ '' (reading '' @ k @ '')'')"

definition json_syntax_error :: exn where
  "json_syntax_error = Error ''SyntaxError'' ''Unexpected token in JSON''"

text \<open>The \<open>Address\<close> interface of src/domain/entities/Client.ts: an object with exactly
  these five properties, in this order.\<close>

definition address_keys :: "string list" where
  "address_keys = [''cep'', ''street'', ''neighborhood'', ''city'', ''state'']"

definition is_address :: "json \<Rightarrow> bool" where
  "is_address a \<longleftrightarrow> (case a of JObj kvs \<Rightarrow> map fst kvs = address_keys | _ \<Rightarrow> False)"

text \<open>The \<open>Client\<close> interface of the same file: an object with an optional string
  \<open>id\<close>, string \<open>name\<close>, \<open>email\<close>, \<open>phone\<close> and \<open>cep\<close>, and an optional
  \<open>Address\<close>.\<close>

definition is_str_prop :: "json \<Rightarrow> string \<Rightarrow> bool" where
  "is_str_prop v k \<longleftrightarrow> (case js_get v k of Some (JStr _) \<Rightarrow> True | _ \<Rightarrow> False)"

definition is_client :: "json \<Rightarrow> bool" where
  "is_client v \<longleftrightarrow>
     (case v of
        JObj _ \<Rightarrow> (js_get v ''id'' = None \<or> is_str_prop v ''id'') \<and>
                  list_all (is_str_prop v) [''name'', ''email'', ''phone'', ''cep''] \<and>
                  (case js_get v ''address'' of None \<Rightarrow> True | Some a \<Rightarrow> is_address a)
      | _ \<Rightarrow> False)"

lemma service_errors_distinct [simp]:
  "err_invalid_data \<noteq> err_duplicate" "err_invalid_data \<noteq> err_cep_not_found"
  "err_duplicate \<noteq> err_cep_not_found"
  "err_duplicate \<noteq> err_invalid_data" "err_cep_not_found \<noteq> err_invalid_data"
  "err_cep_not_found \<noteq> err_duplicate"
  by (simp_all add: err_invalid_data_def err_duplicate_def err_cep_not_found_def
      msg_invalid_data_def msg_duplicate_def msg_cep_not_found_def)

end
