(* ===== verification/Address_Resolver.thy ===== *)
theory Address_Resolver
  imports Effects
begin

text \<open>
  The private address methods of \<open>ClientService\<close> (src/application/services/ClientService.ts):
  the two provider adapters \<open>fetchAddressFromViaCEP\<close> and \<open>fetchAddressFromApiCEP\<close>,
  the fallback loop \<open>fetchAddress\<close> over the list \<open>services\<close>, and the cache client
  \<open>getCachedAddress\<close> / \<open>cacheAddress\<close>. The lemmas give each adapter's behaviour on each
  kind of response, the first-success-wins and fallback behaviour of the loop, and the
  cache client's behaviour on a hit, a miss and an unreadable entry.
\<close>

subsection \<open>Provider adapters\<close>

definition viacep_url :: "json \<Rightarrow> string" where
  "viacep_url cep = ''https://viacep.com.br/ws/'' @ js_to_string cep @ ''/json/''"

definition apicep_url :: "json \<Rightarrow> string" where
  "apicep_url cep = ''https://cdn.apicep.com/file/apicep/'' @ js_to_string cep @ ''.json''"

text \<open>The object literal each adapter returns, every missing or falsy field replaced by \<open>''''\<close>.\<close>

definition viacep_address :: "json \<Rightarrow> json option \<Rightarrow> json" where
  "viacep_address cep data =
     JObj [(''cep'', cep),
           (''street'', js_or (js_get_opt data ''logradouro'') (JStr '''')),
           (''neighborhood'', js_or (js_get_opt data ''bairro'') (JStr '''')),
           (''city'', js_or (js_get_opt data ''localidade'') (JStr '''')),
           (''state'', js_or (js_get_opt data ''uf'') (JStr ''''))]"

definition apicep_address :: "json \<Rightarrow> json option \<Rightarrow> json" where
  "apicep_address cep data =
     JObj [(''cep'', cep),
           (''street'', js_or (js_get_opt data ''address'') (JStr '''')),
           (''neighborhood'', js_or (js_get_opt data ''district'') (JStr '''')),
           (''city'', js_or (js_get_opt data ''city'') (JStr '''')),
           (''state'', js_or (js_get_opt data ''state'') (JStr ''''))]"

definition fetchAddressFromViaCEP :: "json \<Rightarrow> json js" where
  "fetchAddressFromViaCEP cep =
     pbind (await (AxiosGet (viacep_url cep))) (\<lambda>response.
       if js_nullish (Some response) then Throw (read_error (Some response) ''data'')
       else
         let data = js_get response ''data'' in
         if js_nullish data then Throw (read_error data ''erro'')
         else if js_truthy_opt (js_get_opt data ''erro'') then Return JNull
         else Return (viacep_address cep data))"

definition fetchAddressFromApiCEP :: "json \<Rightarrow> json js" where
  "fetchAddressFromApiCEP cep =
     pbind (await (AxiosGet (apicep_url cep))) (\<lambda>response.
       if js_nullish (Some response) then Throw (read_error (Some response) ''data'')
       else
         let data = js_get response ''data'' in
         if js_nullish data then Throw (read_error data ''status'')
         else if \<not> js_strict_eq (js_get_opt data ''status'') (Some (JNum 200)) then Return JNull
         else Return (apicep_address cep data))"

subsection \<open>The fallback loop\<close>

text \<open>\<open>services\<close> holds the adapters in order; \<open>service.name\<close> is the method name.\<close>

definition services :: "(string \<times> (json \<Rightarrow> json js)) list" where
  "services = [(''fetchAddressFromViaCEP'', fetchAddressFromViaCEP),
               (''fetchAddressFromApiCEP'', fetchAddressFromApiCEP)]"

definition fetch_error_text :: "string \<Rightarrow> string" where
  "fetch_error_text name = ''Error fetching address from '' @ name @ '':''"

text \<open>
  One iteration: \<open>try { const address = await service(cep); if (address) return address; }
  catch (error) { console.error(...) }\<close>. \<open>console.error\<close> returns nothing and cannot fail,
  so its response is ignored.
\<close>

fun try_services :: "(string \<times> (json \<Rightarrow> json js)) list \<Rightarrow> json \<Rightarrow> json js" where
  "try_services [] cep = Return JNull"
| "try_services ((name, service) # rest) cep =
     pbind (pcatch (pbind (service cep) (\<lambda>address. Return (Some address)))
                   (\<lambda>error. Call (ConsoleError (fetch_error_text name) error) (\<lambda>_. Return None)))
       (\<lambda>r. case r of
              Some address \<Rightarrow> if js_truthy address then Return address else try_services rest cep
            | None \<Rightarrow> try_services rest cep)"

definition fetchAddress :: "json \<Rightarrow> json js" where
  "fetchAddress cep = try_services services cep"

subsection \<open>The cache client\<close>

text \<open>\<open>cachedAddress ? JSON.parse(cachedAddress) : null\<close>; a text that does not parse
  makes \<open>JSON.parse\<close> throw.\<close>

definition getCachedAddress :: "json \<Rightarrow> json js" where
  "getCachedAddress cep =
     pbind (await (RedisGet cep)) (\<lambda>cachedAddress.
       if js_truthy cachedAddress then
         (case json_parse (js_to_string cachedAddress) of
            Some v \<Rightarrow> Return v
          | None \<Rightarrow> Throw json_syntax_error)
       else Return JNull)"

definition cache_ttl :: nat where
  "cache_ttl = 60 * 60 * 24"

definition cacheAddress :: "json \<Rightarrow> json \<Rightarrow> unit js" where
  "cacheAddress cep address =
     pbind (await (RedisSet cep (json_stringify address) cache_ttl)) (\<lambda>_. Return ())"

lemmas resolver_unfold = Let_def fetchAddress_def services_def
  fetchAddressFromViaCEP_def fetchAddressFromApiCEP_def

lemma address_truthy [simp]:
  "js_truthy (viacep_address cep data)" "js_truthy (apicep_address cep data)"
  by (simp_all add: viacep_address_def apicep_address_def)

subsection \<open>Which requests the resolver and the cache client can make\<close>

lemma may_call_try_services:
  assumes "\<forall>(name, service) \<in> set ss. \<forall>q. may_call (service cep) q \<longrightarrow> (\<exists>u. q = AxiosGet u)"
    and "may_call (try_services ss cep) q"
  shows "(\<exists>u. q = AxiosGet u) \<or> (\<exists>t e. q = ConsoleError t e)"
  using assms
proof (induction ss cep rule: try_services.induct)
  case (2 name service rest cep)
  then show ?case by (auto split: option.splits if_splits)
qed simp

lemma may_call_fetchAddress:
  assumes "may_call (fetchAddress cep) q"
  shows "(\<exists>u. q = AxiosGet u) \<or> (\<exists>t e. q = ConsoleError t e)"
proof -
  have "\<forall>(name, service) \<in> set services. \<forall>q. may_call (service cep) q \<longrightarrow> (\<exists>u. q = AxiosGet u)"
    by (auto simp: services_def fetchAddressFromViaCEP_def fetchAddressFromApiCEP_def Let_def
        split: if_splits)
  from this assms show ?thesis
    unfolding fetchAddress_def by (rule may_call_try_services)
qed

lemma may_call_getCachedAddress [simp]:
  "may_call (getCachedAddress cep) q \<longleftrightarrow> q = RedisGet cep"
  by (auto simp: getCachedAddress_def split: option.splits)

lemma may_call_cacheAddress [simp]:
  "may_call (cacheAddress cep a) q \<longleftrightarrow> q = RedisSet cep (json_stringify a) cache_ttl"
  by (simp add: cacheAddress_def)

subsection \<open>Bounds on the calls the resolver and the cache client make\<close>

lemma bounded_adapters: "bounded (fetchAddressFromViaCEP cep) 1" "bounded (fetchAddressFromApiCEP cep) 1"
  unfolding fetchAddressFromViaCEP_def fetchAddressFromApiCEP_def
  by (rule bounded_pbind [where b = 0, simplified]; auto simp: Let_def intro: bounded.intros)+

lemma bounded_try_services:
  assumes "\<forall>(name, service) \<in> set ss. bounded (service cep) 1"
  shows "bounded (try_services ss cep) (2 * length ss)"
  using assms
proof (induction ss cep rule: try_services.induct)
  case (2 name service rest cep)
  then have s: "bounded (service cep) (Suc 0)" by auto
  have "bounded (try_services ((name, service) # rest) cep) ((Suc 0 + 0 + Suc 0) + 2 * length rest)"
    unfolding try_services.simps
    by (intro bounded_pbind bounded_pcatch s)
       (use 2 in \<open>auto intro: bounded.intros split: option.splits\<close>)
  then show ?case by simp
qed (simp add: bounded.intros)

lemma bounded_fetchAddress: "bounded (fetchAddress cep) 4"
  using bounded_try_services [of services cep] bounded_adapters
  by (simp add: fetchAddress_def services_def)

lemma bounded_cache_client: "bounded (getCachedAddress cep) 1" "bounded (cacheAddress cep a) 1"
  unfolding getCachedAddress_def cacheAddress_def
  by (rule bounded_pbind [where b = 0, simplified]; auto intro: bounded.intros split: option.splits)+

subsection \<open>What the resolver can return\<close>

lemma may_return_try_services:
  "may_return (try_services ss cep) a \<Longrightarrow> a = JNull \<or> (\<exists>(n, s) \<in> set ss. may_return (s cep) a)"
  by (induction ss cep rule: try_services.induct)
     (auto split: option.splits if_splits)

lemma may_return_adapters:
  "may_return (fetchAddressFromViaCEP cep) a \<Longrightarrow> a = JNull \<or> (\<exists>d. a = viacep_address cep d)"
  "may_return (fetchAddressFromApiCEP cep) a \<Longrightarrow> a = JNull \<or> (\<exists>d. a = apicep_address cep d)"
  by (auto simp: fetchAddressFromViaCEP_def fetchAddressFromApiCEP_def Let_def split: if_splits)

lemma address_literals_shape:
  "is_address (viacep_address cep d) \<and> js_get (viacep_address cep d) ''cep'' = Some cep"
  "is_address (apicep_address cep d) \<and> js_get (apicep_address cep d) ''cep'' = Some cep"
  by (simp_all add: is_address_def address_keys_def viacep_address_def apicep_address_def)

subsection \<open>Fallback behaviour of \<open>fetchAddress\<close>\<close>

text \<open>
  C5. First success wins: when ViaCEP answers with a payload that has no \<open>erro\<close> flag,
  \<open>fetchAddress\<close> returns ViaCEP's normalised address after that single HTTP call;
  ApiCEP is never called.
\<close>

theorem fetchAddress_first_success:
  assumes "js_get response ''data'' = Some data" "data \<noteq> JNull"
      "\<not> js_truthy_opt (js_get data ''erro'')"
  shows "replay (fetchAddress cep) (Inr response # rs) =
         ([AxiosGet (viacep_url cep)], Some (Inr (viacep_address cep (Some data))))"
  using assms by (simp add: resolver_unfold prog_simps viacep_address_def)

theorem fetchAddress_first_success_witness:
  "replay (fetchAddress (JStr ''01001000''))
     [Inr (JObj [(''data'', JObj [(''uf'', JStr ''SP'')])])] =
   ([AxiosGet (viacep_url (JStr ''01001000''))],
    Some (Inr (viacep_address (JStr ''01001000'') (Some (JObj [(''uf'', JStr ''SP'')])))))"
  by (rule fetchAddress_first_success) simp+

text \<open>
  C6. Fallback after an error: when the ViaCEP call rejects (network failure or an HTTP
  error status), the error is logged with the adapter's name, ApiCEP is called next, and an
  ApiCEP payload with status 200 gives ApiCEP's normalised address.
\<close>

theorem fetchAddress_fallback_after_error:
  assumes "js_get response ''data'' = Some data" "data \<noteq> JNull"
      "js_get data ''status'' = Some (JNum 200)"
  shows "replay (fetchAddress cep) (Inl e # ack # Inr response # rs) =
         ([AxiosGet (viacep_url cep), ConsoleError (fetch_error_text ''fetchAddressFromViaCEP'') e,
           AxiosGet (apicep_url cep)], Some (Inr (apicep_address cep (Some data))))"
  using assms by (simp add: resolver_unfold prog_simps apicep_address_def)

theorem fetchAddress_fallback_after_error_witness:
  "replay (fetchAddress (JStr ''01001000''))
     [Inl (Error ''AxiosError'' ''Request failed with status code 500''), Inr JNull,
      Inr (JObj [(''data'', JObj [(''status'', JNum 200), (''city'', JStr ''Recife'')])])] =
   ([AxiosGet (viacep_url (JStr ''01001000'')),
     ConsoleError (fetch_error_text ''fetchAddressFromViaCEP'')
       (Error ''AxiosError'' ''Request failed with status code 500''),
     AxiosGet (apicep_url (JStr ''01001000''))],
    Some (Inr (apicep_address (JStr ''01001000'')
                 (Some (JObj [(''status'', JNum 200), (''city'', JStr ''Recife'')])))))"
  by (rule fetchAddress_fallback_after_error) simp+

text \<open>
  C7. Exhaustion: when ViaCEP reports the CEP as unknown (a truthy \<open>erro\<close> field, no
  log line) and the ApiCEP call rejects (logged), \<open>fetchAddress\<close> returns \<open>null\<close>
  after exactly these three calls.
\<close>

theorem fetchAddress_exhausted:
  assumes "js_get response ''data'' = Some data" "js_truthy_opt (js_get data ''erro'')"
  shows "replay (fetchAddress cep) (Inr response # Inl e # ack # rs) =
         ([AxiosGet (viacep_url cep), AxiosGet (apicep_url cep),
           ConsoleError (fetch_error_text ''fetchAddressFromApiCEP'') e], Some (Inr JNull))"
  using assms by (simp add: resolver_unfold prog_simps)

theorem fetchAddress_exhausted_witness:
  "replay (fetchAddress (JStr ''99999999''))
     [Inr (JObj [(''data'', JObj [(''erro'', JBool True)])]),
      Inl (Error ''AxiosError'' ''Request failed with status code 404''), Inr JNull] =
   ([AxiosGet (viacep_url (JStr ''99999999'')), AxiosGet (apicep_url (JStr ''99999999'')),
     ConsoleError (fetch_error_text ''fetchAddressFromApiCEP'')
       (Error ''AxiosError'' ''Request failed with status code 404'')], Some (Inr JNull))"
  by (rule fetchAddress_exhausted) simp+


text \<open>
  C25. The resolver returns an \<open>Address\<close> or \<open>null\<close>: on every path, whatever the providers
  answer, \<open>fetchAddress cep\<close> returns \<open>null\<close> or an object with exactly the properties of
  the \<open>Address\<close> interface whose \<open>cep\<close> is the one asked for.
\<close>

theorem fetchAddress_returns_address:
  assumes "may_return (fetchAddress cep) a"
  shows "a = JNull \<or> (is_address a \<and> js_get a ''cep'' = Some cep)"
proof -
  have "a = JNull \<or> may_return (fetchAddressFromViaCEP cep) a \<or> may_return (fetchAddressFromApiCEP cep) a"
    using may_return_try_services [OF assms [unfolded fetchAddress_def]] unfolding services_def by simp
  then show ?thesis
  proof (elim disjE)
    assume "may_return (fetchAddressFromViaCEP cep) a"
    then show ?thesis using may_return_adapters(1) address_literals_shape(1) by metis
  next
    assume "may_return (fetchAddressFromApiCEP cep) a"
    then show ?thesis using may_return_adapters(2) address_literals_shape(2) by metis
  qed simp
qed

theorem fetchAddress_returns_address_witness:
  "viacep_address (JStr ''01001000'') (Some (JObj [(''uf'', JStr ''SP'')])) = JNull \<or>
   (is_address (viacep_address (JStr ''01001000'') (Some (JObj [(''uf'', JStr ''SP'')]))) \<and>
    js_get (viacep_address (JStr ''01001000'') (Some (JObj [(''uf'', JStr ''SP'')]))) ''cep'' = Some (JStr ''01001000''))"
proof (rule fetchAddress_returns_address)
  let ?resp = "JObj [(''data'', JObj [(''uf'', JStr ''SP'')])]"
  have "may_return (fetchAddressFromViaCEP (JStr ''01001000''))
          (viacep_address (JStr ''01001000'') (Some (JObj [(''uf'', JStr ''SP'')])))"
    unfolding fetchAddressFromViaCEP_def await_def pbind.simps
    by (rule may_return.step [where r = "Inr ?resp"]) (simp add: prog_simps may_return.ret)
  then show "may_return (fetchAddress (JStr ''01001000''))
               (viacep_address (JStr ''01001000'') (Some (JObj [(''uf'', JStr ''SP'')])))"
    by (auto simp: fetchAddress_def services_def)
qed

end
