(* ===== verification/Client_Service.thy ===== *)
theory Client_Service
  imports Address_Resolver
begin

text \<open>
  The public methods of \<open>ClientService\<close> (src/application/services/ClientService.ts).
  \<open>registerClient\<close> is the registration workflow: validation, duplicate check, cache-first
  address resolution with write-through to the cache and the address store, identity
  assignment and persistence. The query methods pass through to the client repository.
\<close>

definition registerClient :: "json \<Rightarrow> json js" where
  "registerClient client =
     (if client = JNull then Throw (read_error (Some JNull) ''name'') else
      case (js_get client ''name'', js_get client ''email'', js_get client ''cep'', js_get client ''phone'') of
        (Some name, Some email, Some cep, Some phone) \<Rightarrow>
          if \<not> js_truthy name \<or> \<not> js_truthy email \<or> \<not> js_truthy cep \<or> \<not> js_truthy phone
          then Throw err_invalid_data
          else
            pbind (await (FindByEmailOrPhone email phone)) (\<lambda>existingClient.
            if js_truthy existingClient then Throw err_duplicate
            else
              pbind (getCachedAddress cep) (\<lambda>cached.
              pbind (if \<not> js_truthy cached then
                       pbind (fetchAddress cep) (\<lambda>address.
                       if \<not> js_truthy address then Throw err_cep_not_found
                       else
                         pbind (cacheAddress cep address) (\<lambda>_.
                         pbind (await (AddressSave address)) (\<lambda>_.
                         Return address)))
                     else Return cached) (\<lambda>address.
              pbind (await UuidV4) (\<lambda>newId.
              await (ClientSave (js_set (js_set client ''id'' newId) ''address'' address))))))
      | _ \<Rightarrow> Throw err_invalid_data)"

definition listClients :: "int \<Rightarrow> int \<Rightarrow> json js" where
  "listClients page limit = await (ClientFindAll page limit)"

definition getClientById :: "json \<Rightarrow> json js" where
  "getClientById clientId = await (ClientFindById clientId)"

definition deleteClientById :: "json \<Rightarrow> unit js" where
  "deleteClientById clientId = pbind (await (ClientDeleteById clientId)) (\<lambda>_. Return ())"

definition searchClientsByName :: "json option \<Rightarrow> int \<Rightarrow> int \<Rightarrow> json js" where
  "searchClientsByName name page limit = await (ClientFindByName name page limit)"

subsection \<open>Sample data: the registration of the test suite\<close>

text \<open>The request and the ViaCEP payload of \<open>test/clientService.test.ts\<close>, UTF-8 encoded.\<close>

definition joao_client :: json where
  "joao_client =
     JObj [(''name'', JStr (''Jo'' @ [CHR 0xC3, CHR 0xA3] @ ''o'')),
           (''email'', JStr ''joao@example.com''),
           (''phone'', JStr ''1199887766''),
           (''cep'', JStr ''01001000'')]"

definition se_viacep_data :: json where
  "se_viacep_data =
     JObj [(''cep'', JStr ''01001000''),
           (''logradouro'', JStr (''Pra'' @ [CHR 0xC3, CHR 0xA7] @ ''a da S'' @ [CHR 0xC3, CHR 0xA9])),
           (''bairro'', JStr (''S'' @ [CHR 0xC3, CHR 0xA9])),
           (''localidade'', JStr (''S'' @ [CHR 0xC3, CHR 0xA3] @ ''o Paulo'')),
           (''uf'', JStr ''SP'')]"

definition se_viacep_response :: json where
  "se_viacep_response = JObj [(''data'', se_viacep_data), (''status'', JNum 200)]"

lemmas register_unfold = registerClient_def getCachedAddress_def fetchAddress_def services_def
  fetchAddressFromViaCEP_def fetchAddressFromApiCEP_def cacheAddress_def

lemmas sample_defs = joao_client_def se_viacep_data_def se_viacep_response_def

subsection \<open>The registration workflow against arbitrary collaborators\<close>

text \<open>
  Each theorem fixes the responses the collaborators give, in the order the service awaits
  them, and leaves the rest arbitrary (\<open>rs\<close>): it holds for every repository, cache and
  network that answers so. The request \<open>client\<close> has its four required fields.
\<close>

text \<open>
  C1. Cache miss, ViaCEP answers: the service checks for a duplicate, reads the cache, calls
  ViaCEP only, writes the normalised address to the cache with a 24-hour expiry and then to
  the address store, draws a UUID, and saves the client with that id and address; the
  outcome of the registration is the outcome of the save.
\<close>

theorem registerClient_success_miss:
  assumes "js_get client ''name'' = Some name" "js_get client ''email'' = Some email"
      "js_get client ''cep'' = Some cep" "js_get client ''phone'' = Some phone"
    and "js_truthy name" "js_truthy email" "js_truthy cep" "js_truthy phone"
    and "\<not> js_truthy existing" and "\<not> js_truthy cached"
    and "js_get response ''data'' = Some data" "data \<noteq> JNull"
      "\<not> js_truthy_opt (js_get data ''erro'')"
  shows "replay (registerClient client)
           (Inr existing # Inr cached # Inr response # Inr setReply # Inr saveReply # Inr newId # r # rs) =
         ([FindByEmailOrPhone email phone, RedisGet cep, AxiosGet (viacep_url cep),
           RedisSet cep (json_stringify (viacep_address cep (Some data))) cache_ttl,
           AddressSave (viacep_address cep (Some data)), UuidV4,
           ClientSave (js_set (js_set client ''id'' newId) ''address'' (viacep_address cep (Some data)))],
          Some r)"
  using assms by (simp add: register_unfold prog_simps viacep_address_def 
    split: sum.splits)

theorem registerClient_success_miss_witness:
  "replay (registerClient joao_client)
     [Inr JNull, Inr JNull, Inr se_viacep_response, Inr (JStr ''OK''), Inr JNull,
      Inr (JStr ''some-unique-id''), Inr JNull] =
   ([FindByEmailOrPhone (JStr ''joao@example.com'') (JStr ''1199887766''), RedisGet (JStr ''01001000''),
     AxiosGet (viacep_url (JStr ''01001000'')),
     RedisSet (JStr ''01001000'') (json_stringify (viacep_address (JStr ''01001000'') (Some se_viacep_data))) cache_ttl,
     AddressSave (viacep_address (JStr ''01001000'') (Some se_viacep_data)), UuidV4,
     ClientSave (js_set (js_set joao_client ''id'' (JStr ''some-unique-id'')) ''address''
                   (viacep_address (JStr ''01001000'') (Some se_viacep_data)))],
    Some (Inr JNull))"
  by (rule registerClient_success_miss) (simp add: sample_defs)+

text \<open>
  C2. Duplicate: when the repository finds a client with the same email or phone, the
  registration fails with the duplicate error and makes no other call; in particular the
  client repository's \<open>save\<close> is never invoked.
\<close>

theorem registerClient_duplicate:
  assumes "js_get client ''name'' = Some name" "js_get client ''email'' = Some email"
      "js_get client ''cep'' = Some cep" "js_get client ''phone'' = Some phone"
    and "js_truthy name" "js_truthy email" "js_truthy cep" "js_truthy phone"
    and "js_truthy existing"
  shows "replay (registerClient client) (Inr existing # rs) =
         ([FindByEmailOrPhone email phone], Some (Inl err_duplicate))"
  using assms by (simp add: registerClient_def prog_simps)

theorem registerClient_duplicate_witness:
  "replay (registerClient joao_client) [Inr joao_client, Inr JNull, Inr se_viacep_response] =
   ([FindByEmailOrPhone (JStr ''joao@example.com'') (JStr ''1199887766'')], Some (Inl err_duplicate))"
  by (rule registerClient_duplicate) (simp add: sample_defs)+

text \<open>
  C3. Validation: for a request that is not \<open>null\<close> (reading \<open>null.name\<close> throws a
  \<open>TypeError\<close>), the registration fails with the validation error before any call exactly
  when one of name, email, cep and phone is missing or falsy.
\<close>

theorem registerClient_validation:
  assumes "client \<noteq> JNull"
  shows "registerClient client = Throw err_invalid_data \<longleftrightarrow>
     \<not> js_truthy_opt (js_get client ''name'') \<or> \<not> js_truthy_opt (js_get client ''email'') \<or>
     \<not> js_truthy_opt (js_get client ''cep'') \<or> \<not> js_truthy_opt (js_get client ''phone'')"
  using assms by (auto simp: registerClient_def prog_simps js_truthy_opt_def split: option.splits)

theorem registerClient_validation_witness:
  "registerClient (JObj [(''name'', JStr ''''), (''email'', JStr ''invalid-email''),
      (''phone'', JStr ''invalid-phone''), (''cep'', JStr ''01001000'')]) = Throw err_invalid_data"
  using registerClient_validation by simp

text \<open>
  C4. Cache hit: when Redis holds a text that parses to a truthy value, that value is the
  client's address as it is; no provider is called and neither the cache nor the address
  store is written.
\<close>

theorem registerClient_cache_hit:
  assumes "js_get client ''name'' = Some name" "js_get client ''email'' = Some email"
      "js_get client ''cep'' = Some cep" "js_get client ''phone'' = Some phone"
    and "js_truthy name" "js_truthy email" "js_truthy cep" "js_truthy phone"
    and "\<not> js_truthy existing"
    and "js_truthy cached" and "json_parse (js_to_string cached) = Some address" and "js_truthy address"
  shows "replay (registerClient client) (Inr existing # Inr cached # Inr newId # r # rs) =
         ([FindByEmailOrPhone email phone, RedisGet cep, UuidV4,
           ClientSave (js_set (js_set client ''id'' newId) ''address'' address)], Some r)"
  using assms by (simp add: register_unfold prog_simps split: sum.splits)

theorem registerClient_cache_hit_witness:
  "replay (registerClient joao_client)
     [Inr JNull, Inr (JStr ''{}''), Inr (JStr ''u1''), Inr JNull] =
   ([FindByEmailOrPhone (JStr ''joao@example.com'') (JStr ''1199887766''), RedisGet (JStr ''01001000''), UuidV4,
     ClientSave (js_set (js_set joao_client ''id'' (JStr ''u1'')) ''address'' (JObj []))],
    Some (Inr JNull))"
  by (rule registerClient_cache_hit) (simp add: sample_defs json_parse_def dquote_def is_ws_def)+

text \<open>
  C8. Address not found: on a cache miss, whatever calls \<open>fetchAddress\<close> made, if it ends
  with a falsy value the registration fails with the CEP error right after them: neither
  the cache, nor the address store, nor the client repository's \<open>save\<close> is called.
\<close>

theorem registerClient_address_not_found:
  assumes "js_get client ''name'' = Some name" "js_get client ''email'' = Some email"
      "js_get client ''cep'' = Some cep" "js_get client ''phone'' = Some phone"
    and "js_truthy name" "js_truthy email" "js_truthy cep" "js_truthy phone"
    and "\<not> js_truthy existing" and "\<not> js_truthy cached"
    and resolved: "replay (fetchAddress cep) rs = (qs, Some (Inr a))" "length rs = length qs"
    and "\<not> js_truthy a"
  shows "replay (registerClient client) (Inr existing # Inr cached # rs @ rest) =
         (FindByEmailOrPhone email phone # RedisGet cep # qs, Some (Inl err_cep_not_found))"
  using assms
  by (simp add: registerClient_def getCachedAddress_def prog_simps replay_pbind_Inr[OF resolved])

theorem registerClient_address_not_found_witness:
  "replay (registerClient joao_client)
     (Inr JNull # Inr JNull #
      [Inr (JObj [(''data'', JObj [(''erro'', JBool True)])]),
       Inr (JObj [(''data'', JObj [(''status'', JNum 404)])])] @ [Inr JNull]) =
   (FindByEmailOrPhone (JStr ''joao@example.com'') (JStr ''1199887766'') # RedisGet (JStr ''01001000'') #
    [AxiosGet (viacep_url (JStr ''01001000'')), AxiosGet (apicep_url (JStr ''01001000''))],
    Some (Inl err_cep_not_found))"
  by (rule registerClient_address_not_found)
     (simp add: sample_defs resolver_unfold prog_simps)+

subsection \<open>Invariants over every run\<close>

text \<open>\<open>registerClient\<close> is a part that resolves the address, followed by the UUID and the
  save. The first part never calls \<open>uuidv4\<close> or \<open>save\<close> and returns only truthy
  addresses.\<close>

lemma registerClient_pre:
  obtains pre where
    "registerClient client = pbind pre (\<lambda>address. pbind (await UuidV4) (\<lambda>newId.
       await (ClientSave (js_set (js_set client ''id'' newId) ''address'' address))))"
    "\<And>q. may_call pre q \<Longrightarrow> q \<noteq> UuidV4 \<and> (\<forall>c. q \<noteq> ClientSave c)"
    "\<And>a. may_return pre a \<Longrightarrow> js_truthy a"
proof -
  define pre where "pre =
     (if client = JNull then Throw (read_error (Some JNull) ''name'') else
      case (js_get client ''name'', js_get client ''email'', js_get client ''cep'', js_get client ''phone'') of
        (Some name, Some email, Some cep, Some phone) \<Rightarrow>
          if \<not> js_truthy name \<or> \<not> js_truthy email \<or> \<not> js_truthy cep \<or> \<not> js_truthy phone
          then Throw err_invalid_data
          else
            pbind (await (FindByEmailOrPhone email phone)) (\<lambda>existingClient.
            if js_truthy existingClient then Throw err_duplicate
            else
              pbind (getCachedAddress cep) (\<lambda>cached.
              if \<not> js_truthy cached then
                pbind (fetchAddress cep) (\<lambda>address.
                if \<not> js_truthy address then Throw err_cep_not_found
                else
                  pbind (cacheAddress cep address) (\<lambda>_.
                  pbind (await (AddressSave address)) (\<lambda>_.
                  Return address)))
              else Return cached))
      | _ \<Rightarrow> Throw err_invalid_data)"
  show ?thesis
  proof
    show "registerClient client = pbind pre (\<lambda>address. pbind (await UuidV4) (\<lambda>newId.
       await (ClientSave (js_set (js_set client ''id'' newId) ''address'' address))))"
      unfolding registerClient_def pre_def
      by (cases "js_get client ''name''"; cases "js_get client ''email''";
          cases "js_get client ''cep''"; cases "js_get client ''phone''") (simp_all add: pbind_if pbind.simps cong: if_cong)
  next
    fix q
    assume "may_call pre q"
    then show "q \<noteq> UuidV4 \<and> (\<forall>c. q \<noteq> ClientSave c)"
      by (auto simp: pre_def split: option.splits if_splits dest: may_call_fetchAddress)
  next
    fix a
    assume "may_return pre a"
    then show "js_truthy a"
      by (auto simp: pre_def getCachedAddress_def cacheAddress_def split: option.splits if_splits)
  qed
qed

text \<open>
  C9. No client is saved without an identity and a resolved address: in every run, against
  any collaborators, a \<open>save\<close> of the client repository is the last request, it comes right
  after \<open>uuidv4\<close>, and it receives the request object with \<open>id\<close> set to exactly the value
  \<open>uuidv4\<close> returned and \<open>address\<close> set to a truthy value.
\<close>

theorem registerClient_saves_with_id_and_address:
  assumes "(ClientSave c, r) \<in> set (snd (snd (run h (registerClient client) s)))"
  shows "\<exists>tr newId address. js_truthy address \<and>
           c = js_set (js_set client ''id'' newId) ''address'' address \<and>
           snd (snd (run h (registerClient client) s)) = tr @ [(UuidV4, Inr newId), (ClientSave c, r)]"
proof -
  obtain pre where eq: "registerClient client = pbind pre (\<lambda>address. pbind (await UuidV4) (\<lambda>newId.
       await (ClientSave (js_set (js_set client ''id'' newId) ''address'' address))))"
    and calls: "\<And>q. may_call pre q \<Longrightarrow> q \<noteq> UuidV4 \<and> (\<forall>c. q \<noteq> ClientSave c)"
    and rets: "\<And>a. may_return pre a \<Longrightarrow> js_truthy a"
    using registerClient_pre [of client] by blast
  obtain out1 s1 tr1 where pre_run: "run h pre s = (out1, s1, tr1)" by (cases "run h pre s") blast
  have not_pre: "(ClientSave c, r) \<notin> set tr1"
    using run_trace_may_call [of "ClientSave c" r h pre s] calls pre_run by fastforce
  show ?thesis
  proof (cases out1)
    case (Inl e)
    with assms pre_run not_pre show ?thesis by (simp add: eq run_pbind)
  next
    case (Inr a)
    then have truthy: "js_truthy a" using rets run_Inr_may_return [of h pre s a] pre_run by simp
    obtain r1 s2 where u: "h s1 UuidV4 = (r1, s2)" by fastforce
    show ?thesis
    proof (cases r1)
      case (Inl e)
      with assms pre_run not_pre Inr u show ?thesis by (simp add: eq run_pbind prog_simps)
    next
      case (Inr v)
      obtain r2 s3 where sv: "h s2 (ClientSave (js_set (js_set client ''id'' v) ''address'' a)) = (r2, s3)"
        by fastforce
      from assms pre_run not_pre \<open>out1 = Inr a\<close> u Inr sv
      have "c = js_set (js_set client ''id'' v) ''address'' a" "r = r2"
        by (auto simp: eq run_pbind prog_simps)
      with truthy pre_run \<open>out1 = Inr a\<close> u Inr sv show ?thesis
        by (auto simp: eq run_pbind prog_simps)
    qed
  qed
qed

theorem registerClient_saves_with_id_and_address_witness:
  "\<exists>tr newId address. js_truthy address \<and>
     js_set (js_set joao_client ''id'' (JStr ''u1'')) ''address'' (JObj []) =
       js_set (js_set joao_client ''id'' newId) ''address'' address \<and>
     snd (snd (run (\<lambda>n q. (case q of FindByEmailOrPhone _ _ \<Rightarrow> Inr JNull | RedisGet _ \<Rightarrow> Inr (JStr ''{}'')
                                  | UuidV4 \<Rightarrow> Inr (JStr ''u1'') | _ \<Rightarrow> Inr JNull, Suc n))
                  (registerClient joao_client) (0::nat))) =
       tr @ [(UuidV4, Inr newId),
             (ClientSave (js_set (js_set joao_client ''id'' (JStr ''u1'')) ''address'' (JObj [])), Inr JNull)]"
proof (rule registerClient_saves_with_id_and_address)
  show "(ClientSave (js_set (js_set joao_client ''id'' (JStr ''u1'')) ''address'' (JObj [])), Inr JNull) \<in>
          set (snd (snd (run (\<lambda>n q. (case q of FindByEmailOrPhone _ _ \<Rightarrow> Inr JNull
                                        | RedisGet _ \<Rightarrow> Inr (JStr ''{}'') | UuidV4 \<Rightarrow> Inr (JStr ''u1'')
                                        | _ \<Rightarrow> Inr JNull, Suc n))
                  (registerClient joao_client) (0::nat))))"
    by (simp add: register_unfold prog_simps sample_defs json_parse_def dquote_def is_ws_def)
qed

text \<open>
  C10. "Not found" is never cached: in every run, a Redis \<open>set\<close> is keyed by the request's
  CEP, stores the JSON text of a truthy address, and expires after 24 hours.
\<close>

theorem registerClient_caches_only_found:
  assumes "RedisSet k v t \<in> set (requests (registerClient client) rs)"
  shows "\<exists>address. js_truthy address \<and> v = json_stringify address \<and> t = cache_ttl \<and>
           js_get client ''cep'' = Some k"
proof -
  have "may_call (registerClient client) (RedisSet k v t)"
    using assms by (auto simp: requests_def intro: requests_may_call)
  then show ?thesis
    by (auto simp: registerClient_def split: option.splits if_splits dest: may_call_fetchAddress)
qed

theorem registerClient_caches_only_found_witness:
  "\<exists>address. js_truthy address \<and>
     json_stringify (viacep_address (JStr ''01001000'') (Some se_viacep_data)) = json_stringify address \<and>
     cache_ttl = cache_ttl \<and> js_get joao_client ''cep'' = Some (JStr ''01001000'')"
proof (rule registerClient_caches_only_found)
  show "RedisSet (JStr ''01001000'') (json_stringify (viacep_address (JStr ''01001000'') (Some se_viacep_data)))
          cache_ttl \<in> set (requests (registerClient joao_client)
            [Inr JNull, Inr JNull, Inr se_viacep_response, Inr (JStr ''OK''), Inr JNull,
             Inr (JStr ''u1''), Inr JNull])"
    by (simp add: requests_def register_unfold prog_simps sample_defs viacep_address_def)
qed

end
