(* ===== verification/Mongo_Store.thy ===== *)
theory Mongo_Store
  imports Effects
begin

text \<open>
  The client repository as deployed: \<open>ClientRepositoryImpl\<close>
  (src/interfaces/repositories/ClientRepositoryImpl.ts) over the Mongoose model \<open>Client\<close>
  (src/infrastructure/database/models/Client.ts). The collection is a list of stored
  documents plus the counter that generates ObjectIds. \<open>new ClientModel(client)\<close> casts
  the schema's paths to strings, drops every path the schema does not declare (strict mode,
  so \<open>cep\<close> and \<open>id\<close> of the request are not stored), applies \<open>uppercase\<close>, and
  \<open>save()\<close> runs the validators (\<open>required\<close>, \<open>maxlength\<close>, \<open>match\<close>) and then the unique
  indexes of \<open>email\<close> and \<open>phone\<close>. Lengths are counted in UTF-16 code units, as
  JavaScript counts them; \<open>uppercase\<close> is applied to ASCII letters; whitespace for \<open>\S\<close>
  is ASCII whitespace. Mongoose's version key and the ids of nested documents are not
  modelled; query values that are objects (MongoDB operators) are not modelled and are
  rejected as cast errors.
\<close>

record client_collection =
  docs :: "json list"
  oid_counter :: nat

subsection \<open>Schema\<close>

text \<open>One string path of a schema: its name and its options.\<close>

record string_path =
  path_name :: string
  path_required :: bool
  path_maxlength :: "nat option"
  path_match :: "(string \<Rightarrow> bool) option"
  path_uppercase :: bool

definition is_space :: "char \<Rightarrow> bool" where
  "is_space c \<longleftrightarrow> c = CHR '' '' \<or> c = CHR 0x09 \<or> c = CHR 0x0A \<or> c = CHR 0x0B \<or> c = CHR 0x0C \<or> c = CHR 0x0D"

text \<open>\<open>/^\S+@\S+\.\S+$/\<close>: no whitespace, and an \<open>@\<close> with a character before it and a
  dot after it that has a character on each side.\<close>

definition email_match :: "string \<Rightarrow> bool" where
  "email_match s \<longleftrightarrow>
     (\<forall>c \<in> set s. \<not> is_space c) \<and>
     (\<exists>i \<in> {1..<length s}. s ! i = CHR ''@'' \<and>
        (\<exists>j \<in> {i + 2..<length s - 1}. s ! j = CHR ''.''))"

text \<open>\<open>/^\d{10,20}$/\<close> and \<open>/^\d{8}$/\<close>.\<close>

definition phone_match :: "string \<Rightarrow> bool" where
  "phone_match s \<longleftrightarrow> (\<forall>c \<in> set s. is_digit c) \<and> 10 \<le> length s \<and> length s \<le> 20"

definition cep_match :: "string \<Rightarrow> bool" where
  "cep_match s \<longleftrightarrow> (\<forall>c \<in> set s. is_digit c) \<and> length s = 8"

definition address_schema :: "string_path list" where
  "address_schema =
     [\<lparr>path_name = ''cep'', path_required = True, path_maxlength = None,
       path_match = Some cep_match, path_uppercase = False\<rparr>,
      \<lparr>path_name = ''street'', path_required = True, path_maxlength = Some 255,
       path_match = None, path_uppercase = False\<rparr>,
      \<lparr>path_name = ''neighborhood'', path_required = True, path_maxlength = Some 255,
       path_match = None, path_uppercase = False\<rparr>,
      \<lparr>path_name = ''city'', path_required = True, path_maxlength = Some 255,
       path_match = None, path_uppercase = False\<rparr>,
      \<lparr>path_name = ''state'', path_required = True, path_maxlength = Some 2,
       path_match = None, path_uppercase = True\<rparr>]"

definition client_schema :: "string_path list" where
  "client_schema =
     [\<lparr>path_name = ''name'', path_required = True, path_maxlength = Some 255,
       path_match = None, path_uppercase = False\<rparr>,
      \<lparr>path_name = ''email'', path_required = True, path_maxlength = Some 255,
       path_match = Some email_match, path_uppercase = False\<rparr>,
      \<lparr>path_name = ''phone'', path_required = True, path_maxlength = Some 20,
       path_match = Some phone_match, path_uppercase = False\<rparr>]"

text \<open>The document interfaces \<open>IAddress\<close> and \<open>IClient\<close> the model is typed with:
  string properties and, for a client, an embedded address.\<close>

definition is_iaddress :: "json \<Rightarrow> bool" where
  "is_iaddress a \<longleftrightarrow>
     (case a of
        JObj _ \<Rightarrow> list_all (is_str_prop a) [''cep'', ''street'', ''neighborhood'', ''city'', ''state'']
      | _ \<Rightarrow> False)"

definition is_iclient :: "json \<Rightarrow> bool" where
  "is_iclient d \<longleftrightarrow>
     (case d of
        JObj _ \<Rightarrow> list_all (is_str_prop d) [''name'', ''email'', ''phone''] \<and>
                  (case js_get d ''address'' of Some a \<Rightarrow> is_iaddress a | None \<Rightarrow> False)
      | _ \<Rightarrow> False)"

definition unique_paths :: "string list" where
  "unique_paths = [''email'', ''phone'']"

subsection \<open>Casting and validation\<close>

text \<open>The \<open>String\<close> schema type's cast: \<open>Some None\<close> for \<open>null\<close> or \<open>undefined\<close>,
  \<open>None\<close> when the value cannot be cast.\<close>

fun cast_string :: "json option \<Rightarrow> string option option" where
  "cast_string None = Some None"
| "cast_string (Some JNull) = Some None"
| "cast_string (Some (JStr s)) = Some (Some s)"
| "cast_string (Some (JNum n)) = Some (Some (int_to_string n))"
| "cast_string (Some (JBool b)) = Some (Some (if b then ''true'' else ''false''))"
| "cast_string (Some (JArr xs)) = None"
| "cast_string (Some (JObj kvs)) = None"

definition ascii_upper :: "char \<Rightarrow> char" where
  "ascii_upper c = (if 97 \<le> (of_char c :: nat) \<and> (of_char c :: nat) \<le> 122 then char_of (of_char c - 32 :: nat) else c)"

text \<open>UTF-16 length of UTF-8 text: one unit per leading byte, two for four-byte sequences.\<close>

definition utf16_length :: "string \<Rightarrow> nat" where
  "utf16_length s =
     length (filter (\<lambda>c. \<not> (128 \<le> (of_char c :: nat) \<and> (of_char c :: nat) < 192)) s) +
     length (filter (\<lambda>c. 240 \<le> (of_char c :: nat)) s)"

text \<open>The value of a path after casting and setters, or \<open>None\<close> on a cast error.\<close>

definition cast_path :: "string_path \<Rightarrow> json \<Rightarrow> string option option" where
  "cast_path p obj =
     map_option (map_option (\<lambda>s. if path_uppercase p then map ascii_upper s else s))
       (cast_string (js_get obj (path_name p)))"

definition path_valid :: "string_path \<Rightarrow> string option \<Rightarrow> bool" where
  "path_valid p v =
     (case v of
        None \<Rightarrow> \<not> path_required p
      | Some s \<Rightarrow>
          (\<not> (path_required p \<and> s = [])) \<and>
          (case path_maxlength p of None \<Rightarrow> True | Some m \<Rightarrow> utf16_length s \<le> m) \<and>
          (case path_match p of None \<Rightarrow> True | Some f \<Rightarrow> f s))"

definition cast_paths :: "string_path list \<Rightarrow> json \<Rightarrow> (string \<times> string option) list option" where
  "cast_paths ps obj =
     (if \<forall>p \<in> set ps. cast_path p obj \<noteq> None
      then Some (map (\<lambda>p. (path_name p, the (cast_path p obj))) ps) else None)"

definition paths_valid :: "string_path list \<Rightarrow> (string \<times> string option) list \<Rightarrow> bool" where
  "paths_valid ps vs \<longleftrightarrow> list_all2 (\<lambda>p (n, v). path_valid p v) ps vs"

definition fields_json :: "(string \<times> string option) list \<Rightarrow> (string \<times> json) list" where
  "fields_json vs = map (\<lambda>(n, v). (n, case v of None \<Rightarrow> JNull | Some s \<Rightarrow> JStr s)) vs"

text \<open>A path that cannot be cast is recorded on the document and reported by
  \<open>save()\<close> as a validation error, like a failed validator.\<close>

definition validation_error :: exn where
  "validation_error = Error ''ValidationError'' ''Client validation failed''"

definition cast_error :: exn where
  "cast_error = Error ''CastError'' ''Cast to string failed''"

text \<open>ObjectIds: 24 lowercase hexadecimal digits.\<close>

fun hex_pad :: "nat \<Rightarrow> nat \<Rightarrow> string" where
  "hex_pad 0 n = []"
| "hex_pad (Suc k) n = hex_pad k (n div 16) @ [hex_digit (n mod 16)]"

definition object_id :: "nat \<Rightarrow> string" where
  "object_id n = hex_pad 24 n"

text \<open>
  \<open>new ClientModel(client)\<close> followed by \<open>save()\<close> and \<open>toObject()\<close>: the document that
  is stored and returned, or the error \<open>save()\<close> rejects with. The \<open>address\<close> path is a
  required embedded document with its own schema.
\<close>

definition build_client_doc :: "json \<Rightarrow> nat \<Rightarrow> exn + json" where
  "build_client_doc client n =
     (case (cast_paths client_schema client, js_get client ''address'') of
        (None, _) \<Rightarrow> Inl validation_error
      | (Some tops, None) \<Rightarrow> Inl validation_error
      | (Some tops, Some JNull) \<Rightarrow> Inl validation_error
      | (Some tops, Some (JObj kvs)) \<Rightarrow>
          (case cast_paths address_schema (JObj kvs) of
             None \<Rightarrow> Inl validation_error
           | Some addr \<Rightarrow>
               if paths_valid client_schema tops \<and> paths_valid address_schema addr
               then Inr (JObj ((''_id'', JStr (object_id n)) # fields_json tops @
                               [(''address'', JObj (fields_json addr))]))
               else Inl validation_error)
      | (Some tops, Some _) \<Rightarrow> Inl validation_error)"

definition duplicate_key_error :: "string \<Rightarrow> exn" where
  "duplicate_key_error p =
     Error ''MongoServerError'' (''E11000 duplicate key error collection: meuprojeto.clients index: '' @ p @ ''_1'')"

definition unique_violation :: "json list \<Rightarrow> json \<Rightarrow> string option" where
  "unique_violation ds doc =
     find (\<lambda>p. \<exists>d \<in> set ds. js_get d p = js_get doc p) unique_paths"

subsection \<open>Repository methods\<close>

text \<open>\<open>save(client)\<close>: validation first, then the unique indexes.\<close>

definition client_save :: "json \<Rightarrow> client_collection \<Rightarrow> (exn + json) \<times> client_collection" where
  "client_save client col =
     (case build_client_doc client (oid_counter col) of
        Inl e \<Rightarrow> (Inl e, col)
      | Inr doc \<Rightarrow>
          (case unique_violation (docs col) doc of
             Some p \<Rightarrow> (Inl (duplicate_key_error p), col\<lparr>oid_counter := Suc (oid_counter col)\<rparr>)
           | None \<Rightarrow> (Inr doc, \<lparr>docs = docs col @ [doc], oid_counter = Suc (oid_counter col)\<rparr>)))"

text \<open>A query value is cast to the path's type; a value that is not a string, number,
  boolean or null makes the query fail.\<close>

definition query_eq :: "string \<Rightarrow> json \<Rightarrow> json \<Rightarrow> bool option" where
  "query_eq p v d =
     (case cast_string (Some v) of
        None \<Rightarrow> None
      | Some None \<Rightarrow> Some (js_get d p = None \<or> js_get d p = Some JNull)
      | Some (Some s) \<Rightarrow> Some (js_get d p = Some (JStr s)))"

text \<open>\<open>findOne({ $or: [{ email }, { phone }] })\<close>: the first document, in insertion order,
  whose email or phone equals the query's.\<close>

definition client_find_by_email_or_phone :: "json \<Rightarrow> json \<Rightarrow> client_collection \<Rightarrow> exn + json" where
  "client_find_by_email_or_phone email phone col =
     (if cast_string (Some email) = None \<or> cast_string (Some phone) = None then Inl cast_error
      else case find (\<lambda>d. query_eq ''email'' email d = Some True \<or> query_eq ''phone'' phone d = Some True)
                  (docs col) of
             None \<Rightarrow> Inr JNull
           | Some d \<Rightarrow> Inr d)"

text \<open>\<open>findById\<close> and \<open>findByIdAndDelete\<close> cast the id to an ObjectId first.\<close>

definition is_hex_char :: "char \<Rightarrow> bool" where
  "is_hex_char c \<longleftrightarrow> hex_val c \<noteq> None"

definition cast_object_id :: "json \<Rightarrow> string option" where
  "cast_object_id v =
     (case v of
        JStr s \<Rightarrow> if length s = 24 \<and> (\<forall>c \<in> set s. is_hex_char c)
                  then Some (map (\<lambda>c. hex_digit (the (hex_val c))) s) else None
      | _ \<Rightarrow> None)"

definition object_id_cast_error :: exn where
  "object_id_cast_error = Error ''CastError'' ''Cast to ObjectId failed for value at path _id''"

definition client_find_by_id :: "json \<Rightarrow> client_collection \<Rightarrow> exn + json" where
  "client_find_by_id cid col =
     (case cast_object_id cid of
        None \<Rightarrow> Inl object_id_cast_error
      | Some oid \<Rightarrow>
          (case find (\<lambda>d. js_get d ''_id'' = Some (JStr oid)) (docs col) of
             None \<Rightarrow> Inr JNull
           | Some d \<Rightarrow> Inr d))"

fun remove_first :: "('a \<Rightarrow> bool) \<Rightarrow> 'a list \<Rightarrow> 'a list" where
  "remove_first P [] = []"
| "remove_first P (x # xs) = (if P x then xs else x # remove_first P xs)"

definition client_delete_by_id :: "json \<Rightarrow> client_collection \<Rightarrow> (exn + json) \<times> client_collection" where
  "client_delete_by_id cid col =
     (case cast_object_id cid of
        None \<Rightarrow> (Inl object_id_cast_error, col)
      | Some oid \<Rightarrow>
          (Inr JNull, col\<lparr>docs := remove_first (\<lambda>d. js_get d ''_id'' = Some (JStr oid)) (docs col)\<rparr>))"

text \<open>\<open>find().skip((page - 1) * limit).limit(limit)\<close>: a negative skip is refused by the
  server; \<open>limit(0)\<close> means no limit and a negative limit is taken by its absolute value.\<close>

definition skip_error :: exn where
  "skip_error = Error ''MongoServerError'' ''BSON field 'skip' value must be >= 0''"

definition apply_limit :: "int \<Rightarrow> 'a list \<Rightarrow> 'a list" where
  "apply_limit l xs = (if l = 0 then xs else take (nat \<bar>l\<bar>) xs)"

definition page_of :: "int \<Rightarrow> int \<Rightarrow> 'a list \<Rightarrow> 'a list option" where
  "page_of page limit xs =
     (let s = (page - 1) * limit in if s < 0 then None else Some (apply_limit limit (drop (nat s) xs)))"

definition client_find_all :: "int \<Rightarrow> int \<Rightarrow> client_collection \<Rightarrow> exn + json" where
  "client_find_all page limit col =
     (case page_of page limit (docs col) of None \<Rightarrow> Inl skip_error | Some ds \<Rightarrow> Inr (JArr ds))"

text \<open>
  \<open>find({ name: new RegExp(name, 'i') })\<close> with the same paging. A pattern without
  regular-expression metacharacters matches the names that contain it, ignoring the case of
  ASCII letters. Any other pattern is given to a regular-expression engine, a parameter of the
  model: it answers \<open>None\<close> for a pattern \<open>new RegExp\<close> rejects (a \<open>SyntaxError\<close>)
  and otherwise the pattern's matcher.
\<close>

type_synonym regex_engine = "string \<Rightarrow> (string \<Rightarrow> bool) option"

definition regex_meta :: string where
  "regex_meta = [bslash, CHR ''^'', CHR ''$'', CHR ''.'', CHR ''|'', CHR ''?'', CHR ''*'', CHR ''+'',
                 CHR ''('', CHR '')'', CHR ''['', CHR '']'', CHR ''{'', CHR ''}'']"

definition ascii_lower :: "char \<Rightarrow> char" where
  "ascii_lower c = (if 65 \<le> (of_char c :: nat) \<and> (of_char c :: nat) \<le> 90 then char_of (of_char c + 32 :: nat) else c)"

definition ci_prefix :: "string \<Rightarrow> string \<Rightarrow> bool" where
  "ci_prefix pat s \<longleftrightarrow> length pat \<le> length s \<and> map ascii_lower pat = map ascii_lower (take (length pat) s)"

fun ci_infix :: "string \<Rightarrow> string \<Rightarrow> bool" where
  "ci_infix pat [] = (pat = [])"
| "ci_infix pat (c # cs) = (ci_prefix pat (c # cs) \<or> ci_infix pat cs)"

text \<open>
  Strings are UTF-8 byte lists, JavaScript strings UTF-16. Without the \<open>u\<close> flag, the
  \<open>i\<close> flag compares characters by \<open>toUpperCase\<close>, and a non-ASCII character never
  matches an ASCII one; in UTF-8 an ASCII byte is always a whole character. So for a pattern of
  ASCII characters without metacharacters, folding ASCII letters byte by byte matches exactly as
  the regular expression does, on any name. Every other pattern (non-ASCII letters fold by
  Unicode's case mapping) goes to the engine.
\<close>

definition name_matcher :: "regex_engine \<Rightarrow> string \<Rightarrow> (string \<Rightarrow> bool) option" where
  "name_matcher engine pat =
     (if \<forall>c \<in> set pat. c \<notin> set regex_meta \<and> of_char c < (128::nat) then Some (ci_infix pat)
      else engine pat)"

text \<open>The source text \<open>new RegExp\<close> compiles: \<open>String(name)\<close>, or the empty
  pattern \<open>(?:)\<close> when the name is \<open>undefined\<close>.\<close>

definition regexp_source :: "json option \<Rightarrow> string" where
  "regexp_source name = (case name of None \<Rightarrow> [] | Some v \<Rightarrow> js_to_string v)"

definition regex_syntax_error :: exn where
  "regex_syntax_error = Error ''SyntaxError'' ''Invalid regular expression''"

definition client_find_by_name ::
    "regex_engine \<Rightarrow> json option \<Rightarrow> int \<Rightarrow> int \<Rightarrow> client_collection \<Rightarrow> exn + json" where
  "client_find_by_name engine name page limit col =
     (case name_matcher engine (regexp_source name) of
        None \<Rightarrow> Inl regex_syntax_error
      | Some m \<Rightarrow>
          (case page_of page limit
                  (filter (\<lambda>d. case js_get d ''name'' of Some (JStr n) \<Rightarrow> m n | _ \<Rightarrow> False) (docs col)) of
             None \<Rightarrow> Inl skip_error
           | Some ds \<Rightarrow> Inr (JArr ds)))"

text \<open>
  \<open>findOne({ cep })\<close>. The client schema has no \<open>cep\<close> path. Under
  \<open>strictQuery\<close> (\<open>strict\<close>) Mongoose removes the unknown path from the filter, which
  leaves \<open>{}\<close> and matches the first document; otherwise the filter goes to the server as
  written and matches the documents whose \<open>cep\<close> field equals the string.
\<close>

definition client_find_by_cep :: "bool \<Rightarrow> string \<Rightarrow> client_collection \<Rightarrow> exn + json" where
  "client_find_by_cep strict cep col =
     (case find (\<lambda>d. strict \<or> js_get d ''cep'' = Some (JStr cep)) (docs col) of
        None \<Rightarrow> Inr JNull
      | Some d \<Rightarrow> Inr d)"

subsection \<open>The collection invariant\<close>

text \<open>A stored document has every schema path as a valid string, and the unique indexes
  hold over the collection.\<close>

definition stored_path_ok :: "(string \<Rightarrow> json option) \<Rightarrow> string_path \<Rightarrow> bool" where
  "stored_path_ok get p =
     (case get (path_name p) of Some (JStr s) \<Rightarrow> path_valid p (Some s) | _ \<Rightarrow> False)"

definition stored_valid :: "json \<Rightarrow> bool" where
  "stored_valid d \<longleftrightarrow>
     (\<forall>p \<in> set client_schema. stored_path_ok (js_get d) p) \<and>
     (case js_get d ''address'' of
        Some (JObj kvs) \<Rightarrow> (\<forall>p \<in> set address_schema. stored_path_ok (map_of kvs) p)
      | _ \<Rightarrow> False)"

definition unique_inv :: "json list \<Rightarrow> bool" where
  "unique_inv ds \<longleftrightarrow> (\<forall>p \<in> set unique_paths. distinct (map (\<lambda>d. js_get d p) ds))"

definition store_inv :: "client_collection \<Rightarrow> bool" where
  "store_inv col \<longleftrightarrow> unique_inv (docs col) \<and> (\<forall>d \<in> set (docs col). stored_valid d)"

text \<open>Schema strict mode: a stored document has the keys \<open>_id\<close>, \<open>address\<close> and the
  schema's paths, and no other; every other key of the request is dropped by \<open>save\<close>.\<close>

definition stored_keys :: "json \<Rightarrow> bool" where
  "stored_keys d \<longleftrightarrow>
     (case d of
        JObj kvs \<Rightarrow> (\<forall>k \<in> set (map fst kvs). k = ''_id'' \<or> k = ''address'' \<or> k \<in> set (map path_name client_schema))
      | _ \<Rightarrow> False)"

definition strict_inv :: "client_collection \<Rightarrow> bool" where
  "strict_inv col \<longleftrightarrow> (\<forall>d \<in> set (docs col). stored_keys d)"

subsection \<open>Sample documents\<close>

text \<open>A stored client and a second registration that reuses its email.\<close>

definition sample_doc :: json where
  "sample_doc = JObj [(''_id'', JStr (object_id 0)), (''name'', JStr ''Ana''),
     (''email'', JStr ''ana@x.io''), (''phone'', JStr ''11987654321''),
     (''address'', JObj [(''cep'', JStr ''01001000''), (''street'', JStr ''Praca da Se''),
        (''neighborhood'', JStr ''Se''), (''city'', JStr ''Sao Paulo''), (''state'', JStr ''SP'')])]"

definition sample_request :: json where
  "sample_request = JObj [(''name'', JStr ''Bia''), (''email'', JStr ''ana@x.io''),
     (''phone'', JStr ''21999998888''), (''cep'', JStr ''20040002''),
     (''address'', JObj [(''cep'', JStr ''20040002''), (''street'', JStr ''Rua A''),
        (''neighborhood'', JStr ''Centro''), (''city'', JStr ''Rio''), (''state'', JStr ''rj'')])]"

subsection \<open>Facts: documents built by \<open>save\<close>\<close>

lemma cast_paths_names:
  "cast_paths ps obj = Some vs \<Longrightarrow> map fst vs = map path_name ps"
  by (auto simp: cast_paths_def split: if_splits)

lemma fields_json_lookup:
  assumes "list_all2 (\<lambda>p (n, v). path_valid p v) ps vs" "map fst vs = map path_name ps"
    "distinct (map path_name ps)" "\<forall>p \<in> set ps. path_required p" "p \<in> set ps"
  shows "stored_path_ok (map_of (fields_json vs @ rest)) p"
  using assms
proof (induction ps vs rule: list_all2_induct)
  case (Cons q ps nv vs)
  obtain n v where nv: "nv = (n, v)" by fastforce
  show ?case
  proof (cases "p = q")
    case True
    with Cons.hyps Cons.prems nv show ?thesis
      by (cases v) (simp_all add: stored_path_ok_def fields_json_def path_valid_def)
  next
    case False
    with Cons.prems have "p \<in> set ps" using nv by auto
    moreover from Cons.prems nv have "n = path_name q" "path_name q \<notin> path_name ` set ps" by auto
    ultimately have "path_name p \<noteq> n" by (metis image_eqI)
    moreover have "stored_path_ok (map_of (fields_json vs @ rest)) p"
      using Cons.IH Cons.prems nv \<open>p \<in> set ps\<close> by simp
    ultimately show ?thesis
      using nv by (simp add: stored_path_ok_def fields_json_def)
  qed
qed simp

lemma fields_json_fst [simp]: "map fst (fields_json vs) = map fst vs"
  by (induction vs) (auto simp: fields_json_def)

lemma fields_json_fst_set [simp]: "fst ` set (fields_json vs) = fst ` set vs"
  by (metis fields_json_fst set_map)

lemma schemas_required:
  "\<forall>p \<in> set client_schema. path_required p" "\<forall>p \<in> set address_schema. path_required p"
  "distinct (map path_name client_schema)" "distinct (map path_name address_schema)"
  "''_id'' \<notin> path_name ` set client_schema" "''address'' \<notin> path_name ` set client_schema"
  by (simp_all add: client_schema_def address_schema_def)

lemma build_client_doc_valid:
  assumes "build_client_doc c n = Inr d"
  shows "stored_valid d"
proof -
  obtain tops kvs addr where
    tops: "cast_paths client_schema c = Some tops" and
    addr: "cast_paths address_schema (JObj kvs) = Some addr" and
    valid: "paths_valid client_schema tops" "paths_valid address_schema addr" and
    d: "d = JObj ((''_id'', JStr (object_id n)) # fields_json tops @
                  [(''address'', JObj (fields_json addr))])"
    using assms unfolding build_client_doc_def
    by (auto split: option.splits json.splits if_splits)
  have names: "map fst tops = map path_name client_schema" "map fst addr = map path_name address_schema"
    using tops addr by (simp_all add: cast_paths_names)
  have top_ok: "stored_path_ok (js_get d) p" if "p \<in> set client_schema" for p
  proof -
    have "path_name p \<noteq> ''_id''" using that schemas_required(5) by (metis image_eqI)
    moreover have "stored_path_ok (map_of (fields_json tops @ [(''address'', JObj (fields_json addr))])) p"
      using fields_json_lookup valid(1) names(1) schemas_required that
      unfolding paths_valid_def by blast
    ultimately show ?thesis
      by (simp add: d stored_path_ok_def)
  qed
  have "''address'' \<notin> set (map fst tops)"
    using names(1) schemas_required(6) by simp
  then have "map_of (fields_json tops) ''address'' = None"
    by (simp add: map_of_eq_None_iff)
  then have "js_get d ''address'' = Some (JObj (fields_json addr))"
    by (simp add: d map_add_def)
  moreover have "stored_path_ok (map_of (fields_json addr)) p" if "p \<in> set address_schema" for p
    using fields_json_lookup [where rest = "[]"] valid(2) names(2) schemas_required that
    unfolding paths_valid_def by (metis append_Nil2)
  ultimately show ?thesis
    using top_ok by (simp add: stored_valid_def)
qed

lemma build_client_doc_keys:
  assumes "build_client_doc c n = Inr d"
  shows "stored_keys d"
proof -
  obtain tops addr where
    tops: "cast_paths client_schema c = Some tops" and
    d: "d = JObj ((''_id'', JStr (object_id n)) # fields_json tops @
                  [(''address'', JObj (fields_json addr))])"
    using assms unfolding build_client_doc_def
    by (auto split: option.splits json.splits if_splits)
  then have "map fst tops = map path_name client_schema" by (simp add: cast_paths_names)
  then have "fst ` set tops = path_name ` set client_schema" by (metis list.set_map)
  then show ?thesis by (auto simp: d stored_keys_def)
qed

lemma stored_keys_no_cep: "stored_keys d \<Longrightarrow> js_get d ''cep'' = None"
  by (cases d) (auto simp: stored_keys_def client_schema_def map_of_eq_None_iff)

lemma unique_violation_None:
  "unique_violation ds doc = None \<Longrightarrow> p \<in> set unique_paths \<Longrightarrow> d \<in> set ds \<Longrightarrow>
   js_get d p \<noteq> js_get doc p"
  by (auto simp: unique_violation_def find_None_iff)

lemma remove_first_subset: "set (remove_first P xs) \<subseteq> set xs"
  by (induction xs) auto

lemma distinct_map_remove_first:
  "distinct (map f xs) \<Longrightarrow> distinct (map f (remove_first P xs))"
  by (induction xs) (use remove_first_subset in fastforce)+

lemma client_save_cases:
  obtains (invalid) e where "build_client_doc c (oid_counter col) = Inl e"
      "client_save c col = (Inl e, col)"
  | (duplicate) doc p where "build_client_doc c (oid_counter col) = Inr doc"
      "unique_violation (docs col) doc = Some p"
      "client_save c col = (Inl (duplicate_key_error p), col\<lparr>oid_counter := Suc (oid_counter col)\<rparr>)"
  | (stored) doc where "build_client_doc c (oid_counter col) = Inr doc"
      "unique_violation (docs col) doc = None"
      "client_save c col = (Inr doc, \<lparr>docs = docs col @ [doc], oid_counter = Suc (oid_counter col)\<rparr>)"
  by (cases "build_client_doc c (oid_counter col)";
      cases "unique_violation (docs col) (projr (build_client_doc c (oid_counter col)))")
     (auto simp: client_save_def)

lemma store_inv_unique:
  "store_inv col \<Longrightarrow>
   distinct (map (\<lambda>d. js_get d ''email'') (docs col)) \<and> distinct (map (\<lambda>d. js_get d ''phone'') (docs col))"
  by (simp add: store_inv_def unique_inv_def unique_paths_def)

lemma client_save_inv: "store_inv col \<Longrightarrow> store_inv (snd (client_save c col))"
proof (cases rule: client_save_cases [of c col])
  case (stored doc)
  assume inv: "store_inv col"
  have "distinct (map (\<lambda>d. js_get d p) (docs col @ [doc]))" if "p \<in> set unique_paths" for p
  proof -
    have "js_get doc p \<notin> (\<lambda>d. js_get d p) ` set (docs col)"
      using unique_violation_None [OF stored(2) that] by fastforce
    with inv that show ?thesis by (simp add: store_inv_def unique_inv_def)
  qed
  with inv build_client_doc_valid [OF stored(1)] show ?thesis
    by (simp add: stored(3) store_inv_def unique_inv_def)
qed (simp_all add: store_inv_def)

lemma client_delete_inv: "store_inv col \<Longrightarrow> store_inv (snd (client_delete_by_id i col))"
  using remove_first_subset distinct_map_remove_first
  by (fastforce simp: client_delete_by_id_def store_inv_def unique_inv_def split: option.splits)

lemma client_save_strict_inv: "strict_inv col \<Longrightarrow> strict_inv (snd (client_save c col))"
  by (cases rule: client_save_cases [of c col]) (auto simp: strict_inv_def build_client_doc_keys)

lemma client_delete_strict_inv: "strict_inv col \<Longrightarrow> strict_inv (snd (client_delete_by_id i col))"
  using remove_first_subset
  by (fastforce simp: client_delete_by_id_def strict_inv_def split: option.splits)

lemma page_of_nat:
  "0 < l \<Longrightarrow> page_of (int k + 1) (int l) xs = Some (take l (drop (k * l) xs))"
  by (simp add: page_of_def apply_limit_def Let_def flip: of_nat_mult)

lemma stored_valid_truthy: "stored_valid d \<Longrightarrow> js_truthy d"
  by (cases d) (auto simp: stored_valid_def)

lemma remove_first_single:
  assumes "filter P xs = [d]"
  shows "find P xs = Some d \<and> d \<in> set xs \<and> remove_first P xs = remove1 d xs \<and>
         find P (remove1 d xs) = None"
  using assms
proof (induction xs)
  case (Cons x xs)
  show ?case
  proof (cases "P x")
    case True
    with Cons.prems have "x = d" "filter P xs = []" by auto
    with True show ?thesis by (simp add: find_None_iff filter_empty_conv)
  next
    case False
    with Cons.prems have "filter P xs = [d]" by simp
    moreover from this have "P d" by (auto simp: filter_eq_Cons_iff)
    ultimately show ?thesis using False Cons.IH by auto
  qed
qed simp

lemma ci_prefix_iff: "ci_prefix pat s \<longleftrightarrow> (\<exists>w. map ascii_lower s = map ascii_lower pat @ w)"
proof
  assume p: "ci_prefix pat s"
  have "map ascii_lower s = map ascii_lower (take (length pat) s) @ map ascii_lower (drop (length pat) s)"
    by (simp flip: map_append)
  with p show "\<exists>w. map ascii_lower s = map ascii_lower pat @ w"
    unfolding ci_prefix_def by auto
next
  assume "\<exists>w. map ascii_lower s = map ascii_lower pat @ w"
  then obtain w where w: "map ascii_lower s = map ascii_lower pat @ w" ..
  have "length (map ascii_lower s) = length (map ascii_lower pat @ w)" using w by (rule arg_cong)
  then have len: "length pat \<le> length s" by simp
  have "take (length pat) (map ascii_lower s) = map ascii_lower pat"
    using w by simp
  with len show "ci_prefix pat s"
    by (simp add: ci_prefix_def take_map)
qed

subsection \<open>Properties of the repository\<close>

text \<open>
  C15. Pagination neither skips nor repeats documents: for a positive \<open>limit\<close>, the pages
  \<open>1, ..., n\<close> returned by \<open>findAll(page, limit)\<close>, concatenated, are the first
  \<open>n * limit\<close> documents of the collection in insertion order.
\<close>

theorem pages_concat:
  assumes "0 < l"
  shows "concat (map (\<lambda>k. case client_find_all (int k + 1) (int l) col of
                               Inr (JArr ds) \<Rightarrow> ds | _ \<Rightarrow> []) [0..<n]) =
         take (n * l) (docs col)"
proof (induction n)
  case (Suc n)
  have "take (Suc n * l) (docs col) = take (n * l) (docs col) @ take l (drop (n * l) (docs col))"
    using take_add [of "n * l" l "docs col"] by (simp add: add.commute)
  with Suc assms show ?case
    by (simp add: client_find_all_def page_of_nat)
qed simp


theorem pages_concat_witness:
  "0 < (2::nat) \<and>
   concat (map (\<lambda>k. case client_find_all (int k + 1) (int 2) \<lparr>docs = [JNum 1, JNum 2, JNum 3], oid_counter = 3\<rparr> of
                       Inr (JArr ds) \<Rightarrow> ds | _ \<Rightarrow> []) [0..<2]) =
   take (2 * 2) [JNum 1, JNum 2, JNum 3]"
  using pages_concat [of 2 "\<lparr>docs = [JNum 1, JNum 2, JNum 3], oid_counter = 3\<rparr>" 2] by simp

text \<open>
  C14. The unique index of \<open>email\<close> rejects a second client with a stored email: when
  the new document is valid and a stored document has the same email, \<open>save\<close> rejects
  with MongoDB's duplicate-key error (E11000) on index \<open>email_1\<close> and stores nothing.
\<close>

theorem client_save_duplicate_rejected:
  assumes "build_client_doc c (oid_counter col) = Inr doc" "d \<in> set (docs col)"
    "js_get d ''email'' = js_get doc ''email''"
  shows "fst (client_save c col) = Inl (duplicate_key_error ''email'') \<and>
         docs (snd (client_save c col)) = docs col"
proof -
  have "unique_violation (docs col) doc = Some ''email''"
    using assms(2,3) by (auto simp: unique_violation_def unique_paths_def)
  with assms(1) show ?thesis by (simp add: client_save_def)
qed

theorem client_save_duplicate_rejected_witness:
  "fst (client_save sample_request \<lparr>docs = [sample_doc], oid_counter = 1\<rparr>) =
     Inl (duplicate_key_error ''email'') \<and>
   docs (snd (client_save sample_request \<lparr>docs = [sample_doc], oid_counter = 1\<rparr>)) = [sample_doc]"
proof -
  let ?col = "\<lparr>docs = [sample_doc], oid_counter = 1\<rparr>"
  let ?doc = "JObj [(''_id'', JStr (object_id 1)),
     (''name'', JStr ''Bia''), (''email'', JStr ''ana@x.io''), (''phone'', JStr ''21999998888''),
     (''address'', JObj [(''cep'', JStr ''20040002''), (''street'', JStr ''Rua A''),
        (''neighborhood'', JStr ''Centro''), (''city'', JStr ''Rio''), (''state'', JStr ''RJ'')])]"
  have "build_client_doc sample_request (oid_counter ?col) = Inr ?doc"
    unfolding sample_request_def by code_simp
  moreover have "js_get sample_doc ''email'' = js_get ?doc ''email''"
    by (simp add: sample_doc_def)
  ultimately show ?thesis
    using client_save_duplicate_rejected [of sample_request ?col ?doc sample_doc] by simp
qed


text \<open>\<open>ci_infix pat s\<close>: \<open>s\<close> with ASCII letters folded contains \<open>pat\<close> folded the
  same way.\<close>

lemma ci_infix_iff:
  "ci_infix pat s \<longleftrightarrow> (\<exists>u w. map ascii_lower s = u @ map ascii_lower pat @ w)"
proof (induction s)
  case Nil
  then show ?case by simp
next
  case (Cons c cs)
  show ?case
  proof
    assume "ci_infix pat (c # cs)"
    then consider "ci_prefix pat (c # cs)" | "ci_infix pat cs" by auto
    then show "\<exists>u w. map ascii_lower (c # cs) = u @ map ascii_lower pat @ w"
    proof cases
      case 1
      then obtain w where "map ascii_lower (c # cs) = map ascii_lower pat @ w"
        unfolding ci_prefix_iff ..
      then have "map ascii_lower (c # cs) = [] @ map ascii_lower pat @ w" by simp
      then show ?thesis by blast
    next
      case 2
      with Cons.IH obtain u w where "map ascii_lower cs = u @ map ascii_lower pat @ w" by blast
      then have "map ascii_lower (c # cs) = (ascii_lower c # u) @ map ascii_lower pat @ w" by simp
      then show ?thesis by blast
    qed
  next
    assume "\<exists>u w. map ascii_lower (c # cs) = u @ map ascii_lower pat @ w"
    then obtain u w where uw: "map ascii_lower (c # cs) = u @ map ascii_lower pat @ w" by blast
    show "ci_infix pat (c # cs)"
    proof (cases u)
      case Nil
      with uw have "ci_prefix pat (c # cs)" unfolding ci_prefix_iff by auto
      then show ?thesis by simp
    next
      case (Cons x u')
      with uw have "map ascii_lower cs = u' @ map ascii_lower pat @ w" by simp
      with Cons.IH have "ci_infix pat cs" by blast
      then show ?thesis by simp
    qed
  qed
qed

text \<open>The filter \<open>findByName\<close> applies for a literal pattern, as the spec states it.\<close>

lemma name_filter_spec:
  "(\<lambda>d. case js_get d ''name'' of Some (JStr n) \<Rightarrow> ci_infix pat n | _ \<Rightarrow> False) =
   (\<lambda>d. \<exists>n. js_get d ''name'' = Some (JStr n) \<and> (\<exists>u w. map ascii_lower n = u @ map ascii_lower pat @ w))"
proof (rule ext)
  fix d
  show "(case js_get d ''name'' of Some (JStr n) \<Rightarrow> ci_infix pat n | _ \<Rightarrow> False) =
        (\<exists>n. js_get d ''name'' = Some (JStr n) \<and> (\<exists>u w. map ascii_lower n = u @ map ascii_lower pat @ w))"
    by (cases "js_get d ''name''") (auto simp: ci_infix_iff split: json.splits)
qed



lemma stored_valid_bounds:
  assumes "stored_valid d"
  shows "\<exists>p e kvs c st. js_get d ''phone'' = Some (JStr p) \<and> js_get d ''email'' = Some (JStr e) \<and>
           js_get d ''address'' = Some (JObj kvs) \<and> map_of kvs ''cep'' = Some (JStr c) \<and>
           map_of kvs ''state'' = Some (JStr st) \<and>
           (\<forall>x \<in> set p. is_digit x) \<and> 10 \<le> length p \<and> length p \<le> 20 \<and>
           e \<noteq> [] \<and> utf16_length e \<le> 255 \<and>
           (\<forall>x \<in> set c. is_digit x) \<and> length c = 8 \<and> st \<noteq> [] \<and> utf16_length st \<le> 2"
proof -
  have "stored_path_ok (js_get d) p" if "p \<in> set client_schema" for p
    using assms that by (simp add: stored_valid_def)
  from this [of "client_schema ! 1"] this [of "client_schema ! 2"]
  obtain p e where p: "js_get d ''phone'' = Some (JStr p)" "phone_match p"
    and e: "js_get d ''email'' = Some (JStr e)" "e \<noteq> []" "utf16_length e \<le> 255"
    by (auto simp: client_schema_def stored_path_ok_def path_valid_def split: option.splits json.splits)
  from assms obtain kvs where kvs: "js_get d ''address'' = Some (JObj kvs)"
    "\<forall>q \<in> set address_schema. stored_path_ok (map_of kvs) q"
    by (auto simp: stored_valid_def split: option.splits json.splits)
  from kvs(2) [rule_format, of "address_schema ! 0"] kvs(2) [rule_format, of "address_schema ! 4"]
  obtain c st where c: "map_of kvs ''cep'' = Some (JStr c)" "cep_match c"
    and st: "map_of kvs ''state'' = Some (JStr st)" "st \<noteq> []" "utf16_length st \<le> 2"
    by (auto simp: address_schema_def stored_path_ok_def path_valid_def split: option.splits json.splits)
  show ?thesis
    using p e c st kvs(1) by (auto simp: phone_match_def cep_match_def)
qed

lemma client_save_Inr:
  "client_save c col = (Inr d, col') \<Longrightarrow>
   build_client_doc c (oid_counter col) = Inr d \<and> docs col' = docs col @ [d]"
  by (cases rule: client_save_cases [of c col]) auto

text \<open>
  C27. Bounds on what \<open>save\<close> stores: a document that \<open>save\<close> returns is
  appended to the collection, its phone is 10 to 20 decimal digits, its email is non-empty
  and at most 255 UTF-16 units, and its address has an 8-digit CEP and a state of one or
  two UTF-16 units.
\<close>

theorem stored_field_bounds:
  assumes "client_save c col = (Inr d, col')"
  shows "d \<in> set (docs col') \<and> (\<exists>p e kvs c st. js_get d ''phone'' = Some (JStr p) \<and> js_get d ''email'' = Some (JStr e) \<and>
           js_get d ''address'' = Some (JObj kvs) \<and> map_of kvs ''cep'' = Some (JStr c) \<and>
           map_of kvs ''state'' = Some (JStr st) \<and>
           (\<forall>x \<in> set p. is_digit x) \<and> 10 \<le> length p \<and> length p \<le> 20 \<and>
           e \<noteq> [] \<and> utf16_length e \<le> 255 \<and>
           (\<forall>x \<in> set c. is_digit x) \<and> length c = 8 \<and> st \<noteq> [] \<and> utf16_length st \<le> 2)"
proof -
  from client_save_Inr [OF assms] have "build_client_doc c (oid_counter col) = Inr d"
    and "docs col' = docs col @ [d]" by simp_all
  then show ?thesis using build_client_doc_valid stored_valid_bounds by auto
qed

theorem stored_field_bounds_witness:
  "\<exists>d col'. client_save sample_request \<lparr>docs = [], oid_counter = 0\<rparr> = (Inr d, col') \<and>
     d \<in> set (docs col') \<and> (\<exists>p e kvs c st. js_get d ''phone'' = Some (JStr p) \<and> js_get d ''email'' = Some (JStr e) \<and>
       js_get d ''address'' = Some (JObj kvs) \<and> map_of kvs ''cep'' = Some (JStr c) \<and>
       map_of kvs ''state'' = Some (JStr st) \<and>
       (\<forall>x \<in> set p. is_digit x) \<and> 10 \<le> length p \<and> length p \<le> 20 \<and>
       e \<noteq> [] \<and> utf16_length e \<le> 255 \<and>
       (\<forall>x \<in> set c. is_digit x) \<and> length c = 8 \<and> st \<noteq> [] \<and> utf16_length st \<le> 2)"
proof -
  let ?doc = "JObj [(''_id'', JStr (object_id 0)),
     (''name'', JStr ''Bia''), (''email'', JStr ''ana@x.io''), (''phone'', JStr ''21999998888''),
     (''address'', JObj [(''cep'', JStr ''20040002''), (''street'', JStr ''Rua A''),
        (''neighborhood'', JStr ''Centro''), (''city'', JStr ''Rio''), (''state'', JStr ''RJ'')])]"
  have s: "client_save sample_request \<lparr>docs = [], oid_counter = 0\<rparr> =
             (Inr ?doc, \<lparr>docs = [?doc], oid_counter = 1\<rparr>)"
    unfolding sample_request_def by code_simp
  show ?thesis using s stored_field_bounds [OF s] by blast
qed

text \<open>
  C28. \<open>findByCep\<close> never finds a client by its postal code: on a collection written by
  \<open>save\<close>, where strict mode has dropped the request's \<open>cep\<close>, it answers
  \<open>null\<close> for every string when \<open>strictQuery\<close> is off and the first client,
  whatever the string, when it is on.
\<close>

theorem client_find_by_cep_result:
  assumes "strict_inv col"
  shows "client_find_by_cep strict cep col =
           (if strict \<and> docs col \<noteq> [] then Inr (hd (docs col)) else Inr JNull)"
proof (cases strict)
  case True
  then show ?thesis by (cases "docs col") (simp_all add: client_find_by_cep_def)
next
  case False
  have "find (\<lambda>d. js_get d ''cep'' = Some (JStr cep)) (docs col) = None"
    using assms stored_keys_no_cep by (auto simp: strict_inv_def find_None_iff)
  with False show ?thesis by (simp add: client_find_by_cep_def)
qed

theorem client_find_by_cep_result_witness:
  "strict_inv \<lparr>docs = [sample_doc], oid_counter = 1\<rparr> \<and>
   client_find_by_cep False ''01001000'' \<lparr>docs = [sample_doc], oid_counter = 1\<rparr> = Inr JNull \<and>
   client_find_by_cep True ''99999999'' \<lparr>docs = [sample_doc], oid_counter = 1\<rparr> = Inr sample_doc"
proof -
  have inv: "strict_inv \<lparr>docs = [sample_doc], oid_counter = 1\<rparr>"
    unfolding strict_inv_def stored_keys_def sample_doc_def client_schema_def by simp
  show ?thesis
    using inv client_find_by_cep_result [OF inv, of False] client_find_by_cep_result [OF inv, of True]
    by simp
qed

lemma stored_path_str: "stored_path_ok get p \<Longrightarrow> \<exists>s. get (path_name p) = Some (JStr s)"
  by (auto simp: stored_path_ok_def split: option.splits json.splits)

lemma stored_typed:
  assumes "stored_valid d" "stored_keys d"
  shows "is_iclient d \<and> \<not> is_client d"
proof -
  from assms have v: "stored_valid d" and k: "stored_keys d" by simp_all
  then obtain kvs where d: "d = JObj kvs" by (cases d) (simp_all add: stored_keys_def)
  have top: "is_str_prop d (path_name p)" if "p \<in> set client_schema" for p
    using stored_path_str v that by (fastforce simp: stored_valid_def is_str_prop_def)
  obtain akvs where a: "js_get d ''address'' = Some (JObj akvs)"
    and aok: "\<forall>p \<in> set address_schema. stored_path_ok (map_of akvs) p"
    using v by (auto simp: stored_valid_def split: option.splits json.splits)
  have "\<forall>k \<in> path_name ` set address_schema. is_str_prop (JObj akvs) k"
    using stored_path_str aok by (fastforce simp: is_str_prop_def)
  then have "is_iaddress (JObj akvs)" by (simp add: is_iaddress_def address_schema_def)
  moreover have "\<forall>k \<in> path_name ` set client_schema. is_str_prop d k" using top by blast
  then have "list_all (is_str_prop d) [''name'', ''email'', ''phone'']"
    by (simp add: client_schema_def)
  moreover have "\<not> is_str_prop d ''cep''"
    using stored_keys_no_cep [OF k] by (simp add: is_str_prop_def)
  ultimately show ?thesis using a by (simp add: is_iclient_def is_client_def d)
qed

text \<open>
  C34. The repository's documents against the TypeScript types: a document that
  \<open>save\<close> stores has the shape of the Mongoose interface \<open>IClient\<close>
  (string name, email and phone, an embedded \<open>IAddress\<close> of strings), and is not a
  \<open>Client\<close> of the domain, which \<open>ClientRepository\<close> promises, since strict mode
  has dropped its \<open>cep\<close>.
\<close>

theorem stored_docs_typed:
  assumes "client_save c col = (Inr d, col')"
  shows "d \<in> set (docs col') \<and> is_iclient d \<and> \<not> is_client d"
proof -
  from client_save_Inr [OF assms] have b: "build_client_doc c (oid_counter col) = Inr d"
    and "docs col' = docs col @ [d]" by simp_all
  then show ?thesis
    using stored_typed [OF build_client_doc_valid [OF b] build_client_doc_keys [OF b]] by simp
qed

theorem stored_docs_typed_witness:
  "\<exists>d col'. client_save sample_request \<lparr>docs = [], oid_counter = 0\<rparr> = (Inr d, col') \<and>
     d \<in> set (docs col') \<and> is_iclient d \<and> \<not> is_client d"
proof -
  let ?doc = "JObj [(''_id'', JStr (object_id 0)),
     (''name'', JStr ''Bia''), (''email'', JStr ''ana@x.io''), (''phone'', JStr ''21999998888''),
     (''address'', JObj [(''cep'', JStr ''20040002''), (''street'', JStr ''Rua A''),
        (''neighborhood'', JStr ''Centro''), (''city'', JStr ''Rio''), (''state'', JStr ''RJ'')])]"
  have s: "client_save sample_request \<lparr>docs = [], oid_counter = 0\<rparr> =
             (Inr ?doc, \<lparr>docs = [?doc], oid_counter = 1\<rparr>)"
    unfolding sample_request_def by code_simp
  show ?thesis using s stored_docs_typed [OF s] by blast
qed

end
