(* ===== verification/World.thy ===== *)
theory World
  imports Client_Service Mongo_Store
begin

text \<open>
  One concrete implementation of every request of \<open>Effects\<close>: the world the deployed
  service runs in. Redis (src/infrastructure/cache/redisClient.ts) is a store of strings with
  absolute expiry times read against a clock in seconds; axios answers from a table of URLs;
  \<open>uuidv4\<close> draws from a sequence; \<open>console.error\<close> appends to a log; the address
  repository is the module-level array of src/interfaces/repositories/AddressRepositoryImpl.ts;
  the client repository is the collection of \<open>Mongo_Store\<close>. \<open>world_step\<close> dispatches a
  request to its implementation, which may never answer it (a Redis client reconnecting to a
  server that refuses every attempt, an HTTP server that never replies); \<open>prun world_step\<close>
  runs a service method in a world. \<open>world_handler\<close> is the total handler of the worlds
  where every request settles, and \<open>run world_handler\<close> is exact there.
  The world also holds the state of the MongoDB and Redis connections, stdout and the exit
  code: start-up (\<open>Startup\<close>) changes them, and while MongoDB is not connected every
  client repository call fails with Mongoose's buffering timeout after its local checks.
\<close>

text \<open>What a server does with an HTTP request: answer with a status and a body, fail at the
  network level, or accept the connection and never answer.\<close>

datatype http_reply = HttpReply nat json | NetworkFailure string | NoReply

text \<open>The states of the node-redis client: created and not yet connected
  (\<open>RedisClosed\<close>), open and ready (\<open>RedisReady\<close>), open with a socket the server
  is about to drop (\<open>RedisLost\<close>: the next command is in flight when it closes), and
  open but not ready while the reconnect loop runs (\<open>RedisConnecting\<close>).\<close>

datatype redis_conn = RedisClosed | RedisReady | RedisLost | RedisConnecting

record world =
  clock :: nat
  redis_conn :: redis_conn
  redis_store :: "string \<Rightarrow> (string \<times> nat) option"
  web :: "string \<Rightarrow> http_reply"
  uuid_source :: "nat \<Rightarrow> string"
  uuid_count :: nat
  address_list :: "json list"
  clients :: client_collection
  regex :: regex_engine
  console_log :: "(string \<times> exn) list"
  stdout :: "(string \<times> exn option) list"
  mongo_reachable :: bool
  mongo_connected :: bool
  redis_accepts :: "nat \<Rightarrow> bool"
  exit_code :: "nat option"
  strict_query :: bool

subsection \<open>Redis\<close>

text \<open>
  On a ready client, \<open>GET\<close> answers the value of a key whose expiry lies in the future and
  \<open>null\<close> otherwise; \<open>SET key value EX s\<close> stores the value with expiry \<open>now + s\<close>,
  replacing any earlier value and expiry, and answers \<open>'OK'\<close>. The client accepts only
  string keys.
\<close>

definition redis_closed_error :: exn where
  "redis_closed_error = Error ''ClientClosedError'' ''The client is closed''"

definition redis_type_error :: exn where
  "redis_type_error = Error ''TypeError'' ''Invalid argument type''"

definition redis_lookup :: "world \<Rightarrow> string \<Rightarrow> string option" where
  "redis_lookup w k =
     (case redis_store w k of
        Some (v, expiry) \<Rightarrow> if clock w < expiry then Some v else None
      | None \<Rightarrow> None)"

definition redis_get :: "json \<Rightarrow> world \<Rightarrow> response \<times> world" where
  "redis_get key w =
     (case key of
        JStr k \<Rightarrow> (case redis_lookup w k of Some v \<Rightarrow> (Inr (JStr v), w) | None \<Rightarrow> (Inr JNull, w))
      | _ \<Rightarrow> (Inl redis_type_error, w))"

definition redis_set :: "json \<Rightarrow> string \<Rightarrow> nat \<Rightarrow> world \<Rightarrow> response \<times> world" where
  "redis_set key v ex w =
     (case key of
        JStr k \<Rightarrow> (Inr (JStr ''OK''), w\<lparr>redis_store := (redis_store w)(k \<mapsto> (v, clock w + ex))\<rparr>)
      | _ \<Rightarrow> (Inl redis_type_error, w))"

text \<open>
  The connection. \<open>redisClient.connect()\<close> runs node-redis's connect loop: each failed
  attempt emits \<open>error\<close>, which the listener of redisClient.ts line 7 prints as
  \<open>Redis Client Error\<close>, then waits (the default strategy, \<open>min(retries * 50, 500)\<close>
  ms) and tries again, with no limit; the promise settles only when an attempt succeeds. The
  environment decides which attempts succeed (\<open>redis_accepts\<close>, by the attempt's index).
  \<open>redis_retry\<close> is the loop: the index of the first successful attempt from \<open>n\<close> on,
  \<open>None\<close> when there is none and the loop never ends.
\<close>

definition redis_connect_error :: exn where
  "redis_connect_error = Error ''Error'' ''connect ECONNREFUSED''"

definition redis_socket_closed_error :: exn where
  "redis_socket_closed_error = Error ''SocketClosedUnexpectedlyError'' ''Socket closed unexpectedly''"

definition redis_already_open_error :: exn where
  "redis_already_open_error = Error ''Error'' ''Socket already opened''"

definition redis_error_listener :: "exn \<Rightarrow> world \<Rightarrow> world" where
  "redis_error_listener e w = w\<lparr>stdout := stdout w @ [(''Redis Client Error'', Some e)]\<rparr>"

partial_function (option) redis_retry :: "(nat \<Rightarrow> bool) \<Rightarrow> nat \<Rightarrow> nat option" where
  "redis_retry accepts n = (if accepts n then Some n else redis_retry accepts (Suc n))"

text \<open>The loop as a whole: the \<open>k\<close> failed attempts before the first successful one each
  run the \<open>error\<close> listener once, then the client is ready.\<close>

definition redis_reconnect :: "world \<Rightarrow> world option" where
  "redis_reconnect w =
     map_option (\<lambda>k. ((redis_error_listener redis_connect_error ^^ k) w)\<lparr>redis_conn := RedisReady\<rparr>)
       (redis_retry (redis_accepts w) 0)"

text \<open>\<open>connect()\<close> on a client that is already open rejects.\<close>

definition redis_connect :: "world \<Rightarrow> (response \<times> world) option" where
  "redis_connect w =
     (case redis_conn w of
        RedisClosed \<Rightarrow> map_option (\<lambda>w'. (Inr JNull, w')) (redis_reconnect w)
      | _ \<Rightarrow> Some (Inl redis_already_open_error, w))"

text \<open>
  A command: a client that was never connected rejects it; a ready one runs it; when the
  socket drops with the command in flight, the command rejects, the listener prints the error
  and the client starts reconnecting; a command sent while the client reconnects waits in the
  offline queue and runs once the loop succeeds, and never settles when it does not.
\<close>

definition redis_command ::
    "(world \<Rightarrow> response \<times> world) \<Rightarrow> world \<Rightarrow> (response \<times> world) option" where
  "redis_command f w =
     (case redis_conn w of
        RedisClosed \<Rightarrow> Some (Inl redis_closed_error, w)
      | RedisReady \<Rightarrow> Some (f w)
      | RedisLost \<Rightarrow>
          Some (Inl redis_socket_closed_error,
                redis_error_listener redis_socket_closed_error (w\<lparr>redis_conn := RedisConnecting\<rparr>))
      | RedisConnecting \<Rightarrow> map_option f (redis_reconnect w))"

subsection \<open>HTTP, UUIDs and the console\<close>

text \<open>\<open>axios.get\<close> resolves with \<open>{ data, status }\<close> for a 2xx status and rejects with an
  \<open>AxiosError\<close> for any other status or a network failure. No timeout is configured
  (axios's default is none), so a server that never answers leaves the promise pending.\<close>

definition axios_get :: "string \<Rightarrow> world \<Rightarrow> (response \<times> world) option" where
  "axios_get url w =
     (case web w url of
        HttpReply status body \<Rightarrow>
          if 200 \<le> status \<and> status < 300
          then Some (Inr (JObj [(''data'', body), (''status'', JNum (int status))]), w)
          else Some (Inl (Error ''AxiosError'' (''Request failed with status code '' @ nat_digits status)), w)
      | NetworkFailure msg \<Rightarrow> Some (Inl (Error ''AxiosError'' msg), w)
      | NoReply \<Rightarrow> None)"

definition uuid_v4 :: "world \<Rightarrow> response \<times> world" where
  "uuid_v4 w = (Inr (JStr (uuid_source w (uuid_count w))), w\<lparr>uuid_count := Suc (uuid_count w)\<rparr>)"

definition console_error :: "string \<Rightarrow> exn \<Rightarrow> world \<Rightarrow> response \<times> world" where
  "console_error t e w = (Inr JNull, w\<lparr>console_log := console_log w @ [(t, e)]\<rparr>)"

subsection \<open>The address repository\<close>

text \<open>\<open>addresses.find(address => address.cep === cep) || null\<close> and
  \<open>addresses.push(address)\<close>. \<open>find\<close> calls the arrow function on each element in
  order: on a \<open>null\<close> element, reading \<open>address.cep\<close> throws a \<open>TypeError\<close>,
  which rejects the promise \<open>findByCep\<close> returns.\<close>

fun addresses_find :: "json \<Rightarrow> json list \<Rightarrow> exn + json option" where
  "addresses_find cep [] = Inr None"
| "addresses_find cep (a # as) =
     (if a = JNull then Inl (read_error (Some JNull) ''cep'')
      else if js_strict_eq (js_get a ''cep'') (Some cep) then Inr (Some a)
      else addresses_find cep as)"

definition address_find_by_cep :: "json \<Rightarrow> world \<Rightarrow> response" where
  "address_find_by_cep cep w =
     (case addresses_find cep (address_list w) of
        Inl e \<Rightarrow> Inl e
      | Inr (Some a) \<Rightarrow> if js_truthy a then Inr a else Inr JNull
      | Inr None \<Rightarrow> Inr JNull)"

definition address_save :: "json \<Rightarrow> world \<Rightarrow> response \<times> world" where
  "address_save a w = (Inr JNull, w\<lparr>address_list := address_list w @ [a]\<rparr>)"

subsection \<open>Connections and the process\<close>

text \<open>
  \<open>mongoose.connect\<close> succeeds when the server is reachable and rejects otherwise. Until a
  connection is open, Mongoose buffers every model operation and rejects it after
  \<open>bufferTimeoutMS\<close> (10 seconds). \<open>process.exit\<close> records the exit code; the process
  runs nothing after it.
\<close>

definition mongo_connect_error :: exn where
  "mongo_connect_error = Error ''MongooseServerSelectionError'' ''connect ECONNREFUSED''"

definition mongo_buffer_error :: "string \<Rightarrow> exn" where
  "mongo_buffer_error op =
     Error ''MongooseError'' (''Operation `clients.'' @ op @ ''()` buffering timed out after 10000ms'')"

definition mongo_connect :: "world \<Rightarrow> response \<times> world" where
  "mongo_connect w =
     (if mongo_reachable w then (Inr JNull, w\<lparr>mongo_connected := True\<rparr>) else (Inl mongo_connect_error, w))"

definition console_log_line :: "string \<Rightarrow> world \<Rightarrow> response \<times> world" where
  "console_log_line t w = (Inr JNull, w\<lparr>stdout := stdout w @ [(t, None)]\<rparr>)"

definition process_exit :: "nat \<Rightarrow> world \<Rightarrow> response \<times> world" where
  "process_exit n w = (Inr JNull, w\<lparr>exit_code := Some n\<rparr>)"

subsection \<open>The handler\<close>

text \<open>A model operation runs only on an open connection. Without one, what Mongoose checks
  locally (the cast of the query, the validation of a document, the \<open>RegExp\<close> built by the
  repository) still fails first, with \<open>pre\<close>; otherwise the operation, named \<open>op\<close>,
  waits in the buffer and times out.\<close>

definition local_error :: "exn + 'a \<Rightarrow> exn option" where
  "local_error r = (case r of Inl e \<Rightarrow> Some e | Inr _ \<Rightarrow> None)"

definition on_mongo ::
    "string \<Rightarrow> exn option \<Rightarrow> (world \<Rightarrow> response \<times> world) \<Rightarrow> world \<Rightarrow> response \<times> world" where
  "on_mongo op pre f w =
     (if mongo_connected w then f w
      else (Inl (case pre of Some e \<Rightarrow> e | None \<Rightarrow> mongo_buffer_error op), w))"

definition on_clients :: "(client_collection \<Rightarrow> response \<times> client_collection) \<Rightarrow> world \<Rightarrow> response \<times> world" where
  "on_clients f w = (case f (clients w) of (r, col) \<Rightarrow> (r, w\<lparr>clients := col\<rparr>))"

fun world_step :: "world \<Rightarrow> request \<Rightarrow> (response \<times> world) option" where
  "world_step w (RedisGet k) = redis_command (redis_get k) w"
| "world_step w (RedisSet k v ex) = redis_command (redis_set k v ex) w"
| "world_step w (AxiosGet url) = axios_get url w"
| "world_step w (ConsoleError t e) = Some (console_error t e w)"
| "world_step w UuidV4 = Some (uuid_v4 w)"
| "world_step w (FindByEmailOrPhone e p) =
     Some (on_mongo ''findOne'' (local_error (client_find_by_email_or_phone e p (clients w)))
             (\<lambda>w. (client_find_by_email_or_phone e p (clients w), w)) w)"
| "world_step w (ClientSave c) =
     Some (on_mongo ''insertOne'' (local_error (build_client_doc c (oid_counter (clients w))))
             (on_clients (client_save c)) w)"
| "world_step w (ClientFindAll page limit) =
     Some (on_mongo ''find'' None (\<lambda>w. (client_find_all page limit (clients w), w)) w)"
| "world_step w (ClientFindById i) =
     Some (on_mongo ''findOne'' (local_error (client_find_by_id i (clients w)))
             (\<lambda>w. (client_find_by_id i (clients w), w)) w)"
| "world_step w (ClientDeleteById i) =
     Some (on_mongo ''findOneAndDelete'' (local_error (fst (client_delete_by_id i (clients w))))
             (on_clients (client_delete_by_id i)) w)"
| "world_step w (ClientFindByName n page limit) =
     Some (on_mongo ''find''
             (if name_matcher (regex w) (regexp_source n) = None then Some regex_syntax_error else None)
             (\<lambda>w. (client_find_by_name (regex w) n page limit (clients w), w)) w)"
| "world_step w (ClientFindByCep c) =
     Some (on_mongo ''findOne'' None (\<lambda>w. (client_find_by_cep (strict_query w) c (clients w), w)) w)"
| "world_step w (AddressSave a) = Some (address_save a w)"
| "world_step w (AddressFindByCep c) = Some (address_find_by_cep c w, w)"
| "world_step w (MongoConnect url) = Some (mongo_connect w)"
| "world_step w RedisConnect = redis_connect w"
| "world_step w (ConsoleLog t) = Some (console_log_line t w)"
| "world_step w (ProcessExit n) = Some (process_exit n w)"

text \<open>The handler of a world in which every request settles: where \<open>world_step\<close> never
  answers, it answers \<open>pending_error\<close> instead. \<open>run world_handler\<close> is the run of the
  program in such a world; \<open>world_step_live\<close> shows that it is exact as long as Redis
  accepts some connection attempt, and \<open>prun world_step\<close> is the run in every world.\<close>

definition pending_error :: exn where
  "pending_error = Error ''Pending'' ''The promise never settles''"

definition world_handler :: "world \<Rightarrow> request \<Rightarrow> response \<times> world" where
  "world_handler w q = (case world_step w q of Some r \<Rightarrow> r | None \<Rightarrow> (Inl pending_error, w))"

subsection \<open>A process start\<close>

text \<open>\<open>const addresses: Address[] = []\<close>: the address repository starts empty in every
  process.\<close>

definition addresses_init :: "json list" where
  "addresses_init = []"

text \<open>A new process in an environment \<open>w\<close>: the servers keep their state (the Redis data,
  the collection, what is reachable); the process-local state is fresh. The Redis client is
  created but not connected, Mongoose has no connection, the address array is
  \<open>addresses_init\<close>, nothing is printed and the process has not exited.\<close>

definition process_start :: "world \<Rightarrow> world" where
  "process_start w =
     w\<lparr>redis_conn := RedisClosed, mongo_connected := False, address_list := addresses_init,
       console_log := [], stdout := [], exit_code := None\<rparr>"

subsection \<open>A sample world: the registration of the test suite, deployed\<close>

text \<open>
  Redis and MongoDB are up and connected, \<open>strictQuery\<close> is off (the default since
  Mongoose 7), Redis is empty, ViaCEP knows the CEP of the test suite and every other URL
  fails, the collection is empty. \<open>joao_rival\<close> registers a second client with the same email;
  \<open>race_schedule\<close> lets both registrations pass the duplicate check before either saves.
  \<open>se_address\<close> is ViaCEP's normalised address and \<open>joao_doc\<close> the document Mongo stores for the first registration.
\<close>

definition sp_world :: world where
  "sp_world = \<lparr>clock = 1000, redis_conn = RedisReady, redis_store = Map.empty,
     web = (\<lambda>url. if url = viacep_url (JStr ''01001000'') then HttpReply 200 se_viacep_data
                  else NetworkFailure ''getaddrinfo ENOTFOUND''),
     uuid_source = (\<lambda>n. if n = 0 then ''uuid-0'' else ''uuid-1''), uuid_count = 0, address_list = [],
     clients = \<lparr>docs = [], oid_counter = 0\<rparr>, regex = (\<lambda>_. None), console_log = [], stdout = [],
     mongo_reachable = True, mongo_connected = True, redis_accepts = (\<lambda>_. True), exit_code = None,
     strict_query = False\<rparr>"

definition joao_rival :: json where
  "joao_rival = JObj [(''name'', JStr ''Joana''), (''email'', JStr ''joao@example.com''),
                      (''phone'', JStr ''1188776655''), (''cep'', JStr ''01001000'')]"

definition race_schedule :: "bool list" where
  "race_schedule = [True, False, True, True, True, True, True, True, False, False, False]"

definition se_address :: json where
  "se_address =
     JObj [(''cep'', JStr ''01001000''),
           (''street'', JStr (''Pra'' @ [CHR 0xC3, CHR 0xA7] @ ''a da S'' @ [CHR 0xC3, CHR 0xA9])),
           (''neighborhood'', JStr (''S'' @ [CHR 0xC3, CHR 0xA9])),
           (''city'', JStr (''S'' @ [CHR 0xC3, CHR 0xA3] @ ''o Paulo'')),
           (''state'', JStr ''SP'')]"

definition joao_doc :: json where
  "joao_doc =
     JObj [(''_id'', JStr (object_id 0)), (''name'', JStr (''Jo'' @ [CHR 0xC3, CHR 0xA3] @ ''o'')),
           (''email'', JStr ''joao@example.com''), (''phone'', JStr ''1199887766''),
           (''address'', se_address)]"

subsection \<open>Facts about the world\<close>

lemmas world_defs = redis_get_def redis_set_def axios_get_def uuid_v4_def console_error_def
  address_save_def on_clients_def on_mongo_def local_error_def
  mongo_connect_def redis_connect_def redis_error_listener_def console_log_line_def process_exit_def
  redis_command_def redis_reconnect_def

declare world_handler_def [simp]

lemma redis_retry_accepts [simp]: "accepts n \<Longrightarrow> redis_retry accepts n = Some n"
  by (simp add: redis_retry.simps)

lemma parse_of_stringify: "json_wf v \<Longrightarrow> json_parse (json_stringify v) = Some v"
  using parse_stringify(1) [of v "[]" "Suc (length (json_stringify v))"] json_fuel_bound(1) [of v]
  by (simp add: json_parse_def)

subsection \<open>The reconnect loop\<close>

lemma redis_retry_Some:
  assumes "redis_retry accepts n = Some k"
  shows "n \<le> k \<and> accepts k \<and> (\<forall>i. n \<le> i \<and> i < k \<longrightarrow> \<not> accepts i)"
proof (rule redis_retry.raw_induct
    [where P = "\<lambda>accepts n k. n \<le> k \<and> accepts k \<and> (\<forall>i. n \<le> i \<and> i < k \<longrightarrow> \<not> accepts i)", OF _ assms])
  fix f :: "(nat \<Rightarrow> bool) \<Rightarrow> nat \<Rightarrow> nat option" and accepts n k
  assume IH: "\<And>accepts n k. f accepts n = Some k \<Longrightarrow>
                n \<le> k \<and> accepts k \<and> (\<forall>i. n \<le> i \<and> i < k \<longrightarrow> \<not> accepts i)"
    and eq: "(if accepts n then Some n else f accepts (Suc n)) = Some k"
  show "n \<le> k \<and> accepts k \<and> (\<forall>i. n \<le> i \<and> i < k \<longrightarrow> \<not> accepts i)"
  proof (cases "accepts n")
    case True
    with eq have "k = n" by simp
    with True show ?thesis using leD by blast
  next
    case False
    with eq have "f accepts (Suc n) = Some k" by simp
    then have h: "Suc n \<le> k" "accepts k" "\<forall>i. Suc n \<le> i \<and> i < k \<longrightarrow> \<not> accepts i"
      using IH by blast+
    have "\<not> accepts i" if "n \<le> i" "i < k" for i
    proof (cases "i = n")
      case True
      with False show ?thesis by simp
    next
      case False
      with that h(3) show ?thesis by (simp add: Suc_le_eq)
    qed
    with h show ?thesis by simp
  qed
qed

lemma redis_retry_refused: 
  assumes "\<not> accepts n"
  shows "redis_retry accepts n = redis_retry accepts (Suc n)"
proof -
  have "redis_retry accepts n = (if accepts n then Some n else redis_retry accepts (Suc n))"
    by (rule redis_retry.simps)
  with assms show ?thesis by (simp only: if_False)
qed

lemma redis_retry_terminates: "accepts k \<Longrightarrow> n \<le> k \<Longrightarrow> \<exists>j. redis_retry accepts n = Some j"
proof (induction "k - n" arbitrary: n)
  case 0
  then show ?case using redis_retry_accepts by (metis diff_is_0_eq le_antisym)
next
  case (Suc d)
  show ?case
  proof (cases "accepts n")
    case True
    then show ?thesis using redis_retry_accepts by blast
  next
    case False
    have "d = k - Suc n" "Suc n \<le> k" using Suc.hyps(2) by arith+
    with Suc.hyps(1) Suc.prems(1) False show ?thesis by (simp add: redis_retry_refused)
  qed
qed

text \<open>From a fresh start the loop ends exactly when some attempt succeeds, at the first one.\<close>

lemma redis_retry_least:
  "redis_retry accepts 0 = (if \<exists>k. accepts k then Some (LEAST k. accepts k) else None)"
proof (cases "\<exists>k. accepts k")
  case True
  then obtain k where "accepts k" by blast
  then obtain j where j: "redis_retry accepts 0 = Some j" using redis_retry_terminates by blast
  then have "accepts j \<and> (\<forall>i<j. \<not> accepts i)" using redis_retry_Some by blast
  then have "(LEAST k. accepts k) = j" by (intro Least_equality) (auto simp: not_less [symmetric])
  with True j show ?thesis by simp
next
  case False
  then have "redis_retry accepts 0 \<noteq> Some j" for j using redis_retry_Some by blast
  with False show ?thesis by (cases "redis_retry accepts 0") auto
qed

lemma redis_error_listener_funpow [simp]:
  "(redis_error_listener e ^^ k) w = w\<lparr>stdout := stdout w @ replicate k (''Redis Client Error'', Some e)\<rparr>"
  by (induction k) (simp_all add: redis_error_listener_def replicate_append_same)

lemma redis_reconnect_live: "\<exists>k. redis_accepts w k \<Longrightarrow> \<exists>w'. redis_reconnect w = Some w'"
  by (simp add: redis_reconnect_def redis_retry_least)

lemma redis_reconnect_never: "\<forall>k. \<not> redis_accepts w k \<Longrightarrow> redis_reconnect w = None"
  by (simp add: redis_reconnect_def redis_retry_least)

lemma redis_reconnect_clients: "redis_reconnect w = Some w' \<Longrightarrow> clients w' = clients w"
  by (auto simp: redis_reconnect_def)

text \<open>Only \<open>save\<close> and \<open>deleteById\<close> on an open connection change the collection.\<close>

lemma world_handler_clients:
  "clients (snd (world_handler w q)) =
     (case q of
        ClientSave c \<Rightarrow> if mongo_connected w then snd (client_save c (clients w)) else clients w
      | ClientDeleteById i \<Rightarrow> if mongo_connected w then snd (client_delete_by_id i (clients w)) else clients w
      | _ \<Rightarrow> clients w)"
proof (cases q)
  case (RedisGet k)
  then show ?thesis
    by (auto simp: redis_command_def redis_get_def redis_error_listener_def dest: redis_reconnect_clients
        split: redis_conn.splits option.splits json.splits)
next
  case (RedisSet k v ex)
  then show ?thesis
    by (auto simp: redis_command_def redis_set_def redis_error_listener_def dest: redis_reconnect_clients
        split: redis_conn.splits option.splits json.splits)
next
  case RedisConnect
  then show ?thesis
    by (auto simp: redis_connect_def dest: redis_reconnect_clients split: redis_conn.splits option.splits)
next
  case (ClientSave c)
  then show ?thesis by (simp add: on_mongo_def on_clients_def split: prod.splits)
next
  case (ClientDeleteById i)
  then show ?thesis by (simp add: on_mongo_def on_clients_def split: prod.splits)
qed (simp_all add: world_defs split: http_reply.splits json.splits option.splits)

lemma world_handler_inv:
  assumes "store_inv (clients w)"
  shows "store_inv (clients (snd (world_handler w q)))"
  using assms client_save_inv [OF assms] client_delete_inv [OF assms]
  by (simp only: world_handler_clients split: request.splits) simp

lemma world_handler_strict_inv:
  assumes "strict_inv (clients w)"
  shows "strict_inv (clients (snd (world_handler w q)))"
  using assms client_save_strict_inv [OF assms] client_delete_strict_inv [OF assms]
  by (simp only: world_handler_clients split: request.splits) simp

text \<open>No step changes what the environment decides.\<close>

lemma world_handler_accepts: "redis_accepts (snd (world_handler w q)) = redis_accepts w"
  by (cases q) (auto simp: world_defs split: redis_conn.splits option.splits json.splits
      http_reply.splits prod.splits)

text \<open>As long as Redis accepts some connection attempt and every server answers, every request
  settles, and the run of a program with the total handler is its run in the world.\<close>

lemma world_handler_web: "web (snd (world_handler w q)) = web w"
  by (cases q) (auto simp: world_defs split: redis_conn.splits option.splits json.splits
      http_reply.splits prod.splits)

lemma world_step_live:
  assumes "\<exists>k. redis_accepts w k" "\<forall>u. web w u \<noteq> NoReply"
  shows "world_step w q = Some (world_handler w q)"
  using redis_reconnect_live [OF assms(1)] assms(2)
  by (cases q) (auto simp: redis_command_def redis_connect_def axios_get_def
      split: redis_conn.splits http_reply.splits)

lemma prun_world_step:
  assumes "\<exists>k. redis_accepts w k" "\<forall>u. web w u \<noteq> NoReply"
  shows "prun world_step p w = Some (run world_handler p w)"
proof (rule prun_run [where I = "\<lambda>w. (\<exists>k. redis_accepts w k) \<and> (\<forall>u. web w u \<noteq> NoReply)"])
  fix s :: world and q
  assume "(\<exists>k. redis_accepts s k) \<and> (\<forall>u. web s u \<noteq> NoReply)"
  then show "world_step s q = Some (world_handler s q)" using world_step_live by blast
next
  fix s :: world and q
  assume "(\<exists>k. redis_accepts s k) \<and> (\<forall>u. web s u \<noteq> NoReply)"
  then show "(\<exists>k. redis_accepts (snd (world_handler s q)) k) \<and>
             (\<forall>u. web (snd (world_handler s q)) u \<noteq> NoReply)"
    by (simp del: world_handler_def add: world_handler_accepts world_handler_web)
qed (use assms in blast)

lemma se_viacep_address: "viacep_address (JStr ''01001000'') (Some se_viacep_data) = se_address"
  by (simp add: viacep_address_def se_viacep_data_def se_address_def js_or_def)

lemma race_fields:
  "js_get joao_client ''name'' = Some (JStr (''Jo'' @ [CHR 0xC3, CHR 0xA3] @ ''o''))"
  "js_get joao_client ''email'' = Some (JStr ''joao@example.com'')"
  "js_get joao_client ''phone'' = Some (JStr ''1199887766'')"
  "js_get joao_client ''cep'' = Some (JStr ''01001000'')"
  "js_get joao_rival ''name'' = Some (JStr ''Joana'')"
  "js_get joao_rival ''email'' = Some (JStr ''joao@example.com'')"
  "js_get joao_rival ''phone'' = Some (JStr ''1188776655'')"
  "js_get joao_rival ''cep'' = Some (JStr ''01001000'')"
  "se_viacep_data \<noteq> JNull" "js_get se_viacep_data ''erro'' = None" "js_truthy se_address" "js_truthy joao_doc"
  "joao_client \<noteq> JNull" "joao_rival \<noteq> JNull"
  by (simp_all add: joao_client_def joao_rival_def se_viacep_data_def se_address_def joao_doc_def)

lemma se_address_parse: "json_parse (json_stringify se_address) = Some se_address"
  by (rule parse_of_stringify) (simp add: se_address_def)

lemma joao_saved:
  "client_save (js_set (js_set joao_client ''id'' (JStr ''uuid-0'')) ''address'' se_address)
     \<lparr>docs = [], oid_counter = 0\<rparr> = (Inr joao_doc, \<lparr>docs = [joao_doc], oid_counter = 1\<rparr>)"
  unfolding joao_client_def se_address_def joao_doc_def by code_simp

lemma find_in_empty:
  "client_find_by_email_or_phone (JStr e) (JStr p) \<lparr>docs = [], oid_counter = n\<rparr> = Inr JNull"
  by (simp add: client_find_by_email_or_phone_def)

subsection \<open>Properties of the deployed service\<close>

text \<open>
  C11. Registration in the deployed world, cache miss: when the client is new, the CEP is a
  string with no live cache entry and ViaCEP answers 2xx with a payload without \<open>erro\<close>,
  the registration writes ViaCEP's address to Redis for 24 hours from now and to the address
  array, consumes one UUID, and ends with the outcome of \<open>save\<close> on the request extended
  with \<open>id\<close> and \<open>address\<close>; nothing else in the world changes.
\<close>

theorem registerClient_world_miss:
  assumes "js_get client ''name'' = Some name" "js_get client ''email'' = Some email"
      "js_get client ''cep'' = Some (JStr k)" "js_get client ''phone'' = Some phone"
    and "js_truthy name" "js_truthy email" "k \<noteq> []" "js_truthy phone"
    and "redis_conn w = RedisReady" "mongo_connected w"
    and "client_find_by_email_or_phone email phone (clients w) = Inr JNull"
    and "redis_lookup w k = None"
    and "web w (viacep_url (JStr k)) = HttpReply status data" "200 \<le> status" "status < 300"
      "data \<noteq> JNull" "\<not> js_truthy_opt (js_get data ''erro'')"
  shows "\<exists>tr. run world_handler (registerClient client) w =
     (fst (client_save (js_set (js_set client ''id'' (JStr (uuid_source w (uuid_count w)))) ''address''
                         (viacep_address (JStr k) (Some data))) (clients w)),
      w\<lparr>redis_store := (redis_store w)(k \<mapsto> (json_stringify (viacep_address (JStr k) (Some data)), clock w + cache_ttl)),
        address_list := address_list w @ [viacep_address (JStr k) (Some data)],
        uuid_count := Suc (uuid_count w),
        clients := snd (client_save (js_set (js_set client ''id'' (JStr (uuid_source w (uuid_count w)))) ''address''
                         (viacep_address (JStr k) (Some data))) (clients w))\<rparr>, tr)"
  using assms
  by (simp add: register_unfold prog_simps world_defs split: prod.splits)

theorem registerClient_world_miss_witness:
  "\<exists>tr. run world_handler (registerClient joao_client) sp_world =
     (Inr joao_doc,
      sp_world\<lparr>redis_store := [''01001000'' \<mapsto> (json_stringify se_address, 1000 + cache_ttl)],
        address_list := [se_address], uuid_count := 1,
        clients := \<lparr>docs = [joao_doc], oid_counter = 1\<rparr>\<rparr>, tr)"
  using registerClient_world_miss [of joao_client _ _ "''01001000''" _ sp_world 200 se_viacep_data]
  by (simp add: race_fields sp_world_def find_in_empty redis_lookup_def se_viacep_address joao_saved)

text \<open>
  C12. The cache round trip: after \<open>cacheAddress\<close> has written a well-formed address,
  \<open>getCachedAddress\<close> run \<open>d\<close> seconds later returns that same address when
  \<open>d\<close> is below the 24-hour expiry and \<open>null\<close> (a miss) from then on.
\<close>

theorem cache_round_trip:
  assumes "redis_conn w = RedisReady" "json_wf a"
  shows "case run world_handler (cacheAddress (JStr k) a) w of (out, w1, tr) \<Rightarrow>
           out = Inr () \<and>
           fst (run world_handler (getCachedAddress (JStr k)) (w1\<lparr>clock := clock w + d\<rparr>)) =
             (if d < cache_ttl then Inr a else Inr JNull)"
  using assms parse_of_stringify [OF assms(2)]
  by (simp add: cacheAddress_def getCachedAddress_def prog_simps world_defs redis_lookup_def)

theorem cache_round_trip_witness:
  "case run world_handler (cacheAddress (JStr ''01001000'') se_address) sp_world of (out, w1, tr) \<Rightarrow>
     out = Inr () \<and>
     fst (run world_handler (getCachedAddress (JStr ''01001000'')) (w1\<lparr>clock := clock sp_world + 3600\<rparr>)) =
       (if 3600 < cache_ttl then Inr se_address else Inr JNull)"
  by (rule cache_round_trip) (simp_all add: sp_world_def se_address_def)

text \<open>
  C13. Whatever the service does, and however two of its calls interleave, the collection
  keeps its invariant: no two documents share an email, no two share a phone, and every
  stored document satisfies the schema.
\<close>

theorem interleave_store_inv:
  assumes "store_inv (clients w)"
  shows "let col = clients (snd (snd (interleave world_handler sched p1 p2 w))) in
           distinct (map (\<lambda>d. js_get d ''email'') (docs col)) \<and>
           distinct (map (\<lambda>d. js_get d ''phone'') (docs col)) \<and> store_inv col"
proof -
  have "store_inv (clients (snd (snd (interleave world_handler sched p1 p2 w))))"
    by (rule interleave_inv [where I = "\<lambda>w. store_inv (clients w)"]) (use assms world_handler_inv in auto)
  then show ?thesis by (simp add: store_inv_unique)
qed

theorem interleave_store_inv_witness:
  "let col = clients (snd (snd (interleave world_handler race_schedule
               (registerClient joao_client) (registerClient joao_rival) sp_world))) in
     distinct (map (\<lambda>d. js_get d ''email'') (docs col)) \<and>
     distinct (map (\<lambda>d. js_get d ''phone'') (docs col)) \<and> store_inv col"
  by (rule interleave_store_inv) (simp add: sp_world_def store_inv_def unique_inv_def)

lemma addresses_find_append:
  "addresses_find c (xs @ ys) =
     (case addresses_find c xs of Inr None \<Rightarrow> addresses_find c ys | r \<Rightarrow> r)"
  by (induction xs) (auto split: sum.splits option.splits)

lemma strict_eq_get_truthy: "js_strict_eq (js_get a k) (Some c) \<Longrightarrow> js_truthy a"
  by (cases a) auto

lemma addresses_find_found: "addresses_find c xs = Inr (Some a) \<Longrightarrow> js_truthy a"
  by (induction xs) (auto split: if_splits intro: strict_eq_get_truthy)

text \<open>
  C32. Insert, then look up, in the in-memory address repository: after \<open>save(a)\<close>,
  \<open>findByCep(c)\<close> answers what it answered before unless that was \<open>null\<close>
  (an earlier address with postal code \<open>c\<close> wins and nothing is replaced; a
  \<open>null\<close> element met first still throws), and when it was \<open>null\<close> it answers
  what a repository holding only \<open>a\<close> answers.
\<close>

theorem address_save_find:
  "address_find_by_cep c (snd (address_save a w)) =
     (case address_find_by_cep c w of
        Inr JNull \<Rightarrow> address_find_by_cep c (w\<lparr>address_list := [a]\<rparr>)
      | r \<Rightarrow> r)"
  by (auto simp: address_find_by_cep_def address_save_def addresses_find_append
      dest: addresses_find_found split: sum.splits option.splits json.splits)

theorem address_save_find_witness:
  "address_find_by_cep (JStr ''01001000'')
     (snd (address_save (JObj [(''cep'', JStr ''01001000'')]) (sp_world\<lparr>address_list := [JNull]\<rparr>))) =
   Inl (read_error (Some JNull) ''cep'')"
  by (simp only: address_save_find) (simp add: address_find_by_cep_def)

end
