(* ===== verification/Client_Controller.thy ===== *)
theory Client_Controller
  imports World
begin

text \<open>
  The HTTP layer: \<open>ClientController\<close> (src/interfaces/controllers/ClientController.ts),
  \<open>errorResponse\<close> (src/utils/errorResponse.ts) and the route table
  (src/infrastructure/web/routes.ts). Each handler is an interaction tree over the same
  requests as the service, ending in the response it sends. The error codes come from a
  module \<open>utils/errorCodes\<close> that is not part of the repository; they are modelled as an
  enumeration whose values are their names.
\<close>

datatype error_code =
    VALIDATION_ERROR | DUPLICATE_CLIENT | ADDRESS_NOT_FOUND | CLIENT_NOT_FOUND | INTERNAL_SERVER_ERROR

fun error_code_text :: "error_code \<Rightarrow> string" where
  "error_code_text VALIDATION_ERROR = ''VALIDATION_ERROR''"
| "error_code_text DUPLICATE_CLIENT = ''DUPLICATE_CLIENT''"
| "error_code_text ADDRESS_NOT_FOUND = ''ADDRESS_NOT_FOUND''"
| "error_code_text CLIENT_NOT_FOUND = ''CLIENT_NOT_FOUND''"
| "error_code_text INTERNAL_SERVER_ERROR = ''INTERNAL_SERVER_ERROR''"

text \<open>What \<open>res.status(code).json(body)\<close> sends.\<close>

record http_response =
  status :: nat
  body :: json

definition errorResponse :: "nat \<Rightarrow> error_code \<Rightarrow> string \<Rightarrow> http_response" where
  "errorResponse statusCode code message =
     \<lparr>status = statusCode,
      body = JObj [(''error'', JObj [(''code'', JStr (error_code_text code)), (''message'', JStr message)])]\<rparr>"

definition msg_internal :: string where
  "msg_internal = ''Internal server error''"

definition msg_client_not_found :: string where
  "msg_client_not_found = ''Cliente n'' @ [CHR 0xC3, CHR 0xA3] @ ''o encontrado''"

definition msg_deleted :: string where
  "msg_deleted = ''Cliente deletado com sucesso''"

subsection \<open>Query parameters\<close>

text \<open>
  \<open>parseInt(x)\<close>: \<open>String(x)\<close> (\<open>undefined\<close> for a missing parameter), leading
  whitespace skipped, an optional sign, then a \<open>0x\<close> prefix selects base 16; the longest
  run of digits is read and \<open>NaN\<close> (\<open>None\<close>) results when there is none.
\<close>

fun digits_prefix :: "nat \<Rightarrow> string \<Rightarrow> nat list" where
  "digits_prefix b [] = []"
| "digits_prefix b (c # cs) =
     (case hex_val c of Some d \<Rightarrow> if d < b then d # digits_prefix b cs else [] | None \<Rightarrow> [])"

definition digits_num :: "nat \<Rightarrow> nat list \<Rightarrow> nat" where
  "digits_num b ds = foldl (\<lambda>acc d. acc * b + d) 0 ds"

definition read_unsigned :: "string \<Rightarrow> nat option" where
  "read_unsigned s =
     (let (b, t) = (case s of
                      c0 # c1 # rest \<Rightarrow> if c0 = CHR ''0'' \<and> (c1 = CHR ''x'' \<or> c1 = CHR ''X'')
                                        then (16, rest) else (10, s)
                    | _ \<Rightarrow> (10, s));
          ds = digits_prefix b t
      in if ds = [] then None else Some (digits_num b ds))"

definition parse_int :: "string \<Rightarrow> int option" where
  "parse_int s =
     (case dropWhile is_space s of
        c # rest \<Rightarrow>
          if c = CHR ''-'' then map_option (\<lambda>n. - int n) (read_unsigned rest)
          else if c = CHR ''+'' then map_option int (read_unsigned rest)
          else map_option int (read_unsigned (c # rest))
      | [] \<Rightarrow> None)"

definition query_string :: "json option \<Rightarrow> string" where
  "query_string v = (case v of None \<Rightarrow> ''undefined'' | Some x \<Rightarrow> js_to_string x)"

text \<open>\<open>parseInt(req.query.x as string) || d\<close>: \<open>NaN\<close> and \<open>0\<close> are falsy.\<close>

definition int_param :: "json option \<Rightarrow> int \<Rightarrow> int" where
  "int_param v d = (case parse_int (query_string v) of Some n \<Rightarrow> if n = 0 then d else n | None \<Rightarrow> d)"

subsection \<open>Handlers\<close>

type_synonym query = "string \<Rightarrow> json option"

definition register_error :: "exn \<Rightarrow> http_response" where
  "register_error error =
     (if exn_message error = msg_invalid_data then errorResponse 400 VALIDATION_ERROR (exn_message error)
      else if exn_message error = msg_duplicate then errorResponse 400 DUPLICATE_CLIENT (exn_message error)
      else if exn_message error = msg_cep_not_found then errorResponse 400 ADDRESS_NOT_FOUND (exn_message error)
      else errorResponse 500 INTERNAL_SERVER_ERROR msg_internal)"

definition register :: "json \<Rightarrow> http_response js" where
  "register reqBody =
     pcatch (pbind (registerClient reqBody) (\<lambda>client. Return \<lparr>status = 201, body = client\<rparr>))
       (\<lambda>error. Return (register_error error))"

definition list :: "query \<Rightarrow> http_response js" where
  "list q =
     pcatch (pbind (listClients (int_param (q ''page'') 1) (int_param (q ''limit'') 10))
                   (\<lambda>clients. Return \<lparr>status = 200, body = clients\<rparr>))
       (\<lambda>error. Return (errorResponse 400 VALIDATION_ERROR (exn_message error)))"

definition getById :: "json \<Rightarrow> http_response js" where
  "getById clientId =
     pcatch (pbind (getClientById clientId) (\<lambda>client.
               if \<not> js_truthy client then Return (errorResponse 404 CLIENT_NOT_FOUND msg_client_not_found)
               else Return \<lparr>status = 200, body = client\<rparr>))
       (\<lambda>error. Return (errorResponse 400 VALIDATION_ERROR (exn_message error)))"

definition delete :: "json \<Rightarrow> http_response js" where
  "delete clientId =
     pcatch (pbind (getClientById clientId) (\<lambda>client.
               if \<not> js_truthy client then Return (errorResponse 404 CLIENT_NOT_FOUND msg_client_not_found)
               else pbind (deleteClientById clientId) (\<lambda>_.
                      Return \<lparr>status = 200, body = JObj [(''message'', JStr msg_deleted)]\<rparr>)))
       (\<lambda>error. Return (errorResponse 400 VALIDATION_ERROR (exn_message error)))"

definition search :: "query \<Rightarrow> http_response js" where
  "search q =
     pcatch (pbind (searchClientsByName (q ''name'') (int_param (q ''page'') 1) (int_param (q ''limit'') 10))
                   (\<lambda>clients. Return \<lparr>status = 200, body = clients\<rparr>))
       (\<lambda>error. Return (errorResponse 400 VALIDATION_ERROR (exn_message error)))"

subsection \<open>Routes\<close>

datatype http_method = GET | POST | DELETE

text \<open>A request as Express sees it: the method, the path split at \<open>/\<close> into its
  segments (already decoded), the query object and the parsed body. Paths match without
  regard to the case of ASCII letters, and a trailing slash is ignored, as Express's default
  router does; a request that matches no route gets \<open>None\<close> (Express's own 404).\<close>

record http_request =
  req_method :: http_method
  segments :: "string list"
  query_of :: query
  body_of :: json

definition seg_eq :: "string \<Rightarrow> string \<Rightarrow> bool" where
  "seg_eq a b \<longleftrightarrow> map ascii_lower a = map ascii_lower b"

definition path_is :: "string list \<Rightarrow> string list \<Rightarrow> bool" where
  "path_is segs p \<longleftrightarrow> list_all2 seg_eq (if segs \<noteq> [] \<and> last segs = [] then butlast segs else segs) p"

definition client_id_of :: "string list \<Rightarrow> string option" where
  "client_id_of segs =
     (case (if segs \<noteq> [] \<and> last segs = [] then butlast segs else segs) of
        [a, v, c, i] \<Rightarrow> if list_all2 seg_eq [a, v, c] [''api'', ''v1'', ''clients''] \<and> i \<noteq> [] then Some i else None
      | _ \<Rightarrow> None)"

definition route :: "http_request \<Rightarrow> http_response js option" where
  "route req =
     (if req_method req = POST \<and> path_is (segments req) [''api'', ''v1'', ''clients''] then Some (register (body_of req))
      else if req_method req = GET \<and> path_is (segments req) [''api'', ''v1'', ''clients''] then Some (list (query_of req))
      else if req_method req = GET \<and> client_id_of (segments req) \<noteq> None
        then Some (getById (JStr (the (client_id_of (segments req)))))
      else if req_method req = DELETE \<and> client_id_of (segments req) \<noteq> None
        then Some (delete (JStr (the (client_id_of (segments req)))))
      else if req_method req = GET \<and> path_is (segments req) [''api'', ''v1'', ''search''] then Some (search (query_of req))
      else None)"

subsection \<open>Sample requests\<close>

definition get_abc :: http_request where
  "get_abc = \<lparr>req_method = GET, segments = [''api'', ''v1'', ''clients'', ''abc''], query_of = (\<lambda>_. None),
              body_of = JNull\<rparr>"

definition joao_world :: world where
  "joao_world = sp_world\<lparr>clients := \<lparr>docs = [joao_doc], oid_counter = 1\<rparr>\<rparr>"

subsection \<open>Facts\<close>

lemmas controller_defs = register_def getById_def delete_def list_def search_def
  getClientById_def deleteClientById_def listClients_def searchClientsByName_def

lemma hex_val_digit: "is_digit c \<Longrightarrow> hex_val c = Some (of_char c - 48)"
  by (simp add: hex_val_def is_digit_def Let_def)

lemma digits_prefix_digits:
  "\<forall>c \<in> set s. is_digit c \<Longrightarrow> digits_prefix 10 s = map (\<lambda>c. of_char c - 48) s"
  by (induction s) (auto simp: hex_val_digit, auto simp: is_digit_def)

lemma digits_num_digits: "digits_num 10 (map (\<lambda>c. of_char c - 48) s) = digits_value 0 s"
  by (simp add: digits_num_def digits_value_def foldl_map mult.commute)

lemma read_unsigned_nat_digits: "read_unsigned (nat_digits n) = Some n"
proof -
  have all: "\<forall>c \<in> set (nat_digits n). is_digit c" by (rule nat_digits_all_digits)
  have prefix: "read_unsigned s = (if digits_prefix 10 s = [] then None else Some (digits_num 10 (digits_prefix 10 s)))"
    if "\<forall>c \<in> set s. is_digit c" for s
  proof (cases s rule: remdups_adj.cases)
    case (3 c0 c1 rest)
    with that have "is_digit c1" by simp
    then have "c1 \<noteq> CHR ''x'' \<and> c1 \<noteq> CHR ''X''" by (auto simp: is_digit_def)
    with 3 show ?thesis by (simp add: read_unsigned_def)
  qed (simp_all add: read_unsigned_def)
  have "digits_value 0 (nat_digits n) = n"
    using digits_value_nat_digits [of 0 n] by simp
  with all show ?thesis
    by (simp add: prefix digits_prefix_digits digits_num_digits)
qed

text \<open>\<open>parseInt(..) || d\<close> is never 0 when the default is not.\<close>

lemma int_param_nonzero: "d \<noteq> 0 \<Longrightarrow> int_param v d \<noteq> 0"
  by (simp add: int_param_def split: option.splits)

lemma joao_world_facts:
  "store_inv (clients joao_world)" "mongo_connected joao_world"
  "cast_object_id (JStr (object_id 0)) = Some (object_id 0)"
  "filter (\<lambda>d. js_get d ''_id'' = Some (JStr (object_id 0))) (docs (clients joao_world)) = [joao_doc]"
  unfolding joao_world_def joao_doc_def se_address_def by code_simp+

subsection \<open>Properties of the HTTP layer\<close>



lemma getById_connected:
  assumes "mongo_connected w"
  shows "run world_handler (getById i) w =
     (Inr (case client_find_by_id i (clients w) of
             Inl e \<Rightarrow> errorResponse 400 VALIDATION_ERROR (exn_message e)
           | Inr c \<Rightarrow> if js_truthy c then \<lparr>status = 200, body = c\<rparr>
                     else errorResponse 404 CLIENT_NOT_FOUND msg_client_not_found),
      w, [(ClientFindById i, client_find_by_id i (clients w))])"
  using assms
  by (simp add: controller_defs prog_simps on_mongo_def local_error_def split: sum.splits)

lemma stored_find_truthy: "store_inv col \<Longrightarrow> find P (docs col) = Some d \<Longrightarrow> js_truthy d"
  using stored_valid_truthy by (auto simp: store_inv_def dest: find_Some_iff [THEN iffD1])

text \<open>
  C17. \<open>GET /api/v1/clients/:id\<close> in the deployed world: an id that is not an ObjectId
  gives status 400 with \<open>VALIDATION_ERROR\<close> and the cast error's message; a well-formed id
  that no document has gives 404 with \<open>CLIENT_NOT_FOUND\<close>; otherwise the first document
  with that id is returned with 200.
\<close>

theorem getById_world:
  assumes "store_inv (clients w)" "mongo_connected w"
  shows "fst (run world_handler (getById i) w) =
     Inr (case cast_object_id i of
            None \<Rightarrow> errorResponse 400 VALIDATION_ERROR (exn_message object_id_cast_error)
          | Some oid \<Rightarrow>
              (case find (\<lambda>d. js_get d ''_id'' = Some (JStr oid)) (docs (clients w)) of
                 None \<Rightarrow> errorResponse 404 CLIENT_NOT_FOUND msg_client_not_found
               | Some d \<Rightarrow> \<lparr>status = 200, body = d\<rparr>))"
  using getById_connected [OF assms(2)] stored_find_truthy [OF assms(1)]
  by (auto simp: client_find_by_id_def split: option.splits)

theorem getById_world_witness:
  "fst (run world_handler (getById (JStr ''abc'')) sp_world) =
     Inr (errorResponse 400 VALIDATION_ERROR (exn_message object_id_cast_error))"
  using getById_world [of sp_world "JStr ''abc''"]
  by (simp add: sp_world_def store_inv_def unique_inv_def cast_object_id_def)

text \<open>
  C18. Delete, then look up: when exactly one stored document has the id, \<open>DELETE\<close> answers
  200 with the success message, removes that document and nothing else, and a following
  \<open>GET\<close> of the same id answers 404.
\<close>

theorem delete_then_get:
  assumes "store_inv (clients w)" "mongo_connected w" "cast_object_id i = Some oid"
    and "filter (\<lambda>d. js_get d ''_id'' = Some (JStr oid)) (docs (clients w)) = [d]"
  shows "case run world_handler (delete i) w of (out, w', tr) \<Rightarrow>
           out = Inr \<lparr>status = 200, body = JObj [(''message'', JStr msg_deleted)]\<rparr> \<and>
           docs (clients w') = remove1 d (docs (clients w)) \<and>
           fst (run world_handler (getById i) w') =
             Inr (errorResponse 404 CLIENT_NOT_FOUND msg_client_not_found)"
proof -
  let ?P = "\<lambda>d. js_get d ''_id'' = Some (JStr oid)"
  note single = remove_first_single [OF assms(4)]
  then have found: "find ?P (docs (clients w)) = Some d" and "d \<in> set (docs (clients w))" by simp_all
  then have truthy: "js_truthy d" using assms(1) stored_valid_truthy by (auto simp: store_inv_def)
  define w' where "w' = w\<lparr>clients := (clients w)\<lparr>docs := remove_first ?P (docs (clients w))\<rparr>\<rparr>"
  have run_delete: "run world_handler (delete i) w =
      (Inr \<lparr>status = 200, body = JObj [(''message'', JStr msg_deleted)]\<rparr>, w',
       [(ClientFindById i, Inr d), (ClientDeleteById i, Inr JNull)])"
    using found truthy assms(2,3)
    by (simp add: delete_def getClientById_def deleteClientById_def prog_simps on_clients_def
        on_mongo_def local_error_def client_find_by_id_def client_delete_by_id_def w'_def)
  have gone: "find ?P (docs (clients w')) = None" and rest: "docs (clients w') = remove1 d (docs (clients w))"
    using single by (simp_all add: w'_def)
  have "fst (run world_handler (getById i) w') = Inr (errorResponse 404 CLIENT_NOT_FOUND msg_client_not_found)"
    using gone assms(2,3)
    by (simp add: w'_def getById_def getClientById_def prog_simps on_mongo_def local_error_def client_find_by_id_def)
  with rest show ?thesis by (simp add: run_delete)
qed

theorem delete_then_get_witness:
  "case run world_handler (delete (JStr (object_id 0))) joao_world of (out, w', tr) \<Rightarrow>
     out = Inr \<lparr>status = 200, body = JObj [(''message'', JStr msg_deleted)]\<rparr> \<and>
     docs (clients w') = remove1 joao_doc (docs (clients joao_world)) \<and>
     fst (run world_handler (getById (JStr (object_id 0))) w') =
       Inr (errorResponse 404 CLIENT_NOT_FOUND msg_client_not_found)"
  by (rule delete_then_get [OF joao_world_facts])

text \<open>
  C19. Deleting an unknown client, against any repository: when \<open>findById\<close> gives a
  falsy value, \<open>DELETE\<close> answers 404 after that single call; \<open>deleteById\<close> is never
  called.
\<close>

theorem delete_missing:
  assumes "\<not> js_truthy client"
  shows "replay (delete i) (Inr client # rs) =
           ([ClientFindById i], Some (Inr (errorResponse 404 CLIENT_NOT_FOUND msg_client_not_found)))"
  using assms by (simp add: controller_defs prog_simps)

theorem delete_missing_witness:
  "replay (delete (JStr ''abc'')) [Inr JNull, Inr JNull] =
     ([ClientFindById (JStr ''abc'')], Some (Inr (errorResponse 404 CLIENT_NOT_FOUND msg_client_not_found)))"
  by (rule delete_missing) simp

text \<open>
  C20. Every request that matches a route is answered whenever it settles: in every world,
  a run of the handler the route table selects that settles ends with an HTTP response and
  never with an unhandled rejection.
\<close>

theorem route_always_responds:
  assumes "route req = Some p" "prun world_step p w = Some (out, w', tr)"
  shows "\<exists>resp. out = Inr resp"
proof -
  have "\<not> may_throw p e" for e
    using assms(1) by (auto simp: route_def controller_defs split: if_splits)
  then show ?thesis
    using assms(2) by (cases out) (auto dest: prun_Inl_may_throw)
qed

theorem route_always_responds_witness:
  "case prun world_step (getById (JStr ''abc'')) sp_world of
     None \<Rightarrow> False
   | Some (out, w', tr) \<Rightarrow> \<exists>resp. out = Inr resp"
proof -
  have r: "route get_abc = Some (getById (JStr ''abc''))"
    by (simp add: route_def get_abc_def path_is_def client_id_of_def seg_eq_def ascii_lower_def)
  have "\<exists>k. redis_accepts sp_world k" "\<forall>u. web sp_world u \<noteq> NoReply"
    by (simp_all add: sp_world_def)
  then have settles: "prun world_step (getById (JStr ''abc'')) sp_world =
      Some (run world_handler (getById (JStr ''abc'')) sp_world)"
    by (rule prun_world_step)
  obtain out w' tr where run: "run world_handler (getById (JStr ''abc'')) sp_world = (out, w', tr)"
    by (cases "run world_handler (getById (JStr ''abc'')) sp_world") blast
  show ?thesis
    using route_always_responds [OF r, of sp_world out w' tr] settles run by simp
qed

text \<open>\<open>parseInt\<close> reads back every integer \<open>String\<close> writes.\<close>

lemma parse_int_int_to_string: "parse_int (int_to_string n) = Some n"
proof (cases "n < 0")
  case True
  have "\<not> is_space (CHR ''-'')" by (simp add: is_space_def)
  with True show ?thesis
    by (simp add: parse_int_def int_to_string_def read_unsigned_nat_digits)
next
  case False
  obtain d ds where d: "nat_digits (nat n) = d # ds" by (cases "nat_digits (nat n)") auto
  then have "is_digit d" using nat_digits_all_digits [of "nat n"] by simp
  then have "\<not> is_space d" "d \<noteq> CHR ''-''" "d \<noteq> CHR ''+''" by (auto simp: is_space_def is_digit_def)
  with False d read_unsigned_nat_digits [of "nat n"] show ?thesis
    by (simp add: parse_int_def int_to_string_def)
qed



text \<open>
  C22. The cache is not best-effort: when the connection to Redis drops while the cache read
  of a registration of a new client with valid fields is in flight, the read rejects and the
  registration answers 500 before any provider is asked; the listener prints the socket error
  and the client goes on reconnecting.
\<close>

theorem register_redis_down:
  assumes "js_get client ''name'' = Some name" "js_get client ''email'' = Some email"
      "js_get client ''cep'' = Some cep" "js_get client ''phone'' = Some phone"
    and "js_truthy name" "js_truthy email" "js_truthy cep" "js_truthy phone"
    and "client_find_by_email_or_phone email phone (clients w) = Inr JNull"
    and "redis_conn w = RedisLost" "mongo_connected w"
  shows "prun world_step (register client) w =
           Some (Inr (errorResponse 500 INTERNAL_SERVER_ERROR msg_internal),
                 w\<lparr>redis_conn := RedisConnecting,
                   stdout := stdout w @ [(''Redis Client Error'', Some redis_socket_closed_error)]\<rparr>,
                 [(FindByEmailOrPhone email phone, Inr JNull), (RedisGet cep, Inl redis_socket_closed_error)])"
proof -
  have "register_error redis_socket_closed_error = errorResponse 500 INTERNAL_SERVER_ERROR msg_internal"
    by (simp add: register_error_def redis_socket_closed_error_def msg_invalid_data_def
        msg_duplicate_def msg_cep_not_found_def)
  with assms show ?thesis
    by (simp add: register_def register_unfold prog_simps world_defs)
qed

theorem register_redis_down_witness:
  "prun world_step (register joao_client) (sp_world\<lparr>redis_conn := RedisLost\<rparr>) =
     Some (Inr (errorResponse 500 INTERNAL_SERVER_ERROR msg_internal),
           sp_world\<lparr>redis_conn := RedisConnecting,
             stdout := [(''Redis Client Error'', Some redis_socket_closed_error)]\<rparr>,
           [(FindByEmailOrPhone (JStr ''joao@example.com'') (JStr ''1199887766''), Inr JNull),
            (RedisGet (JStr ''01001000''), Inl redis_socket_closed_error)])"
  by (rule register_redis_down [THEN trans]) (simp add: race_fields sp_world_def find_in_empty)+

text \<open>
  C33. \<open>GET /api/v1/clients\<close> on an open connection: with the page \<open>p\<close> and the
  limit \<open>l > 0\<close> the handler reads (\<open>parseInt(..) || default\<close>), a negative page
  makes the server refuse the negative skip and the controller answers 400 with the server's
  message; any other page answers 200 with the \<open>l\<close> clients after the first
  \<open>(p - 1) * l\<close>, in insertion order.
\<close>

theorem list_world:
  assumes "mongo_connected w"
    and "int_param (q ''page'') 1 = p" "int_param (q ''limit'') 10 = int l" "0 < l"
  shows "fst (run world_handler (list q) w) =
     Inr (if p < 0 then errorResponse 400 VALIDATION_ERROR (exn_message skip_error)
          else \<lparr>status = 200, body = JArr (take l (drop (nat (p - 1) * l) (docs (clients w))))\<rparr>)"
proof -
  have "p \<noteq> 0" using assms(2) int_param_nonzero [of 1] by auto
  with assms show ?thesis
    by (simp add: list_def listClients_def prog_simps world_defs client_find_all_def page_of_def
        apply_limit_def nat_mult_distrib mult_less_0_iff)
qed

theorem list_world_witness:
  "fst (run world_handler (list (\<lambda>k. if k = ''page'' then Some (JStr ''-2'') else None)) sp_world) =
     Inr (errorResponse 400 VALIDATION_ERROR (exn_message skip_error))"
proof -
  have page: "int_param (Some (JStr ''-2'')) 1 = -2" and limit: "int_param None 10 = int 10"
    by code_simp+
  show ?thesis
    using list_world [of sp_world "\<lambda>k. if k = ''page'' then Some (JStr ''-2'') else None" "-2" 10]
      page limit by (simp add: sp_world_def)
qed



end
