(* ===== verification/Startup.thy ===== *)
theory Startup
  imports Client_Controller
begin

text \<open>
  Start-up: \<open>connectDB\<close> (\<open>src/infrastructure/database/mongoose.ts\<close>) opens the
  Mongoose connection, printing \<open>MongoDB connected\<close>, or logs the error and exits the process
  with code 1; the module \<open>src/infrastructure/cache/redisClient.ts\<close> connects the Redis client
  in an async IIFE with no \<open>catch\<close>. Both run against the world of \<open>World\<close>, so their
  effect on the connections composes with the request handlers.
\<close>

section \<open>The start-up programs\<close>

definition mongo_url :: string where
  "mongo_url = ''mongodb://mongo:27017/meuprojeto''"

definition mongo_error_text :: string where
  "mongo_error_text = ''Error connecting to MongoDB''"

definition connectDB :: "unit js" where
  "connectDB =
     pcatch (pbind (await (MongoConnect mongo_url))
                   (\<lambda>_. Call (ConsoleLog ''MongoDB connected'') (\<lambda>_. Return ())))
       (\<lambda>error. Call (ConsoleError mongo_error_text error) (\<lambda>_. Call (ProcessExit 1) (\<lambda>_. Return ())))"

definition redis_startup :: "unit js" where
  "redis_startup =
     pbind (await RedisConnect) (\<lambda>_. Call (ConsoleLog ''Connected to Redis'') (\<lambda>_. Return ()))"

section \<open>Properties\<close>

text \<open>
  C29. \<open>connectDB\<close> on every world: when MongoDB is reachable the connection opens and
  \<open>MongoDB connected\<close> is printed; otherwise the error is logged with
  \<open>Error connecting to MongoDB\<close>, the process exits with code 1 and the connection stays
  closed. The promise itself never rejects.
\<close>

theorem connectDB_run:
  "run world_handler connectDB w =
     (if mongo_reachable w
      then (Inr (), w\<lparr>mongo_connected := True, stdout := stdout w @ [(''MongoDB connected'', None)]\<rparr>,
            [(MongoConnect mongo_url, Inr JNull), (ConsoleLog ''MongoDB connected'', Inr JNull)])
      else (Inr (), w\<lparr>console_log := console_log w @ [(mongo_error_text, mongo_connect_error)],
                      exit_code := Some 1\<rparr>,
            [(MongoConnect mongo_url, Inl mongo_connect_error),
             (ConsoleError mongo_error_text mongo_connect_error, Inr JNull), (ProcessExit 1, Inr JNull)]))"
  by (simp add: connectDB_def prog_simps world_defs)

text \<open>
  C30. The Redis start-up terminates exactly when Redis accepts some connection attempt. From
  a client not yet connected, when some attempt succeeds the IIFE ends after the first such
  attempt: the listener has printed \<open>Redis Client Error\<close> once per refused attempt before
  it, the client is ready and \<open>Connected to Redis\<close> is printed. When no attempt ever
  succeeds, \<open>connect()\<close> never settles (\<open>None\<close>): the promise neither resolves nor
  rejects, and \<open>Connected to Redis\<close> is never printed.
\<close>

theorem redis_startup_run:
  assumes "redis_conn w = RedisClosed"
  shows "prun world_step redis_startup w =
     (if \<exists>k. redis_accepts w k
      then Some (Inr (),
             w\<lparr>redis_conn := RedisReady,
               stdout := stdout w @ replicate (LEAST k. redis_accepts w k)
                                      (''Redis Client Error'', Some redis_connect_error) @
                         [(''Connected to Redis'', None)]\<rparr>,
             [(RedisConnect, Inr JNull), (ConsoleLog ''Connected to Redis'', Inr JNull)])
      else None)"
  using assms
  by (simp add: redis_startup_def prog_simps redis_connect_def redis_reconnect_def redis_retry_least
      console_log_line_def)

theorem redis_startup_run_witness:
  "prun world_step redis_startup (process_start sp_world\<lparr>redis_accepts := (\<lambda>k. 2 \<le> k)\<rparr>) =
     Some (Inr (),
       process_start sp_world\<lparr>redis_accepts := (\<lambda>k. 2 \<le> k), redis_conn := RedisReady,
         stdout := [(''Redis Client Error'', Some redis_connect_error),
                    (''Redis Client Error'', Some redis_connect_error), (''Connected to Redis'', None)]\<rparr>,
       [(RedisConnect, Inr JNull), (ConsoleLog ''Connected to Redis'', Inr JNull)])"
proof -
  have "(LEAST k::nat. 2 \<le> k) = 2" by (rule Least_equality) simp_all
  moreover have "replicate 2 x = [x, x]" for x :: "string \<times> exn option"
    by (simp add: numeral_2_eq_2)
  ultimately show ?thesis
    using redis_startup_run [of "process_start sp_world\<lparr>redis_accepts := (\<lambda>k. 2 \<le> k)\<rparr>"]
    by (auto simp: process_start_def)
qed

text \<open>
  C31. A request served before \<open>connectDB\<close> has opened the connection: a registration
  with valid fields reaches the duplicate check, whose query Mongoose buffers until it times out,
  and the controller answers 500; nothing is stored or cached.
\<close>

theorem register_before_connect:
  assumes "js_get client ''name'' = Some name" "js_get client ''email'' = Some email"
      "js_get client ''cep'' = Some cep" "js_get client ''phone'' = Some phone"
    and "js_truthy name" "js_truthy email" "js_truthy cep" "js_truthy phone"
    and "cast_string (Some email) \<noteq> None" "cast_string (Some phone) \<noteq> None"
    and "\<not> mongo_connected w"
  shows "run world_handler (register client) w =
           (Inr (errorResponse 500 INTERNAL_SERVER_ERROR msg_internal), w,
            [(FindByEmailOrPhone email phone, Inl (mongo_buffer_error ''findOne''))])"
proof -
  have "local_error (client_find_by_email_or_phone email phone (clients w)) = None"
    using assms(9,10) by (simp add: local_error_def client_find_by_email_or_phone_def split: option.splits)
  moreover have "register_error (mongo_buffer_error ''findOne'') =
                   errorResponse 500 INTERNAL_SERVER_ERROR msg_internal"
    by (simp add: register_error_def mongo_buffer_error_def msg_invalid_data_def msg_duplicate_def
        msg_cep_not_found_def)
  ultimately show ?thesis
    using assms by (simp add: register_def register_unfold prog_simps world_defs)
qed

theorem register_before_connect_witness:
  "run world_handler (register joao_client) (sp_world\<lparr>mongo_connected := False\<rparr>) =
     (Inr (errorResponse 500 INTERNAL_SERVER_ERROR msg_internal), sp_world\<lparr>mongo_connected := False\<rparr>,
      [(FindByEmailOrPhone (JStr ''joao@example.com'') (JStr ''1199887766''),
        Inl (mongo_buffer_error ''findOne''))])"
  by (rule register_before_connect) (simp add: race_fields sp_world_def)+

text \<open>
  C36. While the Redis client reconnects to a server that accepts no connection attempt, a
  registration of a new client with valid fields never receives an answer: its cache read waits
  in the offline queue forever and the controller's \<open>catch\<close> is never reached, so the
  HTTP request hangs instead of failing.
\<close>

theorem register_hangs_redis_down:
  assumes "js_get client ''name'' = Some name" "js_get client ''email'' = Some email"
      "js_get client ''cep'' = Some cep" "js_get client ''phone'' = Some phone"
    and "js_truthy name" "js_truthy email" "js_truthy cep" "js_truthy phone"
    and "mongo_connected w" "client_find_by_email_or_phone email phone (clients w) = Inr JNull"
    and "redis_conn w = RedisConnecting" "\<forall>k. \<not> redis_accepts w k"
  shows "prun world_step (register client) w = None"
  using assms redis_reconnect_never [OF assms(12)]
  by (simp add: register_def register_unfold prog_simps world_defs del: redis_reconnect_def)

theorem register_hangs_redis_down_witness:
  "prun world_step (register joao_client)
     (sp_world\<lparr>redis_conn := RedisConnecting, redis_accepts := (\<lambda>_. False)\<rparr>) = None"
  by (rule register_hangs_redis_down) (simp add: race_fields sp_world_def find_in_empty)+

end
