(* ===== verification/Bounds.thy ===== *)
theory Bounds
  imports Client_Service
begin

text \<open>
  Termination and call bounds. \<open>bounded p n\<close> (\<open>Prelude\<close>) says that on every path
  \<open>p\<close> makes at most \<open>n\<close> calls; \<open>bounded_replay\<close> turns it into a bound on the
  requests of a replay and the guarantee that a replay with \<open>n\<close> responses finishes. The
  resolver makes at most two calls per provider (the request and, on a rejection, one log
  line): four. A registration adds the duplicate check, the cache read, the UUID and the save,
  and on a miss the cache write and the address save; these two follow only a resolver path
  of at most three calls, since the four-call path ends with \<open>null\<close>: nine.
\<close>

text \<open>The responses of the longest registration: no duplicate, a cache miss, ViaCEP rejected,
  the log line, ApiCEP answering with status 200, then the writes, the UUID and the save.\<close>

definition apicep_response :: json where
  "apicep_response =
     JObj [(''data'', JObj [(''status'', JNum 200), (''code'', JStr ''01001-000''), (''address'', JStr ''Praca da Se''),
                          (''district'', JStr ''Se''), (''city'', JStr ''Sao Paulo''), (''state'', JStr ''SP'')])]"

definition longest_registration :: "response list" where
  "longest_registration =
     [Inr JNull, Inr JNull, Inl json_syntax_error, Inr JNull, Inr apicep_response, Inr (JStr ''OK''),
      Inr JNull, Inr (JStr ''u1''), Inr JNull]"

text \<open>A miss costs at most five calls: the resolver's longest path (both providers reject
  and are logged) ends with \<open>null\<close> and no write, so the two writes follow at most three
  resolver calls.\<close>

lemma bounded_miss:
  "bounded (pbind (fetchAddress cep) (\<lambda>address.
     if \<not> js_truthy address then Throw err_cep_not_found
     else pbind (cacheAddress cep address) (\<lambda>_. pbind (await (AddressSave address)) (\<lambda>_. Return address)))) 5"
  unfolding fetchAddress_def services_def fetchAddressFromViaCEP_def fetchAddressFromApiCEP_def cacheAddress_def
  by (simp add: eval_nat_numeral prog_simps Let_def cong: if_cong)
     (auto intro!: bounded.intros split: sum.splits if_splits option.splits)

lemma bounded_registerClient: "bounded (registerClient client) 9"
proof -
  have tail: "bounded (pbind (await UuidV4) (\<lambda>newId. await (ClientSave (js_set (js_set client ''id'' newId) ''address'' a)))) 2" for a
    using bounded_pbind [OF bounded_await bounded_await] by (simp add: numeral_2_eq_2)
  have resolve: "bounded (if \<not> js_truthy cached then pbind (fetchAddress cep) (\<lambda>a. if \<not> js_truthy a then Throw err_cep_not_found else
           pbind (cacheAddress cep a) (\<lambda>_. pbind (await (AddressSave a)) (\<lambda>_. Return a))) else Return cached) 5" for cep cached
    using bounded_miss by (auto intro: bounded.intros)
  have "bounded (pbind (if \<not> js_truthy cached then pbind (fetchAddress cep) (\<lambda>a. if \<not> js_truthy a then Throw err_cep_not_found else
           pbind (cacheAddress cep a) (\<lambda>_. pbind (await (AddressSave a)) (\<lambda>_. Return a))) else Return cached)
           (\<lambda>address. pbind (await UuidV4) (\<lambda>newId. await (ClientSave (js_set (js_set client ''id'' newId) ''address'' address))))) 7"
    for cep cached
    using bounded_pbind [OF resolve tail] by simp
  then have "bounded (pbind (getCachedAddress cep) (\<lambda>cached. pbind (if \<not> js_truthy cached then pbind (fetchAddress cep) (\<lambda>a. if \<not> js_truthy a then Throw err_cep_not_found else
           pbind (cacheAddress cep a) (\<lambda>_. pbind (await (AddressSave a)) (\<lambda>_. Return a))) else Return cached)
           (\<lambda>address. pbind (await UuidV4) (\<lambda>newId. await (ClientSave (js_set (js_set client ''id'' newId) ''address'' address)))))) 8"
    for cep
    using bounded_pbind [OF bounded_cache_client(1)] by fastforce
  then have "bounded (if js_truthy x then Throw err_duplicate else (pbind (getCachedAddress cep) (\<lambda>cached. pbind (if \<not> js_truthy cached then pbind (fetchAddress cep) (\<lambda>a. if \<not> js_truthy a then Throw err_cep_not_found else
           pbind (cacheAddress cep a) (\<lambda>_. pbind (await (AddressSave a)) (\<lambda>_. Return a))) else Return cached)
           (\<lambda>address. pbind (await UuidV4) (\<lambda>newId. await (ClientSave (js_set (js_set client ''id'' newId) ''address'' address))))))) 8" for x cep
    by (auto intro: bounded.intros)
  then have "bounded (pbind (await (FindByEmailOrPhone email phone)) (\<lambda>x. if js_truthy x then Throw err_duplicate else (pbind (getCachedAddress cep) (\<lambda>cached. pbind (if \<not> js_truthy cached then pbind (fetchAddress cep) (\<lambda>a. if \<not> js_truthy a then Throw err_cep_not_found else
           pbind (cacheAddress cep a) (\<lambda>_. pbind (await (AddressSave a)) (\<lambda>_. Return a))) else Return cached)
           (\<lambda>address. pbind (await UuidV4) (\<lambda>newId. await (ClientSave (js_set (js_set client ''id'' newId) ''address'' address)))))))) (Suc 0 + 8)"
    for email phone cep
    by (rule bounded_pbind [OF bounded_await])
  then show ?thesis
    by (auto simp: registerClient_def intro: bounded.intros split: option.splits)
qed

text \<open>
  C23. The fallback loop terminates after one linear pass: whatever the collaborators answer,
  \<open>fetchAddress\<close> makes at most four calls, and with four responses available it always
  finishes with a value or an error.
\<close>

theorem fetchAddress_terminates:
  "length (requests (fetchAddress cep) rs) \<le> 4 \<and>
   (4 \<le> length rs \<longrightarrow> outcome (fetchAddress cep) rs \<noteq> None)"
  using bounded_replay [OF bounded_fetchAddress] by (simp add: requests_def outcome_def)

theorem fetchAddress_terminates_witness:
  "4 \<le> length [Inl json_syntax_error, Inr JNull, Inl json_syntax_error, Inr JNull :: response] \<and>
   length (requests (fetchAddress (JStr ''01001000''))
     [Inl json_syntax_error, Inr JNull, Inl json_syntax_error, Inr JNull]) \<le> 4 \<and>
   outcome (fetchAddress (JStr ''01001000''))
     [Inl json_syntax_error, Inr JNull, Inl json_syntax_error, Inr JNull] \<noteq> None"
  using fetchAddress_terminates [of "JStr ''01001000''" "[Inl json_syntax_error, Inr JNull, Inl json_syntax_error, Inr JNull]"]
  by simp

text \<open>
  C24. A registration is bounded, and the bound is reached: whatever the collaborators answer,
  \<open>registerClient\<close> makes at most nine calls, and with nine responses available it always
  finishes. Nine is the longest path: ViaCEP rejected and logged, ApiCEP answering, then the
  cache write, the address save, the UUID and the save.
\<close>

theorem registerClient_terminates:
  "length (requests (registerClient client) rs) \<le> 9 \<and>
   (9 \<le> length rs \<longrightarrow> outcome (registerClient client) rs \<noteq> None)"
  using bounded_replay [OF bounded_registerClient] by (simp add: requests_def outcome_def)

theorem registerClient_terminates_witness:
  "9 \<le> length longest_registration \<and>
   length (requests (registerClient joao_client) longest_registration) \<le> 9 \<and>
   outcome (registerClient joao_client) longest_registration \<noteq> None \<and>
   length (requests (registerClient joao_client) longest_registration) = 9"
proof -
  have "length (requests (registerClient joao_client) longest_registration) = 9"
    by (simp add: longest_registration_def requests_def register_unfold prog_simps sample_defs
        apicep_response_def Let_def)
  then show ?thesis
    using registerClient_terminates [of joao_client longest_registration]
    by (simp add: longest_registration_def)
qed

end
