(* ===== verification/Spec2Isabelle.thy ===== *)
theory Spec2Isabelle
  imports Startup Bounds
begin

text \<open>
  \<^bold>\<open>A verification model of the client-registration API\<close> (jotapvaladaresdev/teste).

  \<^bold>\<open>The program.\<close> An Express application registers clients. The route table
  (src/infrastructure/web/routes.ts) sends five endpoints to \<open>ClientController\<close>
  (src/interfaces/controllers/ClientController.ts), which calls \<open>ClientService\<close>
  (src/application/services/ClientService.ts) and turns outcomes into status codes with
  \<open>errorResponse\<close> (src/utils/errorResponse.ts). \<open>registerClient\<close> validates the request,
  asks the client repository for a client with the same email or phone, reads the address of
  the postal code (CEP) from Redis, on a miss asks ViaCEP and then ApiCEP over HTTP (axios),
  writes the address to Redis for 24 hours and to the address repository, assigns a UUID and
  saves the client. The client repository is \<open>ClientRepositoryImpl\<close> over the Mongoose model
  of src/infrastructure/database/models/Client.ts; the address repository is the array of
  src/interfaces/repositories/AddressRepositoryImpl.ts; Redis is the module-level client of
  src/infrastructure/cache/redisClient.ts, connected at start-up by an async IIFE there, and
  MongoDB is connected by \<open>connectDB\<close> (src/infrastructure/database/mongoose.ts).

  \<^bold>\<open>Theories, in import order.\<close>
  \<^item> \<open>Prelude\<close>: an \<open>async\<close> function is an interaction tree \<open>prog\<close> (\<open>Return\<close>,
    \<open>Throw\<close> for a rejected promise, \<open>Call q k\<close> for \<open>await\<close> of request \<open>q\<close>), with
    \<open>pbind\<close> (sequencing by \<open>await\<close>) and \<open>pcatch\<close> (\<open>try/catch\<close>). Four readings:
    \<open>replay p rs\<close> feeds responses in order, as the Jest mocks do; \<open>run h p s\<close> serves each
    request by a state-passing handler; \<open>prun h p s\<close> does the same with a handler that may
    leave a request unanswered, and is \<open>None\<close> when the run waits forever (\<open>prun_run\<close>:
    where the handler always answers, it is \<open>run\<close>); \<open>interleave h sched p1 p2 s\<close> runs
    two calls on one event loop, the schedule choosing whose pending request completes next. The path
    predicates \<open>may_call\<close>, \<open>may_return\<close>, \<open>may_throw\<close> (inductive) quantify over all
    responses; \<open>run_replay\<close>, \<open>run_inv\<close>, \<open>interleave_inv\<close> transfer facts between the
    readings.
  \<^item> \<open>Json\<close>: JavaScript values, truthiness, property access, \<open>String(x)\<close>,
    \<open>JSON.stringify\<close> and a fuelled \<open>JSON.parse\<close>; \<open>json_parse_stringify\<close> proves the
    round trip for values with distinct keys (fuel: one more than the text's length, shown
    sufficient by \<open>json_fuel_bound\<close>).
  \<^item> \<open>Effects\<close>: the datatype \<open>request\<close> (one constructor per external call), responses
    \<open>exn + json\<close>, the exact UTF-8 error messages the service throws, and the domain
    interfaces \<open>Address\<close> and \<open>Client\<close> as predicates on values.
  \<^item> \<open>Address_Resolver\<close>: the two adapters, the list \<open>services\<close>, the loop
    \<open>fetchAddress\<close> (\<open>try_services\<close>), \<open>getCachedAddress\<close> and \<open>cacheAddress\<close>.
  \<^item> \<open>Client_Service\<close>: \<open>registerClient\<close> and the four query methods.
  \<^item> \<open>Mongo_Store\<close>: the Mongoose schema (casting, \<open>required\<close>, \<open>maxlength\<close>,
    \<open>match\<close>, \<open>uppercase\<close>, unique indexes) and the repository methods over a document
    list, \<open>findByCep\<close> included; \<open>findByName\<close>'s pattern with the \<open>i\<close> flag is
    decided exactly for names of ASCII characters free of metacharacters (\<open>name_matcher\<close>:
    in UTF-16 a non-ASCII unit never folds to an ASCII letter) and delegated to the
    regular-expression engine of the world otherwise; \<open>store_inv\<close> is the collection invariant (unique email
    and phone, schema-valid documents) and \<open>strict_inv\<close> says that strict mode has kept
    only the schema's keys.
  \<^item> \<open>World\<close>: the deployed collaborators (the Redis client, a store with absolute expiry
    against a clock, axios, uuid, console, the address array, the collection) and
    \<open>world_step\<close>, which serves each request as routes.ts wires it or leaves it unanswered.
    The address array's \<open>find\<close> (\<open>addresses_find\<close>) throws the \<open>TypeError\<close> of
    \<open>address.cep\<close> on a \<open>null\<close> element it meets before a match.
    The Redis client has four states (not connected, ready, dropping the command in flight,
    reconnecting); \<open>redis_retry\<close>, a \<^theory_text>\<open>partial_function (option)\<close>, is node-redis's
    unbounded connect loop, which ends at the first attempt Redis accepts
    (\<open>redis_retry_least\<close>) and is \<open>None\<close> when there is none; each failed attempt runs the
    \<open>error\<close> listener of redisClient.ts (\<open>redis_error_listener\<close>) once; a command sent while
    the client reconnects waits in the offline queue until the loop ends. axios has no timeout,
    so a server that never answers leaves the call unanswered. \<open>world_handler\<close> is the total
    handler of the worlds where every request settles, and \<open>prun_world_step\<close> shows that
    \<open>run world_handler\<close> is the exact run in every world where Redis accepts some attempt and
    every server answers; the state of the MongoDB and Redis
    connections, with Mongoose's command buffering (\<open>on_mongo\<close>: local casts and
    validation first, then a buffering timeout while the connection is closed), stdout and the
    exit code; \<open>process_start\<close>, the state of a new process in an environment; a sample
    world built from the test suite.
  \<^item> \<open>Client_Controller\<close>: \<open>parseInt(...) || d\<close>, the five handlers, \<open>errorResponse\<close>
    and the route table.
  \<^item> \<open>Startup\<close>: \<open>connectDB\<close> and the Redis start-up IIFE as programs against the
    same world, so start-up composes with the handlers.
  \<^item> \<open>Bounds\<close>: \<open>bounded p n\<close> (at most \<open>n\<close> calls on every path, \<open>Prelude\<close>)
    applied to the resolver (four calls) and the registration (nine calls).

  \<^bold>\<open>What is proved.\<close> Against arbitrary collaborators: the registration's exact call
  sequence on a cache miss (C1), the duplicate stop (C2), validation as an equivalence (C3),
  the cache hit (C4), the resolver's fallback behaviour (C5 to C7), address-not-found (C8),
  that every run that saves a client saves the request extended with the UUID just drawn and
  the resolved address, as its last two calls (C9), and that "not found" is never cached
  (C10). In the deployed world: the registration on a miss (C11), the cache round trip with
  its 24-hour expiry (C12), unique emails and phones under any interleaving of two calls
  (C13), the unique index (C14) and pagination without loss or repetition (C15). At the HTTP
  layer: for any two registrations with the same email that both pass the duplicate check,
  the loser answered with 500 rather than 400 (C16), lookup by id (C17), delete then lookup
  (C18), delete of an unknown id (C19), every routed request answered whenever it settles
  (C20), \<open>parseInt(String(n)) || d\<close> (C21) and Redis failures being fatal (C22).
  Termination and bounds: the fallback loop ends after at most four calls (C23), a
  registration after at most nine, the length of its longest path (C24). Shapes and bounds of
  data: the resolver returns \<open>null\<close> or an \<open>Address\<close> (C25), \<open>findByName\<close> on a
  literal ASCII name is case-insensitive substring search with pagination (C26), and a
  document \<open>save\<close> stores respects the schema's length and digit bounds (C27). With the
  start-up model: the client repository's \<open>findByCep\<close> never finds a client by its postal
  code (C28), \<open>connectDB\<close> on both outcomes (C29), the Redis start-up, which ends exactly
  when Redis accepts an attempt, after one \<open>error\<close> line per failed attempt, and otherwise
  never settles (C30), requests served before the connection opens failing with 500 (C31),
  the address repository's insert/lookup round trip, a \<open>null\<close> element throwing
  (C32), the list endpoint with its negative-page error (C33), a document \<open>save\<close> stores
  typed by \<open>IClient\<close> and never by the domain's \<open>Client\<close> (C34), the search endpoint
  on literal ASCII names (C35), and a registration that never answers while Redis refuses
  every connection attempt (C36).

  \<^bold>\<open>Bounds and fuel.\<close> \<open>JSON.parse\<close> gets \<open>length + 1\<close> units of fuel, enough for every
  text \<open>JSON.stringify\<close> writes. Numbers are integers (\<open>int\<close>); JavaScript's
  floating-point numbers and \<open>NaN\<close> appear only through \<open>parseInt\<close>, whose \<open>NaN\<close> is
  \<open>None\<close>. Schedules of \<open>interleave\<close> are finite lists, so every interleaving terminates. The
  call bound four counts one request and at most one log line per provider and is reached
  when both providers reject. Nine is the bound for a registration and is reached: its longest
  path (\<open>longest_registration\<close>) makes nine calls (the duplicate check, the cache read,
  ViaCEP rejected and logged, ApiCEP answering, then the cache write, the address save, the
  UUID and the save). The connect loop of node-redis needs no fuel: it is a
  partial function, and \<open>redis_retry_least\<close> states both that it returns when an attempt
  succeeds and that it does not return otherwise.

  \<^bold>\<open>Not modelled.\<close> The waiting time between Redis connection attempts (the default
  strategy waits \<open>min(retries * 50, 500)\<close> ms; the clock counts seconds, for the cache
  expiry) and the interleaving of other requests with a running connect loop: a connect loop
  that ends is one atomic step, which keeps the order of the queued commands; custom reconnect
  strategies and \<open>disableOfflineQueue\<close>, which the code does not use; the order in
  which the application entry point (not in the repository) starts the server,
  \<open>connectDB\<close> and the Redis module; a MongoDB connection that opens while a command
  waits in Mongoose's buffer (the command then runs): \<open>on_mongo\<close> decides at the time of
  the call, so a repository call made while the connection is closed fails with the
  buffering timeout, as it does when the connection stays closed for the 10 s of
  \<open>bufferTimeoutMS\<close>; the process after \<open>process.exit\<close> (only the exit
  code is recorded); Express body parsing and URL decoding; MongoDB query operators inside
  request values; names with metacharacters or non-ASCII characters in \<open>findByName\<close> (delegated to an
  engine that is a parameter of the world); Mongoose's version key and subdocument ids; the
  TypeScript interfaces of src/domain (erased at run time); the module utils/errorCodes,
  absent from the repository (modelled as an enumeration whose values are their names).
\<close>
end
